theory Spec2Isabelle
  imports Complex_Main "HOL-Library.AList"
begin

section \<open>Data model\<close>

text \<open>
  The tables of \<^verbatim>\<open>database/schema.py\<close>, each as a list of rows in rowid order.
  Only the columns that the result computation reads or writes are kept. Ids are
  natural numbers. Marks are Python floats in the source; they are modelled as
  exact reals. The columns that the data-entry layer validates before a row is
  stored (a student's grade, an exam's maximum marks, the marks of a result) are
  not nullable here; \<^verbatim>\<open>Exams.semester_id\<close> is nullable, as the schema says.
\<close>

record student =
  st_id :: nat
  st_current_grade_id :: nat

record enrollment =
  en_student_id :: nat
  en_academic_year_id :: nat

record subject =
  sub_id :: nat
  sub_name :: string

record exam =
  ex_id :: nat
  ex_name :: string
  ex_semester_id :: "nat option"
  ex_academic_year_id :: nat
  ex_max_marks :: real

record exam_result =
  er_student_id :: nat
  er_exam_id :: nat
  er_subject_id :: nat
  er_marks :: real

record semester_result =
  sr_id :: nat
  sr_student_id :: nat
  sr_semester_id :: nat
  sr_academic_year_id :: nat
  sr_total_marks :: real
  sr_average_score :: real
  sr_grade_rank :: nat

record yearly_result =
  yr_id :: nat
  yr_student_id :: nat
  yr_academic_year_id :: nat
  yr_total_marks :: real
  yr_average_score :: real
  yr_grade_rank :: nat

text \<open>
  The two result tables have \<^verbatim>\<open>INTEGER PRIMARY KEY AUTOINCREMENT\<close> ids: each
  carries the largest id it ever handed out (SQLite's \<^verbatim>\<open>sqlite_sequence\<close>).
\<close>

record database =
  Students :: "student list"
  Enrollments :: "enrollment list"
  Subjects :: "subject list"
  Exams :: "exam list"
  ExamResults :: "exam_result list"
  SemesterResults :: "semester_result list"
  SemesterResults_seq :: nat
  YearlyResults :: "yearly_result list"
  YearlyResults_seq :: nat

datatype py_error = KeyError

section \<open>SQLite's LIKE\<close>

text \<open>
  SQLite's \<^verbatim>\<open>LIKE\<close> with its default settings: \<^verbatim>\<open>%\<close> matches any run of
  characters, \<^verbatim>\<open>_\<close> matches one character, and any other character matches
  itself without regard to ASCII case. The first argument is the pattern.
\<close>

definition ascii_lower :: "char \<Rightarrow> char" where
  "ascii_lower c =
     (let n = (of_char c :: nat) in if 65 \<le> n \<and> n \<le> 90 then char_of (n + 32) else c)"

fun like :: "string \<Rightarrow> string \<Rightarrow> bool" where
  "like [] s = (s = [])"
| "like (p # ps) s =
     (if p = CHR ''%'' then
        (like ps s \<or> (case s of [] \<Rightarrow> False | c # t \<Rightarrow> like (p # ps) t))
      else if p = CHR ''_'' then
        (case s of [] \<Rightarrow> False | c # t \<Rightarrow> like ps t)
      else
        (case s of [] \<Rightarrow> False | c # t \<Rightarrow> ascii_lower c = ascii_lower p \<and> like ps t))"



section \<open>The result store\<close>

text \<open>
  \<^verbatim>\<open>get_semester_result_by_composite_keys\<close>: \<^verbatim>\<open>fetch_one\<close> of the rows with the
  given student, semester and academic year, that is the first such row.
\<close>

definition get_semester_result_by_composite_keys ::
  "database \<Rightarrow> nat \<Rightarrow> nat \<Rightarrow> nat \<Rightarrow> semester_result option" where
  "get_semester_result_by_composite_keys db student_id semester_id academic_year_id =
     find (\<lambda>r. sr_student_id r = student_id \<and> sr_semester_id r = semester_id
               \<and> sr_academic_year_id r = academic_year_id) (SemesterResults db)"

definition get_yearly_result_by_composite_keys ::
  "database \<Rightarrow> nat \<Rightarrow> nat \<Rightarrow> yearly_result option" where
  "get_yearly_result_by_composite_keys db student_id academic_year_id =
     find (\<lambda>r. yr_student_id r = student_id \<and> yr_academic_year_id r = academic_year_id)
       (YearlyResults db)"

text \<open>
  The id that an insert into an AUTOINCREMENT table receives: one more than the
  largest id in the table or ever handed out.
\<close>

definition next_id :: "nat list \<Rightarrow> nat \<Rightarrow> nat" where
  "next_id ids seq = Suc (max seq (fold max ids 0))"

text \<open>
  \<^verbatim>\<open>add_semester_result\<close> (lines 39-61): when a row with the key exists,
  \<^verbatim>\<open>update_one\<close> sets all six data columns of the rows with that row's id, else
  \<^verbatim>\<open>insert_one\<close> appends a row under a fresh id. The model returns the new
  database; the object that the Python returns is not looked at by the callers.
  The key of a row that is inserted here is not in the table, so the UNIQUE
  constraint cannot reject the insert and the \<^verbatim>\<open>except\<close> branch is not reached.
\<close>

definition add_semester_result ::
  "database \<Rightarrow> nat \<Rightarrow> nat \<Rightarrow> nat \<Rightarrow> real \<Rightarrow> real \<Rightarrow> nat \<Rightarrow> database" where
  "add_semester_result db student_id semester_id academic_year_id
       total_marks average_score grade_rank =
     (case get_semester_result_by_composite_keys db student_id semester_id academic_year_id of
        Some existing_result \<Rightarrow>
          db\<lparr>SemesterResults :=
               map (\<lambda>r. if sr_id r = sr_id existing_result
                        then r\<lparr>sr_student_id := student_id, sr_semester_id := semester_id,
                               sr_academic_year_id := academic_year_id,
                               sr_total_marks := total_marks,
                               sr_average_score := average_score,
                               sr_grade_rank := grade_rank\<rparr>
                        else r) (SemesterResults db)\<rparr>
      | None \<Rightarrow>
          (let new_id = next_id (map sr_id (SemesterResults db)) (SemesterResults_seq db)
           in db\<lparr>SemesterResults := SemesterResults db @
                    [\<lparr>sr_id = new_id, sr_student_id = student_id, sr_semester_id = semester_id,
                      sr_academic_year_id = academic_year_id, sr_total_marks = total_marks,
                      sr_average_score = average_score, sr_grade_rank = grade_rank\<rparr>],
                  SemesterResults_seq := new_id\<rparr>))"

definition add_yearly_result ::
  "database \<Rightarrow> nat \<Rightarrow> nat \<Rightarrow> real \<Rightarrow> real \<Rightarrow> nat \<Rightarrow> database" where
  "add_yearly_result db student_id academic_year_id total_marks average_score grade_rank =
     (case get_yearly_result_by_composite_keys db student_id academic_year_id of
        Some existing_result \<Rightarrow>
          db\<lparr>YearlyResults :=
               map (\<lambda>r. if yr_id r = yr_id existing_result
                        then r\<lparr>yr_student_id := student_id,
                               yr_academic_year_id := academic_year_id,
                               yr_total_marks := total_marks,
                               yr_average_score := average_score,
                               yr_grade_rank := grade_rank\<rparr>
                        else r) (YearlyResults db)\<rparr>
      | None \<Rightarrow>
          (let new_id = next_id (map yr_id (YearlyResults db)) (YearlyResults_seq db)
           in db\<lparr>YearlyResults := YearlyResults db @
                    [\<lparr>yr_id = new_id, yr_student_id = student_id,
                      yr_academic_year_id = academic_year_id, yr_total_marks = total_marks,
                      yr_average_score = average_score, yr_grade_rank = grade_rank\<rparr>],
                  YearlyResults_seq := new_id\<rparr>))"

section \<open>Semester results\<close>

subsection \<open>The queries of \<^verbatim>\<open>compute_and_store_semester_results\<close>\<close>

text \<open>
  Each query is a comprehension over the tables in the order of its FROM and JOIN
  clauses, with the ON and WHERE conditions as guards. A parameter compared with
  the nullable \<^verbatim>\<open>Exams.semester_id\<close> matches only a row that holds that id.
\<close>

text \<open>Lines 257-265: the students enrolled in the academic year, with their grade.\<close>

definition students_in_year :: "database \<Rightarrow> nat \<Rightarrow> (nat \<times> nat) list" where
  "students_in_year db academic_year_id =
     [(st_id s, st_current_grade_id s).
        s \<leftarrow> Students db, e \<leftarrow> Enrollments db,
        st_id s = en_student_id e, en_academic_year_id e = academic_year_id]"

text \<open>Lines 272-278: the exams of the scope whose name is like a semester exam or a CAT.\<close>

definition semester_exams :: "database \<Rightarrow> nat \<Rightarrow> nat \<Rightarrow> exam list" where
  "semester_exams db academic_year_id semester_id =
     [e \<leftarrow> Exams db. ex_academic_year_id e = academic_year_id
        \<and> ex_semester_id e = Some semester_id
        \<and> (like ''%Semester%'' (ex_name e) \<or> like ''%CAT%'' (ex_name e))]"

text \<open>Lines 300-307: (marks, exam name, exam max marks) of the student's results in scope.\<close>

definition student_exam_results ::
  "database \<Rightarrow> nat \<Rightarrow> nat \<Rightarrow> nat \<Rightarrow> (real \<times> string \<times> real) list" where
  "student_exam_results db student_id academic_year_id semester_id =
     [(er_marks er, ex_name e, ex_max_marks e).
        er \<leftarrow> ExamResults db, e \<leftarrow> Exams db, er_exam_id er = ex_id e,
        er_student_id er = student_id, ex_academic_year_id e = academic_year_id,
        ex_semester_id e = Some semester_id]"

text \<open>Lines 348-358: SELECT DISTINCT of the subject ids with a result in scope.\<close>

definition student_subjects_in_semester :: "database \<Rightarrow> nat \<Rightarrow> nat \<Rightarrow> nat \<Rightarrow> nat list" where
  "student_subjects_in_semester db student_id academic_year_id semester_id =
     remdups [sub_id s.
        s \<leftarrow> Subjects db, er \<leftarrow> ExamResults db, sub_id s = er_subject_id er,
        e \<leftarrow> Exams db, er_exam_id er = ex_id e,
        er_student_id er = student_id, ex_academic_year_id e = academic_year_id,
        ex_semester_id e = Some semester_id]"

text \<open>Lines 392-400: SELECT DISTINCT of (subject id, subject name) with a result in scope.\<close>

definition subjects_with_results ::
  "database \<Rightarrow> nat \<Rightarrow> nat \<Rightarrow> nat \<Rightarrow> (nat \<times> string) list" where
  "subjects_with_results db student_id academic_year_id semester_id =
     remdups [(er_subject_id er, sub_name s).
        er \<leftarrow> ExamResults db, s \<leftarrow> Subjects db, er_subject_id er = sub_id s,
        e \<leftarrow> Exams db, er_exam_id er = ex_id e,
        er_student_id er = student_id, ex_academic_year_id e = academic_year_id,
        ex_semester_id e = Some semester_id]"

text \<open>
  Lines 406-413 and 421-428: (marks, max marks) of the student's results in one
  subject, in the exams of the scope whose name is like the given pattern. The
  rows come in the order in which SQLite produces them: it walks the student's
  results along the index of \<^verbatim>\<open>UNIQUE(student_id, exam_id, subject_id)\<close> and looks
  each exam up by its id, so the rows are in ascending order of the exam id.
\<close>

definition subject_results_like ::
  "string \<Rightarrow> database \<Rightarrow> nat \<Rightarrow> nat \<Rightarrow> nat \<Rightarrow> nat \<Rightarrow> (real \<times> real) list" where
  "subject_results_like pattern db student_id subject_id academic_year_id semester_id =
     map snd (sort_key fst
       [(er_exam_id er, (er_marks er, ex_max_marks e)).
          er \<leftarrow> ExamResults db, e \<leftarrow> Exams db, er_exam_id er = ex_id e,
          er_student_id er = student_id, er_subject_id er = subject_id,
          ex_academic_year_id e = academic_year_id, ex_semester_id e = Some semester_id,
          like pattern (ex_name e)])"

text \<open>
  \<^verbatim>\<open>fetch_one\<close> of the semester-exam query: its first row, if any, which is the
  student's result of the subject in the matching exam with the least id.
\<close>

definition sem_exam_result ::
  "database \<Rightarrow> nat \<Rightarrow> nat \<Rightarrow> nat \<Rightarrow> nat \<Rightarrow> (real \<times> real) option" where
  "sem_exam_result db student_id subject_id academic_year_id semester_id =
     (case subject_results_like ''%Semester%Exam%'' db student_id subject_id
             academic_year_id semester_id of
        [] \<Rightarrow> None | row # _ \<Rightarrow> Some row)"

definition cat_results ::
  "database \<Rightarrow> nat \<Rightarrow> nat \<Rightarrow> nat \<Rightarrow> nat \<Rightarrow> (real \<times> real) list" where
  "cat_results db student_id subject_id academic_year_id semester_id =
     subject_results_like ''%CAT%'' db student_id subject_id academic_year_id semester_id"

subsection \<open>Per-subject and per-student totals\<close>

text \<open>
  Lines 415-441, the body of the loop over the subjects up to the two per-subject
  totals: (subject_total_for_semester, subject_possible_total_for_semester).
\<close>

definition subject_totals :: "database \<Rightarrow> nat \<Rightarrow> nat \<Rightarrow> nat \<Rightarrow> nat \<Rightarrow> real \<times> real" where
  "subject_totals db student_id subject_id academic_year_id semester_id =
     (let sem_res = sem_exam_result db student_id subject_id academic_year_id semester_id;
          subject_semester_exam_score = (case sem_res of Some row \<Rightarrow> fst row | None \<Rightarrow> 0);
          subject_semester_exam_max_marks = (case sem_res of Some row \<Rightarrow> snd row | None \<Rightarrow> 0);
          cat_res = cat_results db student_id subject_id academic_year_id semester_id;
          cat_scores = map fst cat_res;
          cat_max_marks = map snd cat_res;
          avg_cat_score =
            (if cat_scores \<noteq> [] then sum_list cat_scores / real (length cat_scores) else 0);
          avg_cat_max_marks =
            (if cat_max_marks \<noteq> [] then sum_list cat_max_marks / real (length cat_max_marks)
             else 0)
      in (subject_semester_exam_score + avg_cat_score,
          subject_semester_exam_max_marks + avg_cat_max_marks))"

text \<open>
  Lines 443-446: one pass of the loop on the accumulators
  (total_semester_score, total_possible_semester_score, num_subjects_counted).
\<close>

definition accumulate_subject ::
  "database \<Rightarrow> nat \<Rightarrow> nat \<Rightarrow> nat \<Rightarrow> nat \<times> string \<Rightarrow> real \<times> real \<times> nat \<Rightarrow> real \<times> real \<times> nat" where
  "accumulate_subject db student_id academic_year_id semester_id subject_entry acc =
     (let subject_id = fst subject_entry;
          tot = subject_totals db student_id subject_id academic_year_id semester_id;
          total_semester_score = fst acc;
          total_possible_semester_score = fst (snd acc);
          num_subjects_counted = snd (snd acc)
      in if snd tot > 0
         then (total_semester_score + fst tot, total_possible_semester_score + snd tot,
               num_subjects_counted + 1)
         else acc)"

definition semester_totals :: "database \<Rightarrow> nat \<Rightarrow> nat \<Rightarrow> nat \<Rightarrow> real \<times> real \<times> nat" where
  "semester_totals db student_id academic_year_id semester_id =
     fold (accumulate_subject db student_id academic_year_id semester_id)
       (subjects_with_results db student_id academic_year_id semester_id) (0, 0, 0)"

text \<open>
  A value of the dictionary \<^verbatim>\<open>student_semester_data\<close>. The key
  \<^verbatim>\<open>'grade_rank'\<close> is absent until the ranking sets it.
\<close>

record semester_data =
  total_marks :: real
  average_score :: real
  grade_id :: nat
  grade_rank :: "nat option"

text \<open>
  Lines 292-459, one pass of the loop over the students: \<open>None\<close> when a
  \<^verbatim>\<open>continue\<close> skips the student, else the entry stored under the student's id.
  The sums of lines 317-326 are never read again and are left out.
\<close>

definition compute_student ::
  "database \<Rightarrow> nat \<Rightarrow> nat \<Rightarrow> nat \<times> nat \<Rightarrow> semester_data option" where
  "compute_student db academic_year_id semester_id student_info =
     (let student_id = fst student_info; grade = snd student_info in
      if student_exam_results db student_id academic_year_id semester_id = [] then None
      else if length (student_subjects_in_semester db student_id academic_year_id semester_id) = 0
      then None
      else
        (let acc = semester_totals db student_id academic_year_id semester_id;
             total_semester_score = fst acc;
             total_possible_semester_score = fst (snd acc);
             num_subjects_counted = snd (snd acc)
         in if num_subjects_counted = 0 then None
            else Some \<lparr>total_marks = total_semester_score,
                       average_score =
                         (if total_possible_semester_score > 0
                          then (total_semester_score / total_possible_semester_score) * 100
                          else 0),
                       grade_id = grade, grade_rank = None\<rparr>))"

text \<open>
  The dictionary keeps insertion order, and a second store under a key keeps the
  key's place: \<^const>\<open>AList.update\<close>.
\<close>

definition student_loop ::
  "database \<Rightarrow> nat \<Rightarrow> nat \<Rightarrow> nat \<times> nat \<Rightarrow> (nat \<times> semester_data) list
     \<Rightarrow> (nat \<times> semester_data) list" where
  "student_loop db academic_year_id semester_id student_info student_semester_data =
     (case compute_student db academic_year_id semester_id student_info of
        None \<Rightarrow> student_semester_data
      | Some data \<Rightarrow> AList.update (fst student_info) data student_semester_data)"

definition student_semester_data ::
  "database \<Rightarrow> nat \<Rightarrow> nat \<Rightarrow> (nat \<times> semester_data) list" where
  "student_semester_data db academic_year_id semester_id =
     fold (student_loop db academic_year_id semester_id)
       (students_in_year db academic_year_id) []"

subsection \<open>Ranking\<close>

text \<open>
  \<^verbatim>\<open>list.sort(key=lambda x: x[1], reverse=True)\<close>: the stable sort of the
  reversed list, reversed, so that equal scores keep their order.
\<close>

definition sort_by_score_desc :: "(nat \<times> real) list \<Rightarrow> (nat \<times> real) list" where
  "sort_by_score_desc xs = rev (sort_key snd (rev xs))"

text \<open>
  The loop of lines 475-481 (and 299-305 of the yearly service, which has the same
  text) from index \<open>i\<close> on, as the list of (student, rank) assignments it makes.
\<close>

fun rank_loop :: "nat \<Rightarrow> nat \<Rightarrow> real \<Rightarrow> (nat \<times> real) list \<Rightarrow> (nat \<times> nat) list" where
  "rank_loop i current_rank prev_score [] = []"
| "rank_loop i current_rank prev_score ((s_id, avg_score) # rest) =
     (let current_rank' = (if avg_score \<noteq> prev_score then i + 1 else current_rank)
      in (s_id, current_rank') # rank_loop (i + 1) current_rank' avg_score rest)"

definition rank_students :: "(nat \<times> real) list \<Rightarrow> (nat \<times> nat) list" where
  "rank_students students_in_grade = rank_loop 0 1 (- 1) (sort_by_score_desc students_in_grade)"

text \<open>Lines 462-463.\<close>

definition grades_in_year ::
  "(nat \<times> nat) list \<Rightarrow> (nat \<times> semester_data) list \<Rightarrow> nat list" where
  "grades_in_year students dict =
     sort (remdups [snd s. s \<leftarrow> students, fst s \<in> set (map fst dict)])"

text \<open>Lines 465-481, one pass of the loop over the grades.\<close>

definition rank_grade ::
  "nat \<Rightarrow> (nat \<times> semester_data) list \<Rightarrow> (nat \<times> semester_data) list" where
  "rank_grade g dict =
     (let students_in_grade = [(fst kv, average_score (snd kv)). kv \<leftarrow> dict, grade_id (snd kv) = g]
      in fold (\<lambda>sr d. AList.map_entry (fst sr) (\<lambda>data. data\<lparr>grade_rank := Some (snd sr)\<rparr>) d)
           (rank_students students_in_grade) dict)"

subsection \<open>Storing\<close>

text \<open>
  Lines 484-492. Reading \<^verbatim>\<open>data['grade_rank']\<close> of an entry that was never
  ranked raises KeyError, which ends the run.
\<close>

fun store_semester_results ::
  "(nat \<times> semester_data) list \<Rightarrow> nat \<Rightarrow> nat \<Rightarrow> database \<Rightarrow> py_error + database" where
  "store_semester_results [] academic_year_id semester_id db = Inr db"
| "store_semester_results ((student_id, data) # rest) academic_year_id semester_id db =
     (case grade_rank data of
        None \<Rightarrow> Inl KeyError
      | Some r \<Rightarrow>
          store_semester_results rest academic_year_id semester_id
            (add_semester_result db student_id semester_id academic_year_id
               (total_marks data) (average_score data) r))"

text \<open>The dictionary after the ranking (lines 289-481).\<close>

definition ranked_semester_data ::
  "database \<Rightarrow> nat \<Rightarrow> nat \<Rightarrow> (nat \<times> semester_data) list" where
  "ranked_semester_data db academic_year_id semester_id =
     (let dict = student_semester_data db academic_year_id semester_id
      in fold rank_grade (grades_in_year (students_in_year db academic_year_id) dict) dict)"

definition compute_and_store_semester_results ::
  "database \<Rightarrow> nat \<Rightarrow> nat \<Rightarrow> py_error + database" where
  "compute_and_store_semester_results db academic_year_id semester_id =
     (if students_in_year db academic_year_id = [] then Inr db
      else if semester_exams db academic_year_id semester_id = [] then Inr db
      else store_semester_results (ranked_semester_data db academic_year_id semester_id)
             academic_year_id semester_id db)"

text \<open>
  The entries that a run stores, in order: none when the run returns early, else
  the ranked dictionary.
\<close>

definition semester_rows_written ::
  "database \<Rightarrow> nat \<Rightarrow> nat \<Rightarrow> (nat \<times> semester_data) list" where
  "semester_rows_written db academic_year_id semester_id =
     (if students_in_year db academic_year_id = [] then []
      else if semester_exams db academic_year_id semester_id = [] then []
      else ranked_semester_data db academic_year_id semester_id)"

section \<open>Yearly results\<close>

text \<open>Lines 241-251: the semester results of the academic year, with the student's grade.\<close>

definition semester_results_data :: "database \<Rightarrow> nat \<Rightarrow> (nat \<times> real \<times> real \<times> nat) list" where
  "semester_results_data db academic_year_id =
     [(sr_student_id sr, sr_total_marks sr, sr_average_score sr, st_current_grade_id s).
        sr \<leftarrow> SemesterResults db, s \<leftarrow> Students db,
        sr_student_id sr = st_id s, sr_academic_year_id sr = academic_year_id]"

text \<open>
  A value of the dictionary \<^verbatim>\<open>student_yearly_data\<close> while the semester results
  are summed (lines 260-274), and once the totals are set (lines 277-283). The key
  \<^verbatim>\<open>'grade_rank'\<close> is absent until the ranking sets it.
\<close>

record yearly_sums =
  total_marks_sum :: real
  average_score_sum :: real
  num_semesters :: nat
  y_grade_id :: nat

record yearly_data = yearly_sums +
  y_total_marks :: real
  y_average_score :: real
  y_grade_rank :: "nat option"

text \<open>Lines 261-274, one pass of the loop over the semester results.\<close>

definition aggregate_semester_result ::
  "nat \<times> real \<times> real \<times> nat \<Rightarrow> (nat \<times> yearly_sums) list \<Rightarrow> (nat \<times> yearly_sums) list" where
  "aggregate_semester_result res dict =
     (let student_id = fst res;
          res_total_marks = fst (snd res);
          res_average_score = fst (snd (snd res));
          res_grade_id = snd (snd (snd res));
          dict' = (if student_id \<notin> set (map fst dict)
                   then AList.update student_id
                          \<lparr>total_marks_sum = 0, average_score_sum = 0, num_semesters = 0,
                            y_grade_id = res_grade_id\<rparr> dict
                   else dict)
      in AList.map_entry student_id
           (\<lambda>d. d\<lparr>total_marks_sum := total_marks_sum d + res_total_marks,
                   average_score_sum := average_score_sum d + res_average_score,
                   num_semesters := num_semesters d + 1\<rparr>) dict')"

text \<open>Lines 277-283: the final total and average of one entry.\<close>

definition finalize_yearly :: "yearly_sums \<Rightarrow> yearly_data" where
  "finalize_yearly d =
     \<lparr>total_marks_sum = total_marks_sum d, average_score_sum = average_score_sum d,
      num_semesters = num_semesters d, y_grade_id = y_grade_id d,
      y_total_marks = total_marks_sum d,
      y_average_score =
        (if num_semesters d > 0 then average_score_sum d / real (num_semesters d) else 0),
      y_grade_rank = None\<rparr>"

definition student_yearly_data :: "database \<Rightarrow> nat \<Rightarrow> (nat \<times> yearly_data) list" where
  "student_yearly_data db academic_year_id =
     map (\<lambda>kv. (fst kv, finalize_yearly (snd kv)))
       (fold aggregate_semester_result (semester_results_data db academic_year_id) [])"

text \<open>Line 287.\<close>

definition yearly_grades_in_year :: "(nat \<times> yearly_data) list \<Rightarrow> nat list" where
  "yearly_grades_in_year dict = sort (remdups [y_grade_id (snd kv). kv \<leftarrow> dict])"

text \<open>Lines 289-305, one pass of the loop over the grades.\<close>

definition yearly_rank_grade ::
  "nat \<Rightarrow> (nat \<times> yearly_data) list \<Rightarrow> (nat \<times> yearly_data) list" where
  "yearly_rank_grade g dict =
     (let students_in_grade =
            [(fst kv, y_average_score (snd kv)). kv \<leftarrow> dict, y_grade_id (snd kv) = g]
      in fold (\<lambda>sr d. AList.map_entry (fst sr) (\<lambda>data. data\<lparr>y_grade_rank := Some (snd sr)\<rparr>) d)
           (rank_students students_in_grade) dict)"

definition ranked_yearly_data :: "database \<Rightarrow> nat \<Rightarrow> (nat \<times> yearly_data) list" where
  "ranked_yearly_data db academic_year_id =
     (let dict = student_yearly_data db academic_year_id
      in fold yearly_rank_grade (yearly_grades_in_year dict) dict)"

text \<open>Lines 308-315.\<close>

fun store_yearly_results ::
  "(nat \<times> yearly_data) list \<Rightarrow> nat \<Rightarrow> database \<Rightarrow> py_error + database" where
  "store_yearly_results [] academic_year_id db = Inr db"
| "store_yearly_results ((student_id, data) # rest) academic_year_id db =
     (case y_grade_rank data of
        None \<Rightarrow> Inl KeyError
      | Some r \<Rightarrow>
          store_yearly_results rest academic_year_id
            (add_yearly_result db student_id academic_year_id
               (y_total_marks data) (y_average_score data) r))"

definition compute_and_store_yearly_results :: "database \<Rightarrow> nat \<Rightarrow> py_error + database" where
  "compute_and_store_yearly_results db academic_year_id =
     (if semester_results_data db academic_year_id = [] then Inr db
      else store_yearly_results (ranked_yearly_data db academic_year_id) academic_year_id db)"

text \<open>The entries that a yearly run stores, in order.\<close>

definition yearly_rows_written :: "database \<Rightarrow> nat \<Rightarrow> (nat \<times> yearly_data) list" where
  "yearly_rows_written db academic_year_id =
     (if semester_results_data db academic_year_id = [] then []
      else ranked_yearly_data db academic_year_id)"

section \<open>Notions used to state the properties\<close>

text \<open>
  The key of a result row under the UNIQUE constraint of its table, and the three
  computed columns of a semester result.
\<close>

definition sr_key :: "semester_result \<Rightarrow> nat \<times> nat \<times> nat" where
  "sr_key r = (sr_student_id r, sr_semester_id r, sr_academic_year_id r)"

definition yr_key :: "yearly_result \<Rightarrow> nat \<times> nat" where
  "yr_key r = (yr_student_id r, yr_academic_year_id r)"

definition sr_vals :: "semester_result \<Rightarrow> real \<times> real \<times> nat" where
  "sr_vals r = (sr_total_marks r, sr_average_score r, sr_grade_rank r)"

definition yr_vals :: "yearly_result \<Rightarrow> real \<times> real \<times> nat" where
  "yr_vals r = (yr_total_marks r, yr_average_score r, yr_grade_rank r)"

definition data_vals :: "semester_data \<Rightarrow> real \<times> real \<times> nat" where
  "data_vals d = (total_marks d, average_score d, the (grade_rank d))"

definition y_data_vals :: "yearly_data \<Rightarrow> real \<times> real \<times> nat" where
  "y_data_vals d = (y_total_marks d, y_average_score d, the (y_grade_rank d))"

text \<open>
  The PRIMARY KEY and UNIQUE constraints of the two result tables: no two rows
  share an id, no two rows share a key.
\<close>

definition store_ok :: "database \<Rightarrow> bool" where
  "store_ok db \<longleftrightarrow>
     distinct (map sr_id (SemesterResults db)) \<and> distinct (map sr_key (SemesterResults db))
     \<and> distinct (map yr_id (YearlyResults db)) \<and> distinct (map yr_key (YearlyResults db))"

text \<open>A call that writes to the result store, and a sequence of such calls.\<close>

datatype store_call =
    AddSemesterResult nat nat nat real real nat
  | AddYearlyResult nat nat real real nat
  | ComputeSemesterResults nat nat
  | ComputeYearlyResults nat

fun run_call :: "store_call \<Rightarrow> database \<Rightarrow> py_error + database" where
  "run_call (AddSemesterResult s m a t v g) db = Inr (add_semester_result db s m a t v g)"
| "run_call (AddYearlyResult s a t v g) db = Inr (add_yearly_result db s a t v g)"
| "run_call (ComputeSemesterResults a m) db = compute_and_store_semester_results db a m"
| "run_call (ComputeYearlyResults a) db = compute_and_store_yearly_results db a"

fun run_calls :: "store_call list \<Rightarrow> database \<Rightarrow> py_error + database" where
  "run_calls [] db = Inr db"
| "run_calls (c # cs) db = (case run_call c db of Inl e \<Rightarrow> Inl e | Inr db' \<Rightarrow> run_calls cs db')"

text \<open>
  Competition ranking in closed form: one more than the number of cohort members
  with a strictly greater score.
\<close>

definition competition_rank :: "(nat \<times> real) list \<Rightarrow> real \<Rightarrow> nat" where
  "competition_rank cohort a = Suc (length (filter (\<lambda>y. snd y > a) cohort))"

text \<open>
  The common shape of the two ranking passes, over any dictionary value with a
  grade, an average and a way to set the rank; \<open>cohort_by\<close> is the list
  \<^verbatim>\<open>students_in_grade\<close>.
\<close>

definition cohort_by ::
  "('d \<Rightarrow> nat) \<Rightarrow> ('d \<Rightarrow> real) \<Rightarrow> (nat \<times> 'd) list \<Rightarrow> nat \<Rightarrow> (nat \<times> real) list" where
  "cohort_by grade avg dict g = [(fst kv, avg (snd kv)). kv \<leftarrow> dict, grade (snd kv) = g]"

definition rank_grade_by ::
  "('d \<Rightarrow> nat) \<Rightarrow> ('d \<Rightarrow> real) \<Rightarrow> (nat \<Rightarrow> 'd \<Rightarrow> 'd) \<Rightarrow> nat \<Rightarrow> (nat \<times> 'd) list
     \<Rightarrow> (nat \<times> 'd) list" where
  "rank_grade_by grade avg set_rank g dict =
     fold (\<lambda>sr d. AList.map_entry (fst sr) (set_rank (snd sr)) d)
       (rank_students (cohort_by grade avg dict g)) dict"

definition with_rank ::
  "(nat \<times> semester_data) list \<Rightarrow> nat \<times> semester_data \<Rightarrow> nat \<times> semester_data" where
  "with_rank dict kv =
     (fst kv, (snd kv)\<lparr>grade_rank :=
        Some (competition_rank (cohort_by grade_id average_score dict (grade_id (snd kv)))
               (average_score (snd kv)))\<rparr>)"

definition y_with_rank ::
  "(nat \<times> yearly_data) list \<Rightarrow> nat \<times> yearly_data \<Rightarrow> nat \<times> yearly_data" where
  "y_with_rank dict kv =
     (fst kv, (snd kv)\<lparr>y_grade_rank :=
        Some (competition_rank (cohort_by y_grade_id y_average_score dict (y_grade_id (snd kv)))
               (y_average_score (snd kv)))\<rparr>)"

text \<open>
  The subject contribution in the words of the specification: the semester-exam
  marks (0 if absent) plus the mean of the CAT marks (0 if none), and the same
  for the maximum marks. A subject is counted when its possible total is positive.
\<close>

definition mean :: "real list \<Rightarrow> real" where
  "mean xs = (if xs = [] then 0 else sum_list xs / real (length xs))"

definition subject_achieved :: "database \<Rightarrow> nat \<Rightarrow> nat \<Rightarrow> nat \<Rightarrow> nat \<Rightarrow> real" where
  "subject_achieved db student_id subject_id academic_year_id semester_id =
     (case sem_exam_result db student_id subject_id academic_year_id semester_id of
        None \<Rightarrow> 0 | Some row \<Rightarrow> fst row)
     + mean (map fst (cat_results db student_id subject_id academic_year_id semester_id))"

definition subject_possible :: "database \<Rightarrow> nat \<Rightarrow> nat \<Rightarrow> nat \<Rightarrow> nat \<Rightarrow> real" where
  "subject_possible db student_id subject_id academic_year_id semester_id =
     (case sem_exam_result db student_id subject_id academic_year_id semester_id of
        None \<Rightarrow> 0 | Some row \<Rightarrow> snd row)
     + mean (map snd (cat_results db student_id subject_id academic_year_id semester_id))"

definition counted_subjects :: "database \<Rightarrow> nat \<Rightarrow> nat \<Rightarrow> nat \<Rightarrow> nat list" where
  "counted_subjects db student_id academic_year_id semester_id =
     [subject_id \<leftarrow> map fst (subjects_with_results db student_id academic_year_id semester_id).
        subject_possible db student_id subject_id academic_year_id semester_id > 0]"

text \<open>A result \<open>er\<close> of the student in an exam \<open>e\<close> of the scope.\<close>

definition in_scope :: "database \<Rightarrow> nat \<Rightarrow> nat \<Rightarrow> nat \<Rightarrow> exam_result \<Rightarrow> exam \<Rightarrow> bool" where
  "in_scope db sid ay sem er e \<longleftrightarrow>
     er \<in> set (ExamResults db) \<and> e \<in> set (Exams db) \<and> er_exam_id er = ex_id e
     \<and> er_student_id er = sid \<and> ex_academic_year_id e = ay \<and> ex_semester_id e = Some sem"

text \<open>
  A student whom a semester run skips: no score entry in the scope, or no
  counted subject.
\<close>

definition skipped :: "database \<Rightarrow> nat \<Rightarrow> nat \<Rightarrow> nat \<Rightarrow> bool" where
  "skipped db academic_year_id semester_id student_id =
     (student_exam_results db student_id academic_year_id semester_id = []
      \<or> counted_subjects db student_id academic_year_id semester_id = [])"

text \<open>
  The sums that the yearly aggregation holds for a student after the semester
  results \<open>rs\<close> were added to the entry \<open>d\<close>, and the entry it starts from.
\<close>

definition add_sums :: "yearly_sums \<Rightarrow> (nat \<times> real \<times> real \<times> nat) list \<Rightarrow> yearly_sums" where
  "add_sums d rs =
     d\<lparr>total_marks_sum := total_marks_sum d + sum_list (map (\<lambda>r. fst (snd r)) rs),
       average_score_sum := average_score_sum d + sum_list (map (\<lambda>r. fst (snd (snd r))) rs),
       num_semesters := num_semesters d + length rs\<rparr>"

definition init_sums :: "nat \<Rightarrow> yearly_sums" where
  "init_sums g = \<lparr>total_marks_sum = 0, average_score_sum = 0, num_semesters = 0, y_grade_id = g\<rparr>"

text \<open>Two databases with the same five input tables.\<close>

definition same_inputs :: "database \<Rightarrow> database \<Rightarrow> bool" where
  "same_inputs db' db \<longleftrightarrow>
     Students db' = Students db \<and> Enrollments db' = Enrollments db \<and> Subjects db' = Subjects db
     \<and> Exams db' = Exams db \<and> ExamResults db' = ExamResults db"

text \<open>The semester results of one student in one academic year.\<close>

definition semester_results_of :: "database \<Rightarrow> nat \<Rightarrow> nat \<Rightarrow> semester_result list" where
  "semester_results_of db student_id academic_year_id =
     [sr \<leftarrow> SemesterResults db. sr_student_id sr = student_id
        \<and> sr_academic_year_id sr = academic_year_id]"




section \<open>Example databases\<close>

text \<open>
  One student with only Mathematics scores: Semester 1 Exam 70/100, CAT1 25/30,
  CAT2 28/30.
\<close>

definition math_db :: database where
  "math_db =
     \<lparr>Students = [\<lparr>st_id = 1, st_current_grade_id = 1\<rparr>],
      Enrollments = [\<lparr>en_student_id = 1, en_academic_year_id = 1\<rparr>],
      Subjects = [\<lparr>sub_id = 1, sub_name = ''Mathematics''\<rparr>],
      Exams = [\<lparr>ex_id = 1, ex_name = ''Semester 1 Exam'', ex_semester_id = Some 1,
                ex_academic_year_id = 1, ex_max_marks = 100\<rparr>,
               \<lparr>ex_id = 2, ex_name = ''CAT1'', ex_semester_id = Some 1,
                ex_academic_year_id = 1, ex_max_marks = 30\<rparr>,
               \<lparr>ex_id = 3, ex_name = ''CAT2'', ex_semester_id = Some 1,
                ex_academic_year_id = 1, ex_max_marks = 30\<rparr>],
      ExamResults = [\<lparr>er_student_id = 1, er_exam_id = 1, er_subject_id = 1, er_marks = 70\<rparr>,
                     \<lparr>er_student_id = 1, er_exam_id = 2, er_subject_id = 1, er_marks = 25\<rparr>,
                     \<lparr>er_student_id = 1, er_exam_id = 3, er_subject_id = 1, er_marks = 28\<rparr>],
      SemesterResults = [], SemesterResults_seq = 0,
      YearlyResults = [], YearlyResults_seq = 0\<rparr>"

text \<open>
  Three students of grade 1 with 90, 90 and 80 out of 100 in the semester exam,
  and a fourth, enrolled, with no score. The store holds a stale semester result
  of the fourth student and a result of another semester.
\<close>

definition class_db :: database where
  "class_db =
     \<lparr>Students = [\<lparr>st_id = 1, st_current_grade_id = 1\<rparr>, \<lparr>st_id = 2, st_current_grade_id = 1\<rparr>,
                  \<lparr>st_id = 3, st_current_grade_id = 1\<rparr>, \<lparr>st_id = 4, st_current_grade_id = 1\<rparr>],
      Enrollments = [\<lparr>en_student_id = 1, en_academic_year_id = 1\<rparr>,
                     \<lparr>en_student_id = 2, en_academic_year_id = 1\<rparr>,
                     \<lparr>en_student_id = 3, en_academic_year_id = 1\<rparr>,
                     \<lparr>en_student_id = 4, en_academic_year_id = 1\<rparr>],
      Subjects = [\<lparr>sub_id = 1, sub_name = ''Mathematics''\<rparr>],
      Exams = [\<lparr>ex_id = 1, ex_name = ''Semester 1 Exam'', ex_semester_id = Some 1,
                ex_academic_year_id = 1, ex_max_marks = 100\<rparr>],
      ExamResults = [\<lparr>er_student_id = 1, er_exam_id = 1, er_subject_id = 1, er_marks = 90\<rparr>,
                     \<lparr>er_student_id = 2, er_exam_id = 1, er_subject_id = 1, er_marks = 80\<rparr>,
                     \<lparr>er_student_id = 3, er_exam_id = 1, er_subject_id = 1, er_marks = 90\<rparr>],
      SemesterResults =
        [\<lparr>sr_id = 5, sr_student_id = 4, sr_semester_id = 1, sr_academic_year_id = 1,
          sr_total_marks = 55, sr_average_score = 55, sr_grade_rank = 2\<rparr>,
         \<lparr>sr_id = 6, sr_student_id = 1, sr_semester_id = 2, sr_academic_year_id = 1,
          sr_total_marks = 70, sr_average_score = 70, sr_grade_rank = 1\<rparr>],
      SemesterResults_seq = 6,
      YearlyResults = [], YearlyResults_seq = 0\<rparr>"


text \<open>
  The first example with a second subject, Science, in which the student's only
  score is in an exam named ``Quiz''.
\<close>

definition quiz_db :: database where
  "quiz_db =
     math_db\<lparr>Subjects := Subjects math_db @ [\<lparr>sub_id = 2, sub_name = ''Science''\<rparr>],
             Exams := Exams math_db @
               [\<lparr>ex_id = 4, ex_name = ''Quiz'', ex_semester_id = Some 1,
                 ex_academic_year_id = 1, ex_max_marks = 10\<rparr>],
             ExamResults := ExamResults math_db @
               [\<lparr>er_student_id = 1, er_exam_id = 4, er_subject_id = 2, er_marks = 8\<rparr>]\<rparr>"

text \<open>
  The class with semester results of two semesters for student 1, of one semester
  for student 2, and none for students 3 and 4.
\<close>

definition year_db :: database where
  "year_db =
     class_db\<lparr>SemesterResults :=
       [\<lparr>sr_id = 1, sr_student_id = 1, sr_semester_id = 1, sr_academic_year_id = 1,
         sr_total_marks = 96.5, sr_average_score = 74, sr_grade_rank = 1\<rparr>,
        \<lparr>sr_id = 2, sr_student_id = 2, sr_semester_id = 1, sr_academic_year_id = 1,
         sr_total_marks = 50, sr_average_score = 50, sr_grade_rank = 2\<rparr>,
        \<lparr>sr_id = 3, sr_student_id = 1, sr_semester_id = 2, sr_academic_year_id = 1,
         sr_total_marks = 80, sr_average_score = 80, sr_grade_rank = 1\<rparr>,
        \<lparr>sr_id = 4, sr_student_id = 1, sr_semester_id = 1, sr_academic_year_id = 2,
         sr_total_marks = 10, sr_average_score = 10, sr_grade_rank = 1\<rparr>]\<rparr>"

text \<open>
  One student with two semester-exam scores in Mathematics: 40/50 in the exam with
  id 2, entered first, and 70/100 in the exam with id 1, entered second.
\<close>

definition retake_db :: database where
  "retake_db =
     \<lparr>Students = [\<lparr>st_id = 1, st_current_grade_id = 1\<rparr>],
      Enrollments = [\<lparr>en_student_id = 1, en_academic_year_id = 1\<rparr>],
      Subjects = [\<lparr>sub_id = 1, sub_name = ''Mathematics''\<rparr>],
      Exams = [\<lparr>ex_id = 1, ex_name = ''Semester 1 Exam'', ex_semester_id = Some 1,
                ex_academic_year_id = 1, ex_max_marks = 100\<rparr>,
               \<lparr>ex_id = 2, ex_name = ''Semester 1 Exam Retake'', ex_semester_id = Some 1,
                ex_academic_year_id = 1, ex_max_marks = 50\<rparr>],
      ExamResults = [\<lparr>er_student_id = 1, er_exam_id = 2, er_subject_id = 1, er_marks = 40\<rparr>,
                     \<lparr>er_student_id = 1, er_exam_id = 1, er_subject_id = 1, er_marks = 70\<rparr>],
      SemesterResults = [], SemesterResults_seq = 0,
      YearlyResults = [], YearlyResults_seq = 0\<rparr>"


section \<open>Properties of the result store\<close>

subsection \<open>Semester results\<close>

lemma fold_max_ge: "(a::nat) \<le> fold max ids a \<and> (\<forall>i\<in>set ids. i \<le> fold max ids a)"
proof (induction ids arbitrary: a)
  case Nil
  show ?case by simp
next
  case (Cons x xs)
  have "max x a \<le> fold max xs (max x a)" using Cons.IH by blast
  moreover have "\<forall>i\<in>set xs. i \<le> fold max xs (max x a)" using Cons.IH by blast
  ultimately show ?case by auto
qed

lemma next_id_fresh: "next_id ids seq \<notin> set ids"
proof
  assume "next_id ids seq \<in> set ids"
  then have "next_id ids seq \<le> fold max ids 0" using fold_max_ge by blast
  then show False by (simp add: next_id_def)
qed

lemma get_semester_result_key:
  "get_semester_result_by_composite_keys db s m a = find (\<lambda>r. sr_key r = (s, m, a)) (SemesterResults db)"
  by (simp add: get_semester_result_by_composite_keys_def sr_key_def)

lemma find_None_key: "find (\<lambda>r. f r = k) xs = None \<longleftrightarrow> k \<notin> set (map f xs)"
  by (induction xs) auto

lemma find_Some_key: "find (\<lambda>r. f r = k) xs = Some e \<Longrightarrow> e \<in> set xs \<and> f e = k"
  by (induction xs) (auto split: if_splits)

lemma distinct_map_eq: "distinct (map f xs) \<Longrightarrow> x \<in> set xs \<Longrightarrow> y \<in> set xs \<Longrightarrow> f x = f y \<Longrightarrow> x = y"
  by (meson distinct_map inj_on_def)

lemma add_semester_result_insert:
  assumes "(s, m, a) \<notin> set (map sr_key (SemesterResults db))"
  shows "add_semester_result db s m a t v g =
           db\<lparr>SemesterResults := SemesterResults db @
                    [\<lparr>sr_id = next_id (map sr_id (SemesterResults db)) (SemesterResults_seq db),
                      sr_student_id = s, sr_semester_id = m,
                      sr_academic_year_id = a, sr_total_marks = t,
                      sr_average_score = v, sr_grade_rank = g\<rparr>],
                  SemesterResults_seq := next_id (map sr_id (SemesterResults db)) (SemesterResults_seq db)\<rparr>"
proof -
  have "get_semester_result_by_composite_keys db s m a = None"
    using assms by (simp add: get_semester_result_key find_None_key)
  then show ?thesis by (simp add: add_semester_result_def Let_def)
qed

lemma add_semester_result_update:
  assumes "distinct (map sr_id (SemesterResults db))"
      and "(s, m, a) \<in> set (map sr_key (SemesterResults db))"
  shows "add_semester_result db s m a t v g =
           db\<lparr>SemesterResults :=
                 map (\<lambda>r. if sr_key r = (s, m, a) \<and> r = the (get_semester_result_by_composite_keys db s m a)
                          then r\<lparr>sr_total_marks := t, sr_average_score := v, sr_grade_rank := g\<rparr>
                          else r) (SemesterResults db)\<rparr>"
proof -
  obtain e where e: "get_semester_result_by_composite_keys db s m a = Some e"
    using assms(2) find_None_key[of sr_key "(s, m, a)" "SemesterResults db"]
    by (cases "get_semester_result_by_composite_keys db s m a") (auto simp: get_semester_result_key)
  then have ein: "e \<in> set (SemesterResults db)" and ek: "sr_key e = (s, m, a)"
    using find_Some_key[of sr_key "(s, m, a)" "SemesterResults db" e]
    by (auto simp: get_semester_result_key)
  have "map (\<lambda>r. if sr_id r = sr_id e
                        then r\<lparr>sr_student_id := s, sr_semester_id := m,
                               sr_academic_year_id := a,
                               sr_total_marks := t,
                               sr_average_score := v,
                               sr_grade_rank := g\<rparr>
                        else r) (SemesterResults db)
      = map (\<lambda>r. if sr_key r = (s, m, a) \<and> r = e
                          then r\<lparr>sr_total_marks := t, sr_average_score := v, sr_grade_rank := g\<rparr>
                          else r) (SemesterResults db)"
  proof (rule map_cong[OF refl])
    fix r assume rin: "r \<in> set (SemesterResults db)"
    show "(if sr_id r = sr_id e
                        then r\<lparr>sr_student_id := s, sr_semester_id := m,
                               sr_academic_year_id := a,
                               sr_total_marks := t,
                               sr_average_score := v,
                               sr_grade_rank := g\<rparr>
                        else r) = (if sr_key r = (s, m, a) \<and> r = e
                          then r\<lparr>sr_total_marks := t, sr_average_score := v, sr_grade_rank := g\<rparr>
                          else r)"
    proof (cases "sr_id r = sr_id e")
      case True
      then have "r = e" using distinct_map_eq[OF assms(1) rin ein] by simp
      then show ?thesis using ek by (simp add: sr_key_def)
    next
      case False
      then show ?thesis by auto
    qed
  qed
  then show ?thesis using e by (simp add: add_semester_result_def)
qed

lemma add_semester_result_other_tables:
  "Students (add_semester_result db s m a t v g) = Students db"
  "Enrollments (add_semester_result db s m a t v g) = Enrollments db"
  "Subjects (add_semester_result db s m a t v g) = Subjects db"
  "Exams (add_semester_result db s m a t v g) = Exams db"
  "ExamResults (add_semester_result db s m a t v g) = ExamResults db"
  "YearlyResults (add_semester_result db s m a t v g) = YearlyResults db"
  "YearlyResults_seq (add_semester_result db s m a t v g) = YearlyResults_seq db"
  by (simp_all add: add_semester_result_def Let_def split: option.splits)

lemma add_semester_result_update_maps:
  assumes "distinct (map sr_id (SemesterResults db))"
      and "(s, m, a) \<in> set (map sr_key (SemesterResults db))"
  shows "map sr_id (SemesterResults (add_semester_result db s m a t v g)) = map sr_id (SemesterResults db)"
    and "map sr_key (SemesterResults (add_semester_result db s m a t v g)) = map sr_key (SemesterResults db)"
    and "SemesterResults_seq (add_semester_result db s m a t v g) = SemesterResults_seq db"
  unfolding add_semester_result_update[OF assms] by (auto simp: o_def sr_key_def)

lemma add_semester_result_ids:
  assumes "distinct (map sr_id (SemesterResults db))"
  shows "distinct (map sr_id (SemesterResults (add_semester_result db s m a t v g)))"
proof (cases "(s, m, a) \<in> set (map sr_key (SemesterResults db))")
  case True
  show ?thesis using assms by (simp only: add_semester_result_update_maps(1)[OF assms True])
next
  case False
  show ?thesis using assms next_id_fresh[of "map sr_id (SemesterResults db)" "SemesterResults_seq db"]
    by (simp add: add_semester_result_insert[OF False])
qed

lemma add_semester_result_keys:
  assumes "distinct (map sr_id (SemesterResults db))"
      and "distinct (map sr_key (SemesterResults db))"
  shows "distinct (map sr_key (SemesterResults (add_semester_result db s m a t v g)))"
proof (cases "(s, m, a) \<in> set (map sr_key (SemesterResults db))")
  case True
  show ?thesis using assms(2) by (simp only: add_semester_result_update_maps(2)[OF assms(1) True])
next
  case False
  show ?thesis using assms False
    by (simp add: add_semester_result_insert[OF False] sr_key_def)
qed

lemma add_semester_result_frame:
  assumes "distinct (map sr_id (SemesterResults db))"
  shows "filter (\<lambda>r. sr_key r \<noteq> (s, m, a)) (SemesterResults (add_semester_result db s m a t v g))
       = filter (\<lambda>r. sr_key r \<noteq> (s, m, a)) (SemesterResults db)"
proof (cases "(s, m, a) \<in> set (map sr_key (SemesterResults db))")
  case True
  have "filter (\<lambda>r. sr_key r \<noteq> (s, m, a)) (map (\<lambda>r. if sr_key r = (s, m, a) \<and> r = e
                          then r\<lparr>sr_total_marks := t, sr_average_score := v, sr_grade_rank := g\<rparr>
                          else r) xs) = filter (\<lambda>r. sr_key r \<noteq> (s, m, a)) xs" for e xs
    by (induction xs) (auto simp: sr_key_def)
  then show ?thesis by (simp add: add_semester_result_update[OF assms True])
next
  case False
  show ?thesis by (simp add: add_semester_result_insert[OF False] sr_key_def)
qed

lemma find_append_None: "find P xs = None \<Longrightarrow> find P (xs @ ys) = find P ys"
  by (induction xs) (auto split: if_splits)

lemma find_filter_key:
  "k' \<noteq> k \<Longrightarrow> find (\<lambda>r. f r = k') xs = find (\<lambda>r. f r = k') (filter (\<lambda>r. f r \<noteq> k) xs)"
  by (induction xs) auto

lemma add_semester_result_get_other:
  assumes "distinct (map sr_id (SemesterResults db))" and "(s', m', a') \<noteq> (s, m, a)"
  shows "get_semester_result_by_composite_keys (add_semester_result db s m a t v g) s' m' a'
       = get_semester_result_by_composite_keys db s' m' a'"
  unfolding get_semester_result_key
  using find_filter_key[OF assms(2), of sr_key] add_semester_result_frame[OF assms(1)]
  by metis

lemma add_semester_result_get_same:
  "\<exists>r. get_semester_result_by_composite_keys (add_semester_result db s m a t v g) s m a = Some r
       \<and> sr_vals r = (t, v, g)"
proof (cases "get_semester_result_by_composite_keys db s m a")
  case None
  then have "find (\<lambda>r. sr_key r = (s, m, a)) (SemesterResults db) = None"
    by (simp add: get_semester_result_key)
  then have "find (\<lambda>r. sr_key r = (s, m, a)) (SemesterResults db @ [x]) = (if sr_key x = (s, m, a) then Some x else None)" for x
    by (simp add: find_append_None)
  then show ?thesis using None
    by (simp add: add_semester_result_def Let_def get_semester_result_key sr_vals_def sr_key_def)
next
  case (Some e)
  have "\<exists>r. find (\<lambda>r. sr_key r = (s, m, a)) (map (\<lambda>r. if sr_id r = sr_id e
                        then r\<lparr>sr_student_id := s, sr_semester_id := m,
                               sr_academic_year_id := a,
                               sr_total_marks := t,
                               sr_average_score := v,
                               sr_grade_rank := g\<rparr>
                        else r) xs) = Some r \<and> sr_vals r = (t, v, g)"
    if "find (\<lambda>r. sr_key r = (s, m, a)) xs = Some e" for xs
    using that by (induction xs) (auto simp: sr_key_def sr_vals_def split: if_splits)
  then show ?thesis using Some
    by (simp add: add_semester_result_def get_semester_result_key)
qed

lemma add_semester_result_idem:
  assumes "distinct (map sr_id (SemesterResults db))"
      and "get_semester_result_by_composite_keys db s m a = Some r"
      and "sr_vals r = (t, v, g)"
  shows "add_semester_result db s m a t v g = db"
proof -
  have rin: "r \<in> set (SemesterResults db)" and rk: "sr_key r = (s, m, a)"
    using find_Some_key[of sr_key "(s, m, a)" "SemesterResults db" r] assms(2)
    by (auto simp: get_semester_result_key)
  then have kin: "(s, m, a) \<in> set (map sr_key (SemesterResults db))" by force
  have "map (\<lambda>x. if sr_key x = (s, m, a) \<and> x = r
                          then x\<lparr>sr_total_marks := t, sr_average_score := v, sr_grade_rank := g\<rparr>
                          else x) xs = xs" for xs
    using assms(3) by (induction xs) (auto simp: sr_vals_def)
  then show ?thesis using assms(2) by (simp add: add_semester_result_update[OF assms(1) kin])
qed

lemma store_semester_results_Cons:
  "grade_rank data = Some r \<Longrightarrow>
   store_semester_results ((sid, data) # rest) ay sem db =
     store_semester_results rest ay sem
       (add_semester_result db sid sem ay (total_marks data) (average_score data) r)"
  by simp

lemma store_semester_results_returns:
  "\<forall>kv\<in>set D. grade_rank (snd kv) \<noteq> None \<Longrightarrow> \<exists>db'. store_semester_results D ay sem db = Inr db'"
  by (induction D ay sem db rule: store_semester_results.induct) auto

lemma store_semester_results_ranked:
  "store_semester_results D ay sem db = Inr db' \<Longrightarrow> \<forall>kv\<in>set D. grade_rank (snd kv) \<noteq> None"
  by (induction D ay sem db rule: store_semester_results.induct) (auto split: option.splits)

lemma store_semester_results_other_tables:
  "store_semester_results D ay sem db = Inr db' \<Longrightarrow>
     Students db' = Students db \<and> Enrollments db' = Enrollments db \<and> Subjects db' = Subjects db
     \<and> Exams db' = Exams db \<and> ExamResults db' = ExamResults db
     \<and> YearlyResults db' = YearlyResults db \<and> YearlyResults_seq db' = YearlyResults_seq db"
  by (induction D ay sem db rule: store_semester_results.induct)
     (auto split: option.splits simp: add_semester_result_other_tables)

lemma store_semester_results_ids:
  "store_semester_results D ay sem db = Inr db' \<Longrightarrow> distinct (map sr_id (SemesterResults db))
     \<Longrightarrow> distinct (map sr_id (SemesterResults db'))"
  by (induction D ay sem db rule: store_semester_results.induct)
     (auto split: option.splits simp: add_semester_result_ids)

lemma store_semester_results_keys:
  "store_semester_results D ay sem db = Inr db' \<Longrightarrow> distinct (map sr_id (SemesterResults db))
     \<Longrightarrow> distinct (map sr_key (SemesterResults db))
     \<Longrightarrow> distinct (map sr_key (SemesterResults db'))"
  by (induction D ay sem db rule: store_semester_results.induct)
     (auto split: option.splits simp: add_semester_result_ids add_semester_result_keys)

lemma store_semester_results_get_other:
  "store_semester_results D ay sem db = Inr db' \<Longrightarrow> distinct (map sr_id (SemesterResults db))
     \<Longrightarrow> (s', m', a') \<notin> (\<lambda>kv. (fst kv, sem, ay)) ` set D
     \<Longrightarrow> get_semester_result_by_composite_keys db' s' m' a'
         = get_semester_result_by_composite_keys db s' m' a'"
proof (induction D ay sem db rule: store_semester_results.induct)
  case (1 ay sem db)
  then show ?case by simp
next
  case (2 sid data rest ay sem db)
  from "2.prems"(1) obtain r where r: "grade_rank data = Some r"
    by (auto split: option.splits)
  let ?db1 = "add_semester_result db sid sem ay (total_marks data) (average_score data) r"
  have st: "store_semester_results rest ay sem ?db1 = Inr db'" using "2.prems"(1) r by simp
  have d1: "distinct (map sr_id (SemesterResults ?db1))"
    using "2.prems"(2) by (rule add_semester_result_ids)
  have ne: "(s', m', a') \<noteq> (sid, sem, ay)" using "2.prems"(3) by auto
  have "get_semester_result_by_composite_keys db' s' m' a'
      = get_semester_result_by_composite_keys ?db1 s' m' a'"
    using "2.IH"[OF r st d1] "2.prems"(3) by auto
  also have "\<dots> = get_semester_result_by_composite_keys db s' m' a'"
    using add_semester_result_get_other[OF "2.prems"(2) ne] by simp
  finally show ?case .
qed

lemma store_semester_results_get:
  "store_semester_results D ay sem db = Inr db' \<Longrightarrow> distinct (map sr_id (SemesterResults db))
     \<Longrightarrow> distinct (map fst D) \<Longrightarrow> (sid, data) \<in> set D
     \<Longrightarrow> \<exists>r. get_semester_result_by_composite_keys db' sid sem ay = Some r
             \<and> sr_vals r = data_vals data"
proof (induction D ay sem db rule: store_semester_results.induct)
  case (1 ay sem db)
  then show ?case by simp
next
  case (2 sid0 data0 rest ay sem db)
  from "2.prems"(1) obtain r where r: "grade_rank data0 = Some r"
    by (auto split: option.splits)
  let ?db1 = "add_semester_result db sid0 sem ay (total_marks data0) (average_score data0) r"
  have st: "store_semester_results rest ay sem ?db1 = Inr db'" using "2.prems"(1) r by simp
  have d1: "distinct (map sr_id (SemesterResults ?db1))"
    using "2.prems"(2) by (rule add_semester_result_ids)
  show ?case
  proof (cases "(sid, data) \<in> set rest")
    case True
    then show ?thesis using "2.IH"[OF r st d1] "2.prems"(3) by simp
  next
    case False
    then have eq: "sid = sid0" "data = data0" using "2.prems"(4) by auto
    have "(sid0, sem, ay) \<notin> (\<lambda>kv. (fst kv, sem, ay)) ` set rest"
      using "2.prems"(3) by force
    then have "get_semester_result_by_composite_keys db' sid0 sem ay
        = get_semester_result_by_composite_keys ?db1 sid0 sem ay"
      using store_semester_results_get_other[OF st d1] by blast
    then show ?thesis
      using add_semester_result_get_same[of db sid0 sem ay "total_marks data0" "average_score data0" r]
        eq r by (simp add: data_vals_def)
  qed
qed

lemma filter_key_insert:
  "filter (\<lambda>r. f r \<notin> insert k K) xs = filter (\<lambda>r. f r \<notin> K) (filter (\<lambda>r. f r \<noteq> k) xs)"
  by (induction xs) auto

lemma store_semester_results_frame:
  "store_semester_results D ay sem db = Inr db' \<Longrightarrow> distinct (map sr_id (SemesterResults db))
     \<Longrightarrow> filter (\<lambda>r. sr_key r \<notin> (\<lambda>kv. (fst kv, sem, ay)) ` set D) (SemesterResults db')
       = filter (\<lambda>r. sr_key r \<notin> (\<lambda>kv. (fst kv, sem, ay)) ` set D) (SemesterResults db)"
proof (induction D ay sem db rule: store_semester_results.induct)
  case (1 ay sem db)
  then show ?case by simp
next
  case (2 sid data rest ay sem db)
  from "2.prems"(1) obtain r where r: "grade_rank data = Some r"
    by (auto split: option.splits)
  let ?db1 = "add_semester_result db sid sem ay (total_marks data) (average_score data) r"
  let ?K = "(\<lambda>kv. (fst kv, sem, ay)) ` set rest"
  have st: "store_semester_results rest ay sem ?db1 = Inr db'" using "2.prems"(1) r by simp
  have d1: "distinct (map sr_id (SemesterResults ?db1))"
    using "2.prems"(2) by (rule add_semester_result_ids)
  have ih: "filter (\<lambda>r. sr_key r \<notin> ?K) (SemesterResults db')
          = filter (\<lambda>r. sr_key r \<notin> ?K) (SemesterResults ?db1)"
    using "2.IH"[OF r st d1] .
  have fr: "filter (\<lambda>r. sr_key r \<noteq> (sid, sem, ay)) (SemesterResults ?db1)
          = filter (\<lambda>r. sr_key r \<noteq> (sid, sem, ay)) (SemesterResults db)"
    using add_semester_result_frame[OF "2.prems"(2)] .
  have img: "(\<lambda>kv. (fst kv, sem, ay)) ` set ((sid, data) # rest) = insert (sid, sem, ay) ?K"
    by simp
  have "filter (\<lambda>r. sr_key r \<notin> insert (sid, sem, ay) ?K) (SemesterResults db')
      = filter (\<lambda>r. sr_key r \<noteq> (sid, sem, ay)) (filter (\<lambda>r. sr_key r \<notin> ?K) (SemesterResults db'))"
    by (simp add: conj_commute)
  also have "\<dots> = filter (\<lambda>r. sr_key r \<noteq> (sid, sem, ay)) (filter (\<lambda>r. sr_key r \<notin> ?K) (SemesterResults ?db1))"
    by (simp only: ih)
  also have "\<dots> = filter (\<lambda>r. sr_key r \<notin> ?K) (filter (\<lambda>r. sr_key r \<noteq> (sid, sem, ay)) (SemesterResults ?db1))"
    by (simp add: conj_commute)
  also have "\<dots> = filter (\<lambda>r. sr_key r \<notin> ?K) (filter (\<lambda>r. sr_key r \<noteq> (sid, sem, ay)) (SemesterResults db))"
    by (simp only: fr)
  also have "\<dots> = filter (\<lambda>r. sr_key r \<notin> insert (sid, sem, ay) ?K) (SemesterResults db)"
    by (simp add: conj_commute)
  finally show ?case by (simp only: img)
qed

lemma store_semester_results_idem:
  "distinct (map sr_id (SemesterResults db)) \<Longrightarrow>
   \<forall>kv\<in>set D. grade_rank (snd kv) \<noteq> None \<and>
      (\<exists>r. get_semester_result_by_composite_keys db (fst kv) sem ay = Some r
           \<and> sr_vals r = data_vals (snd kv)) \<Longrightarrow>
   store_semester_results D ay sem db = Inr db"
proof (induction D)
  case Nil
  show ?case by simp
next
  case (Cons kv D)
  obtain sid data where kv: "kv = (sid, data)" by (cases kv)
  from Cons.prems(2) kv obtain r row where r: "grade_rank data = Some r"
    and row: "get_semester_result_by_composite_keys db sid sem ay = Some row"
             "sr_vals row = data_vals data"
    by auto
  have "add_semester_result db sid sem ay (total_marks data) (average_score data) r = db"
    using add_semester_result_idem[OF Cons.prems(1) row(1)] row(2) r by (simp add: data_vals_def)
  then show ?case using Cons kv r by simp
qed

subsection \<open>Yearly results\<close>

lemma get_yearly_result_key:
  "get_yearly_result_by_composite_keys db s a = find (\<lambda>r. yr_key r = (s, a)) (YearlyResults db)"
  by (simp add: get_yearly_result_by_composite_keys_def yr_key_def)

lemma add_yearly_result_insert:
  assumes "(s, a) \<notin> set (map yr_key (YearlyResults db))"
  shows "add_yearly_result db s a t v g =
           db\<lparr>YearlyResults := YearlyResults db @
                    [\<lparr>yr_id = next_id (map yr_id (YearlyResults db)) (YearlyResults_seq db),
                      yr_student_id = s, 
                      yr_academic_year_id = a, yr_total_marks = t,
                      yr_average_score = v, yr_grade_rank = g\<rparr>],
                  YearlyResults_seq := next_id (map yr_id (YearlyResults db)) (YearlyResults_seq db)\<rparr>"
proof -
  have "get_yearly_result_by_composite_keys db s a = None"
    using assms by (simp add: get_yearly_result_key find_None_key)
  then show ?thesis by (simp add: add_yearly_result_def Let_def)
qed

lemma add_yearly_result_update:
  assumes "distinct (map yr_id (YearlyResults db))"
      and "(s, a) \<in> set (map yr_key (YearlyResults db))"
  shows "add_yearly_result db s a t v g =
           db\<lparr>YearlyResults :=
                 map (\<lambda>r. if yr_key r = (s, a) \<and> r = the (get_yearly_result_by_composite_keys db s a)
                          then r\<lparr>yr_total_marks := t, yr_average_score := v, yr_grade_rank := g\<rparr>
                          else r) (YearlyResults db)\<rparr>"
proof -
  obtain e where e: "get_yearly_result_by_composite_keys db s a = Some e"
    using assms(2) find_None_key[of yr_key "(s, a)" "YearlyResults db"]
    by (cases "get_yearly_result_by_composite_keys db s a") (auto simp: get_yearly_result_key)
  then have ein: "e \<in> set (YearlyResults db)" and ek: "yr_key e = (s, a)"
    using find_Some_key[of yr_key "(s, a)" "YearlyResults db" e]
    by (auto simp: get_yearly_result_key)
  have "map (\<lambda>r. if yr_id r = yr_id e
                        then r\<lparr>yr_student_id := s, 
                               yr_academic_year_id := a,
                               yr_total_marks := t,
                               yr_average_score := v,
                               yr_grade_rank := g\<rparr>
                        else r) (YearlyResults db)
      = map (\<lambda>r. if yr_key r = (s, a) \<and> r = e
                          then r\<lparr>yr_total_marks := t, yr_average_score := v, yr_grade_rank := g\<rparr>
                          else r) (YearlyResults db)"
  proof (rule map_cong[OF refl])
    fix r assume rin: "r \<in> set (YearlyResults db)"
    show "(if yr_id r = yr_id e
                        then r\<lparr>yr_student_id := s, 
                               yr_academic_year_id := a,
                               yr_total_marks := t,
                               yr_average_score := v,
                               yr_grade_rank := g\<rparr>
                        else r) = (if yr_key r = (s, a) \<and> r = e
                          then r\<lparr>yr_total_marks := t, yr_average_score := v, yr_grade_rank := g\<rparr>
                          else r)"
    proof (cases "yr_id r = yr_id e")
      case True
      then have "r = e" using distinct_map_eq[OF assms(1) rin ein] by simp
      then show ?thesis using ek by (simp add: yr_key_def)
    next
      case False
      then show ?thesis by auto
    qed
  qed
  then show ?thesis using e by (simp add: add_yearly_result_def)
qed

lemma add_yearly_result_other_tables:
  "Students (add_yearly_result db s a t v g) = Students db"
  "Enrollments (add_yearly_result db s a t v g) = Enrollments db"
  "Subjects (add_yearly_result db s a t v g) = Subjects db"
  "Exams (add_yearly_result db s a t v g) = Exams db"
  "ExamResults (add_yearly_result db s a t v g) = ExamResults db"
  "SemesterResults (add_yearly_result db s a t v g) = SemesterResults db"
  "SemesterResults_seq (add_yearly_result db s a t v g) = SemesterResults_seq db"
  by (simp_all add: add_yearly_result_def Let_def split: option.splits)

lemma add_yearly_result_update_maps:
  assumes "distinct (map yr_id (YearlyResults db))"
      and "(s, a) \<in> set (map yr_key (YearlyResults db))"
  shows "map yr_id (YearlyResults (add_yearly_result db s a t v g)) = map yr_id (YearlyResults db)"
    and "map yr_key (YearlyResults (add_yearly_result db s a t v g)) = map yr_key (YearlyResults db)"
    and "YearlyResults_seq (add_yearly_result db s a t v g) = YearlyResults_seq db"
  unfolding add_yearly_result_update[OF assms] by (auto simp: o_def yr_key_def)

lemma add_yearly_result_ids:
  assumes "distinct (map yr_id (YearlyResults db))"
  shows "distinct (map yr_id (YearlyResults (add_yearly_result db s a t v g)))"
proof (cases "(s, a) \<in> set (map yr_key (YearlyResults db))")
  case True
  show ?thesis using assms by (simp only: add_yearly_result_update_maps(1)[OF assms True])
next
  case False
  show ?thesis using assms next_id_fresh[of "map yr_id (YearlyResults db)" "YearlyResults_seq db"]
    by (simp add: add_yearly_result_insert[OF False])
qed

lemma add_yearly_result_keys:
  assumes "distinct (map yr_id (YearlyResults db))"
      and "distinct (map yr_key (YearlyResults db))"
  shows "distinct (map yr_key (YearlyResults (add_yearly_result db s a t v g)))"
proof (cases "(s, a) \<in> set (map yr_key (YearlyResults db))")
  case True
  show ?thesis using assms(2) by (simp only: add_yearly_result_update_maps(2)[OF assms(1) True])
next
  case False
  show ?thesis using assms False
    by (simp add: add_yearly_result_insert[OF False] yr_key_def)
qed

lemma add_yearly_result_frame:
  assumes "distinct (map yr_id (YearlyResults db))"
  shows "filter (\<lambda>r. yr_key r \<noteq> (s, a)) (YearlyResults (add_yearly_result db s a t v g))
       = filter (\<lambda>r. yr_key r \<noteq> (s, a)) (YearlyResults db)"
proof (cases "(s, a) \<in> set (map yr_key (YearlyResults db))")
  case True
  have "filter (\<lambda>r. yr_key r \<noteq> (s, a)) (map (\<lambda>r. if yr_key r = (s, a) \<and> r = e
                          then r\<lparr>yr_total_marks := t, yr_average_score := v, yr_grade_rank := g\<rparr>
                          else r) xs) = filter (\<lambda>r. yr_key r \<noteq> (s, a)) xs" for e xs
    by (induction xs) (auto simp: yr_key_def)
  then show ?thesis by (simp add: add_yearly_result_update[OF assms True])
next
  case False
  show ?thesis by (simp add: add_yearly_result_insert[OF False] yr_key_def)
qed

lemma add_yearly_result_get_other:
  assumes "distinct (map yr_id (YearlyResults db))" and "(s', a') \<noteq> (s, a)"
  shows "get_yearly_result_by_composite_keys (add_yearly_result db s a t v g) s' a'
       = get_yearly_result_by_composite_keys db s' a'"
  unfolding get_yearly_result_key
  using find_filter_key[OF assms(2), of yr_key] add_yearly_result_frame[OF assms(1)]
  by metis

lemma add_yearly_result_get_same:
  "\<exists>r. get_yearly_result_by_composite_keys (add_yearly_result db s a t v g) s a = Some r
       \<and> yr_vals r = (t, v, g)"
proof (cases "get_yearly_result_by_composite_keys db s a")
  case None
  then have "find (\<lambda>r. yr_key r = (s, a)) (YearlyResults db) = None"
    by (simp add: get_yearly_result_key)
  then have "find (\<lambda>r. yr_key r = (s, a)) (YearlyResults db @ [x]) = (if yr_key x = (s, a) then Some x else None)" for x
    by (simp add: find_append_None)
  then show ?thesis using None
    by (simp add: add_yearly_result_def Let_def get_yearly_result_key yr_vals_def yr_key_def)
next
  case (Some e)
  have "\<exists>r. find (\<lambda>r. yr_key r = (s, a)) (map (\<lambda>r. if yr_id r = yr_id e
                        then r\<lparr>yr_student_id := s, 
                               yr_academic_year_id := a,
                               yr_total_marks := t,
                               yr_average_score := v,
                               yr_grade_rank := g\<rparr>
                        else r) xs) = Some r \<and> yr_vals r = (t, v, g)"
    if "find (\<lambda>r. yr_key r = (s, a)) xs = Some e" for xs
    using that by (induction xs) (auto simp: yr_key_def yr_vals_def split: if_splits)
  then show ?thesis using Some
    by (simp add: add_yearly_result_def get_yearly_result_key)
qed

lemma add_yearly_result_idem:
  assumes "distinct (map yr_id (YearlyResults db))"
      and "get_yearly_result_by_composite_keys db s a = Some r"
      and "yr_vals r = (t, v, g)"
  shows "add_yearly_result db s a t v g = db"
proof -
  have rin: "r \<in> set (YearlyResults db)" and rk: "yr_key r = (s, a)"
    using find_Some_key[of yr_key "(s, a)" "YearlyResults db" r] assms(2)
    by (auto simp: get_yearly_result_key)
  then have kin: "(s, a) \<in> set (map yr_key (YearlyResults db))" by force
  have "map (\<lambda>x. if yr_key x = (s, a) \<and> x = r
                          then x\<lparr>yr_total_marks := t, yr_average_score := v, yr_grade_rank := g\<rparr>
                          else x) xs = xs" for xs
    using assms(3) by (induction xs) (auto simp: yr_vals_def)
  then show ?thesis using assms(2) by (simp add: add_yearly_result_update[OF assms(1) kin])
qed

lemma store_yearly_results_Cons:
  "y_grade_rank data = Some r \<Longrightarrow>
   store_yearly_results ((sid, data) # rest) ay db =
     store_yearly_results rest ay
       (add_yearly_result db sid ay (y_total_marks data) (y_average_score data) r)"
  by simp

lemma store_yearly_results_returns:
  "\<forall>kv\<in>set D. y_grade_rank (snd kv) \<noteq> None \<Longrightarrow> \<exists>db'. store_yearly_results D ay db = Inr db'"
  by (induction D ay db rule: store_yearly_results.induct) auto

lemma store_yearly_results_ranked:
  "store_yearly_results D ay db = Inr db' \<Longrightarrow> \<forall>kv\<in>set D. y_grade_rank (snd kv) \<noteq> None"
  by (induction D ay db rule: store_yearly_results.induct) (auto split: option.splits)

lemma store_yearly_results_other_tables:
  "store_yearly_results D ay db = Inr db' \<Longrightarrow>
     Students db' = Students db \<and> Enrollments db' = Enrollments db \<and> Subjects db' = Subjects db
     \<and> Exams db' = Exams db \<and> ExamResults db' = ExamResults db
     \<and> SemesterResults db' = SemesterResults db \<and> SemesterResults_seq db' = SemesterResults_seq db"
  by (induction D ay db rule: store_yearly_results.induct)
     (auto split: option.splits simp: add_yearly_result_other_tables)

lemma store_yearly_results_ids:
  "store_yearly_results D ay db = Inr db' \<Longrightarrow> distinct (map yr_id (YearlyResults db))
     \<Longrightarrow> distinct (map yr_id (YearlyResults db'))"
  by (induction D ay db rule: store_yearly_results.induct)
     (auto split: option.splits simp: add_yearly_result_ids)

lemma store_yearly_results_keys:
  "store_yearly_results D ay db = Inr db' \<Longrightarrow> distinct (map yr_id (YearlyResults db))
     \<Longrightarrow> distinct (map yr_key (YearlyResults db))
     \<Longrightarrow> distinct (map yr_key (YearlyResults db'))"
  by (induction D ay db rule: store_yearly_results.induct)
     (auto split: option.splits simp: add_yearly_result_ids add_yearly_result_keys)

lemma store_yearly_results_get_other:
  "store_yearly_results D ay db = Inr db' \<Longrightarrow> distinct (map yr_id (YearlyResults db))
     \<Longrightarrow> (s', a') \<notin> (\<lambda>kv. (fst kv, ay)) ` set D
     \<Longrightarrow> get_yearly_result_by_composite_keys db' s' a'
         = get_yearly_result_by_composite_keys db s' a'"
proof (induction D ay db rule: store_yearly_results.induct)
  case (1 ay db)
  then show ?case by simp
next
  case (2 sid data rest ay db)
  from "2.prems"(1) obtain r where r: "y_grade_rank data = Some r"
    by (auto split: option.splits)
  let ?db1 = "add_yearly_result db sid ay (y_total_marks data) (y_average_score data) r"
  have st: "store_yearly_results rest ay ?db1 = Inr db'" using "2.prems"(1) r by simp
  have d1: "distinct (map yr_id (YearlyResults ?db1))"
    using "2.prems"(2) by (rule add_yearly_result_ids)
  have ne: "(s', a') \<noteq> (sid, ay)" using "2.prems"(3) by auto
  have "get_yearly_result_by_composite_keys db' s' a'
      = get_yearly_result_by_composite_keys ?db1 s' a'"
    using "2.IH"[OF r st d1] "2.prems"(3) by auto
  also have "\<dots> = get_yearly_result_by_composite_keys db s' a'"
    using add_yearly_result_get_other[OF "2.prems"(2) ne] by simp
  finally show ?case .
qed

lemma store_yearly_results_get:
  "store_yearly_results D ay db = Inr db' \<Longrightarrow> distinct (map yr_id (YearlyResults db))
     \<Longrightarrow> distinct (map fst D) \<Longrightarrow> (sid, data) \<in> set D
     \<Longrightarrow> \<exists>r. get_yearly_result_by_composite_keys db' sid ay = Some r
             \<and> yr_vals r = y_data_vals data"
proof (induction D ay db rule: store_yearly_results.induct)
  case (1 ay db)
  then show ?case by simp
next
  case (2 sid0 data0 rest ay db)
  from "2.prems"(1) obtain r where r: "y_grade_rank data0 = Some r"
    by (auto split: option.splits)
  let ?db1 = "add_yearly_result db sid0 ay (y_total_marks data0) (y_average_score data0) r"
  have st: "store_yearly_results rest ay ?db1 = Inr db'" using "2.prems"(1) r by simp
  have d1: "distinct (map yr_id (YearlyResults ?db1))"
    using "2.prems"(2) by (rule add_yearly_result_ids)
  show ?case
  proof (cases "(sid, data) \<in> set rest")
    case True
    then show ?thesis using "2.IH"[OF r st d1] "2.prems"(3) by simp
  next
    case False
    then have eq: "sid = sid0" "data = data0" using "2.prems"(4) by auto
    have "(sid0, ay) \<notin> (\<lambda>kv. (fst kv, ay)) ` set rest"
      using "2.prems"(3) by force
    then have "get_yearly_result_by_composite_keys db' sid0 ay
        = get_yearly_result_by_composite_keys ?db1 sid0 ay"
      using store_yearly_results_get_other[OF st d1] by blast
    then show ?thesis
      using add_yearly_result_get_same[of db sid0 ay "y_total_marks data0" "y_average_score data0" r]
        eq r by (simp add: y_data_vals_def)
  qed
qed

lemma store_yearly_results_frame:
  "store_yearly_results D ay db = Inr db' \<Longrightarrow> distinct (map yr_id (YearlyResults db))
     \<Longrightarrow> filter (\<lambda>r. yr_key r \<notin> (\<lambda>kv. (fst kv, ay)) ` set D) (YearlyResults db')
       = filter (\<lambda>r. yr_key r \<notin> (\<lambda>kv. (fst kv, ay)) ` set D) (YearlyResults db)"
proof (induction D ay db rule: store_yearly_results.induct)
  case (1 ay db)
  then show ?case by simp
next
  case (2 sid data rest ay db)
  from "2.prems"(1) obtain r where r: "y_grade_rank data = Some r"
    by (auto split: option.splits)
  let ?db1 = "add_yearly_result db sid ay (y_total_marks data) (y_average_score data) r"
  let ?K = "(\<lambda>kv. (fst kv, ay)) ` set rest"
  have st: "store_yearly_results rest ay ?db1 = Inr db'" using "2.prems"(1) r by simp
  have d1: "distinct (map yr_id (YearlyResults ?db1))"
    using "2.prems"(2) by (rule add_yearly_result_ids)
  have ih: "filter (\<lambda>r. yr_key r \<notin> ?K) (YearlyResults db')
          = filter (\<lambda>r. yr_key r \<notin> ?K) (YearlyResults ?db1)"
    using "2.IH"[OF r st d1] .
  have fr: "filter (\<lambda>r. yr_key r \<noteq> (sid, ay)) (YearlyResults ?db1)
          = filter (\<lambda>r. yr_key r \<noteq> (sid, ay)) (YearlyResults db)"
    using add_yearly_result_frame[OF "2.prems"(2)] .
  have img: "(\<lambda>kv. (fst kv, ay)) ` set ((sid, data) # rest) = insert (sid, ay) ?K"
    by simp
  have "filter (\<lambda>r. yr_key r \<notin> insert (sid, ay) ?K) (YearlyResults db')
      = filter (\<lambda>r. yr_key r \<noteq> (sid, ay)) (filter (\<lambda>r. yr_key r \<notin> ?K) (YearlyResults db'))"
    by (simp add: conj_commute)
  also have "\<dots> = filter (\<lambda>r. yr_key r \<noteq> (sid, ay)) (filter (\<lambda>r. yr_key r \<notin> ?K) (YearlyResults ?db1))"
    by (simp only: ih)
  also have "\<dots> = filter (\<lambda>r. yr_key r \<notin> ?K) (filter (\<lambda>r. yr_key r \<noteq> (sid, ay)) (YearlyResults ?db1))"
    by (simp add: conj_commute)
  also have "\<dots> = filter (\<lambda>r. yr_key r \<notin> ?K) (filter (\<lambda>r. yr_key r \<noteq> (sid, ay)) (YearlyResults db))"
    by (simp only: fr)
  also have "\<dots> = filter (\<lambda>r. yr_key r \<notin> insert (sid, ay) ?K) (YearlyResults db)"
    by (simp add: conj_commute)
  finally show ?case by (simp only: img)
qed

lemma store_yearly_results_idem:
  "distinct (map yr_id (YearlyResults db)) \<Longrightarrow>
   \<forall>kv\<in>set D. y_grade_rank (snd kv) \<noteq> None \<and>
      (\<exists>r. get_yearly_result_by_composite_keys db (fst kv) ay = Some r
           \<and> yr_vals r = y_data_vals (snd kv)) \<Longrightarrow>
   store_yearly_results D ay db = Inr db"
proof (induction D)
  case Nil
  show ?case by simp
next
  case (Cons kv D)
  obtain sid data where kv: "kv = (sid, data)" by (cases kv)
  from Cons.prems(2) kv obtain r row where r: "y_grade_rank data = Some r"
    and row: "get_yearly_result_by_composite_keys db sid ay = Some row"
             "yr_vals row = y_data_vals data"
    by auto
  have "add_yearly_result db sid ay (y_total_marks data) (y_average_score data) r = db"
    using add_yearly_result_idem[OF Cons.prems(1) row(1)] row(2) r by (simp add: y_data_vals_def)
  then show ?case using Cons kv r by simp
qed

section \<open>Properties of the ranking\<close>

lemma rank_loop_fst: "map fst (rank_loop i c p xs) = map fst xs"
  by (induction xs arbitrary: i c p) (auto simp: Let_def)

lemma rank_loop_length: "length (rank_loop i c p xs) = length xs"
  using rank_loop_fst[of i c p xs] by (metis length_map)

lemma rank_loop_closed:
  assumes "sorted_wrt (\<lambda>x y. snd x \<ge> snd y) (pre @ xs)"
      and "i = length pre"
      and "pre \<noteq> [] \<Longrightarrow> p = snd (last pre)"
      and "c = (if pre = [] then 1 else competition_rank pre p)"
  shows "rank_loop i c p xs = map (\<lambda>x. (fst x, competition_rank (pre @ xs) (snd x))) xs"
  using assms
proof (induction xs arbitrary: pre i c p)
  case Nil
  show ?case by simp
next
  case (Cons x xs)
  obtain s a where x: "x = (s, a)" by (cases x)
  let ?c' = "if a \<noteq> p then i + 1 else c"
  have ge: "\<forall>y\<in>set pre. snd y \<ge> a" and le: "\<forall>y\<in>set xs. snd y \<le> a"
    using Cons.prems(1) x by (auto simp: sorted_wrt_append)
  have tail0: "filter (\<lambda>y. snd y > a) (x # xs) = []"
    using le x by (auto simp: filter_empty_conv)
  have c': "?c' = competition_rank pre a"
  proof (cases "pre = []")
    case True
    then show ?thesis using Cons.prems by (simp add: competition_rank_def)
  next
    case False
    then have p: "p = snd (last pre)" and c: "c = competition_rank pre p"
      using Cons.prems by auto
    show ?thesis
    proof (cases "a = p")
      case True
      then show ?thesis using c by simp
    next
      case False
      have "last pre \<in> set pre" using \<open>pre \<noteq> []\<close> by simp
      then have "p \<ge> a" using ge p by blast
      then have "p > a" using False by simp
      have "\<forall>y\<in>set pre. snd y \<ge> p"
      proof
        fix y assume y: "y \<in> set pre"
        have "sorted_wrt (\<lambda>x y. snd x \<ge> snd y) pre"
          using Cons.prems(1) by (simp add: sorted_wrt_append)
        then have "sorted_wrt (\<lambda>x y. snd x \<ge> snd y) (butlast pre @ [last pre])"
          using \<open>pre \<noteq> []\<close> by simp
        then have "\<forall>z\<in>set (butlast pre). snd z \<ge> snd (last pre)"
          by (simp add: sorted_wrt_append)
        moreover have "y \<in> set (butlast pre) \<or> y = last pre"
          using y \<open>pre \<noteq> []\<close> by (metis append_butlast_last_id in_set_conv_decomp_first
              rotate1.simps(2) set_ConsD set_rotate1)
        ultimately show "snd y \<ge> p" using p by auto
      qed
      then have "filter (\<lambda>y. snd y > a) pre = pre" using \<open>p > a\<close> by (auto simp: filter_id_conv)
      then show ?thesis using False Cons.prems(2) by (simp add: competition_rank_def)
    qed
  qed
  have cr_x: "competition_rank (pre @ x # xs) a = competition_rank pre a"
    using tail0 by (simp add: competition_rank_def)
  have ih: "rank_loop (i + 1) ?c' a xs
          = map (\<lambda>y. (fst y, competition_rank ((pre @ [x]) @ xs) (snd y))) xs"
  proof (rule Cons.IH)
    show "sorted_wrt (\<lambda>x y. snd y \<le> snd x) ((pre @ [x]) @ xs)" using Cons.prems(1) by simp
    show "i + 1 = length (pre @ [x])" using Cons.prems(2) by simp
    show "a = snd (last (pre @ [x]))" using x by simp
    have "competition_rank (pre @ [x]) a = competition_rank pre a"
      using x by (simp add: competition_rank_def)
    then show "?c' = (if pre @ [x] = [] then 1 else competition_rank (pre @ [x]) a)"
      using c' by simp
  qed
  show ?case using ih c' cr_x x by (simp add: Let_def)
qed

lemma sort_by_score_desc_sorted:
  "sorted_wrt (\<lambda>x y. snd x \<ge> snd y) (sort_by_score_desc xs)"
proof -
  have "sorted (map snd (sort_key snd (rev xs)))" by (rule sorted_sort_key)
  then have "sorted_wrt (\<lambda>x y. snd x \<le> snd y) (sort_key snd (rev xs))"
    by (simp add: sorted_wrt_map)
  then show ?thesis
    by (simp add: sort_by_score_desc_def sorted_wrt_rev)
qed

lemma competition_rank_sort:
  "competition_rank (sort_by_score_desc xs) a = competition_rank xs a"
proof -
  have "length (filter (\<lambda>y. snd y > a) (rev (sort_key snd (rev xs))))
      = length (filter (\<lambda>y. snd y > a) xs)"
    by (simp only: rev_filter[symmetric] length_rev filter_sort length_sort)
  then show ?thesis by (simp add: competition_rank_def sort_by_score_desc_def)
qed

lemma sort_by_score_desc_set: "set (sort_by_score_desc xs) = set xs"
  by (simp add: sort_by_score_desc_def)

lemma sort_by_score_desc_distinct_fst:
  "distinct (map fst xs) \<Longrightarrow> distinct (map fst (sort_by_score_desc xs))"
  by (simp add: distinct_map sort_by_score_desc_def)

lemma rank_students_closed:
  "rank_students cohort =
     map (\<lambda>x. (fst x, competition_rank cohort (snd x))) (sort_by_score_desc cohort)"
proof -
  have "rank_loop 0 1 (- 1) (sort_by_score_desc cohort)
      = map (\<lambda>x. (fst x, competition_rank ([] @ sort_by_score_desc cohort) (snd x)))
          (sort_by_score_desc cohort)"
    by (rule rank_loop_closed) (simp_all add: sort_by_score_desc_sorted)
  then show ?thesis
    by (simp add: rank_students_def competition_rank_sort)
qed

lemma rank_grade_eq:
  "rank_grade g dict = rank_grade_by grade_id average_score (\<lambda>r data. data\<lparr>grade_rank := Some r\<rparr>) g dict"
  by (simp add: rank_grade_def rank_grade_by_def cohort_by_def)

lemma yearly_rank_grade_eq:
  "yearly_rank_grade g dict = rank_grade_by y_grade_id y_average_score (\<lambda>r data. data\<lparr>y_grade_rank := Some r\<rparr>) g dict"
  by (simp add: yearly_rank_grade_def rank_grade_by_def cohort_by_def)

lemma cohort_by_set:
  "(k, a) \<in> set (cohort_by grade avg dict g) \<longleftrightarrow> (\<exists>d. (k, d) \<in> set dict \<and> grade d = g \<and> a = avg d)"
  by (auto simp: cohort_by_def) force

lemma cohort_by_distinct:
  "distinct (map fst dict) \<Longrightarrow> distinct (map fst (cohort_by grade avg dict g))"
proof -
  assume d: "distinct (map fst dict)"
  have "map fst (cohort_by grade avg dict g) = map fst (filter (\<lambda>kv. grade (snd kv) = g) dict)"
    by (induction dict) (auto simp: cohort_by_def)
  then show ?thesis using d by (simp add: distinct_map_filter)
qed

lemma map_keys_same: "(\<And>kv. fst (u kv) = fst kv) \<Longrightarrow> map fst (map u d) = map fst d"
  by (induction d) auto

lemma cohort_by_map:
  "(\<And>kv. fst (u kv) = fst kv \<and> grade (snd (u kv)) = grade (snd kv) \<and> avg (snd (u kv)) = avg (snd kv))
   \<Longrightarrow> cohort_by grade avg (map u d) g = cohort_by grade avg d g"
  by (induction d) (auto simp: cohort_by_def)

lemma map_entry_distinct:
  "distinct (map fst d) \<Longrightarrow>
   AList.map_entry k f d = map (\<lambda>kv. if fst kv = k then (fst kv, f (snd kv)) else kv) d"
proof (induction d)
  case Nil
  show ?case by simp
next
  case (Cons p ps)
  show ?case
  proof (cases "fst p = k")
    case True
    then have "k \<notin> fst ` set ps" using Cons.prems by simp
    then have "\<forall>kv\<in>set ps. fst kv \<noteq> k" by force
    then have "map (\<lambda>kv. if fst kv = k then (fst kv, f (snd kv)) else kv) ps = ps"
      by (simp add: map_idI)
    then show ?thesis using True by (cases p) simp
  next
    case False
    then show ?thesis using Cons by (cases p) simp
  qed
qed

lemma fold_map_entry:
  "distinct (map fst d) \<Longrightarrow> distinct (map fst L) \<Longrightarrow>
   fold (\<lambda>sr d. AList.map_entry (fst sr) (F (snd sr)) d) L d =
     map (\<lambda>kv. case map_of L (fst kv) of None \<Rightarrow> kv | Some r \<Rightarrow> (fst kv, F r (snd kv))) d"
proof (induction L arbitrary: d)
  case Nil
  show ?case by simp
next
  case (Cons x L)
  obtain k r where x: "x = (k, r)" by (cases x)
  let ?u = "\<lambda>kv. if fst kv = k then (fst kv, F r (snd kv)) else kv"
  have me: "AList.map_entry k (F r) d = map ?u d"
    using Cons.prems(1) by (rule map_entry_distinct)
  have keys: "map fst (map ?u d) = map fst d" by (rule map_keys_same) simp
  have kL: "map_of L k = None" using Cons.prems(2) x by (simp add: map_of_eq_None_iff)
  have dU: "distinct (map fst (map ?u d))" using Cons.prems(1) by (simp only: keys)
  have dL: "distinct (map fst L)" using Cons.prems(2) by simp
  have "fold (\<lambda>sr d. AList.map_entry (fst sr) (F (snd sr)) d) L (map ?u d)
      = map (\<lambda>kv. case map_of L (fst kv) of None \<Rightarrow> kv | Some r \<Rightarrow> (fst kv, F r (snd kv))) (map ?u d)"
    using dU dL by (rule Cons.IH)
  also have "\<dots> = map (\<lambda>kv. case map_of (x # L) (fst kv) of None \<Rightarrow> kv
                                | Some r \<Rightarrow> (fst kv, F r (snd kv))) d"
    using kL x by (auto simp: o_def)
  finally have "fold (\<lambda>sr d. AList.map_entry (fst sr) (F (snd sr)) d) L (AList.map_entry k (F r) d)
      = map (\<lambda>kv. case map_of (x # L) (fst kv) of None \<Rightarrow> kv
                                | Some r \<Rightarrow> (fst kv, F r (snd kv))) d"
    by (simp only: me)
  then show ?case using x by simp
qed

lemma rank_grade_by_closed:
  assumes "distinct (map fst d)"
  shows "rank_grade_by grade avg set_rank g d =
     map (\<lambda>kv. if grade (snd kv) = g
               then (fst kv, set_rank (competition_rank (cohort_by grade avg d g) (avg (snd kv))) (snd kv))
               else kv) d"
proof -
  let ?C = "cohort_by grade avg d g"
  let ?L = "rank_students ?C"
  have Ldef: "?L = map (\<lambda>x. (fst x, competition_rank ?C (snd x))) (sort_by_score_desc ?C)"
    by (rule rank_students_closed)
  have Lfst: "map fst ?L = map fst (sort_by_score_desc ?C)"
    unfolding Ldef by (simp add: o_def)
  have dL: "distinct (map fst ?L)"
    unfolding Lfst using cohort_by_distinct[OF assms] by (rule sort_by_score_desc_distinct_fst)
  have look: "map_of ?L (fst kv) =
        (if grade (snd kv) = g then Some (competition_rank ?C (avg (snd kv))) else None)"
    if kv: "kv \<in> set d" for kv
  proof (cases "grade (snd kv) = g")
    case True
    have "(fst kv, snd kv) \<in> set d" using kv by simp
    then have "\<exists>d'. (fst kv, d') \<in> set d \<and> grade d' = g \<and> avg (snd kv) = avg d'"
      using True by blast
    then have "(fst kv, avg (snd kv)) \<in> set ?C"
      by (simp only: cohort_by_set)
    then have "(fst kv, avg (snd kv)) \<in> set (sort_by_score_desc ?C)"
      by (simp add: sort_by_score_desc_set)
    then have "(fst kv, competition_rank ?C (avg (snd kv))) \<in> set ?L"
      unfolding Ldef by force
    then show ?thesis using True dL by simp
  next
    case False
    have "fst kv \<notin> fst ` set ?L"
    proof
      assume "fst kv \<in> fst ` set ?L"
      then have "fst kv \<in> set (map fst ?L)" by simp
      then have "fst kv \<in> fst ` set ?C"
        unfolding Lfst by (simp add: sort_by_score_desc_set)
      then obtain a where "(fst kv, a) \<in> set ?C" by force
      then obtain d' where d': "(fst kv, d') \<in> set d" "grade d' = g"
        using cohort_by_set[of "fst kv" a grade avg d g] by auto
      have "(fst kv, snd kv) \<in> set d" using kv by simp
      then have "d' = snd kv" using d'(1) assms
        by (meson eq_key_imp_eq_value)
      then show False using d'(2) False by simp
    qed
    then show ?thesis using False by (simp add: map_of_eq_None_iff)
  qed
  have "rank_grade_by grade avg set_rank g d =
        map (\<lambda>kv. case map_of ?L (fst kv) of None \<Rightarrow> kv | Some r \<Rightarrow> (fst kv, set_rank r (snd kv))) d"
    unfolding rank_grade_by_def using assms dL by (rule fold_map_entry)
  also have "\<dots> = map (\<lambda>kv. if grade (snd kv) = g
               then (fst kv, set_rank (competition_rank ?C (avg (snd kv))) (snd kv))
               else kv) d"
    by (rule map_cong[OF refl]) (simp add: look)
  finally show ?thesis .
qed

lemma fold_rank_grade_by_closed:
  assumes "distinct (map fst d0)"
      and "\<And>r d. grade (set_rank r d) = grade d"
      and "\<And>r d. avg (set_rank r d) = avg d"
      and "\<And>r r' d. set_rank r (set_rank r' d) = set_rank r d"
  shows "fold (rank_grade_by grade avg set_rank) gs d0 =
     map (\<lambda>kv. if grade (snd kv) \<in> set gs
               then (fst kv, set_rank (competition_rank (cohort_by grade avg d0 (grade (snd kv)))
                                        (avg (snd kv))) (snd kv))
               else kv) d0"
proof (induction gs rule: rev_induct)
  case Nil
  show ?case by simp
next
  case (snoc g gs)
  let ?R = "\<lambda>G kv. if grade (snd kv) \<in> G
               then (fst kv, set_rank (competition_rank (cohort_by grade avg d0 (grade (snd kv)))
                                        (avg (snd kv))) (snd kv))
               else kv"
  let ?D = "map (?R (set gs)) d0"
  have keys: "map fst ?D = map fst d0" by (rule map_keys_same) simp
  then have dD: "distinct (map fst ?D)" using assms(1) by (simp only:)
  have coh: "cohort_by grade avg ?D g = cohort_by grade avg d0 g"
    by (rule cohort_by_map) (simp add: assms(2,3))
  have "fold (rank_grade_by grade avg set_rank) (gs @ [g]) d0
      = rank_grade_by grade avg set_rank g ?D"
    using snoc.IH by simp
  also have "\<dots> = map (\<lambda>kv. if grade (snd kv) = g
               then (fst kv, set_rank (competition_rank (cohort_by grade avg d0 g) (avg (snd kv))) (snd kv))
               else kv) ?D"
    using rank_grade_by_closed[OF dD, of grade avg set_rank g] coh by simp
  also have "\<dots> = map (?R (set (gs @ [g]))) d0"
    by (auto simp: assms(2,3,4))
  finally show ?case .
qed

section \<open>Properties of the semester aggregation\<close>

lemma like_percent: "like [CHR ''%''] s"
  by (induction s) auto

lemma like_truncate: "like (ps @ CHR ''%'' # qs) s \<Longrightarrow> like (ps @ [CHR ''%'']) s"
proof (induction ps s rule: like.induct)
  case (1 s)
  show ?case using like_percent by simp
next
  case (2 p ps s)
  show ?case
  proof (cases "p = CHR ''%''")
    case True
    then show ?thesis using 2 by (cases s) auto
  next
    case False
    then show ?thesis using 2 by (cases s) (auto split: if_splits)
  qed
qed

lemma like_semester_exam: "like ''%Semester%Exam%'' n \<Longrightarrow> like ''%Semester%'' n"
  using like_truncate[of "''%Semester''" "''Exam%''" n] by simp

lemma subject_totals_eq:
  "subject_totals db sid subj ay sem =
     (subject_achieved db sid subj ay sem, subject_possible db sid subj ay sem)"
  by (simp add: subject_totals_def subject_achieved_def subject_possible_def mean_def Let_def
           split: option.splits)

lemma fold_accumulate_subject:
  "fold (accumulate_subject db sid ay sem) subs (t, p, n) =
     (t + sum_list (map (\<lambda>subj. subject_achieved db sid subj ay sem)
                      [subj \<leftarrow> map fst subs. subject_possible db sid subj ay sem > 0]),
      p + sum_list (map (\<lambda>subj. subject_possible db sid subj ay sem)
                      [subj \<leftarrow> map fst subs. subject_possible db sid subj ay sem > 0]),
      n + length [subj \<leftarrow> map fst subs. subject_possible db sid subj ay sem > 0])"
  by (induction subs arbitrary: t p n)
     (simp_all add: accumulate_subject_def subject_totals_eq Let_def)

lemma semester_totals_eq:
  "semester_totals db sid ay sem =
     (sum_list (map (\<lambda>subj. subject_achieved db sid subj ay sem) (counted_subjects db sid ay sem)),
      sum_list (map (\<lambda>subj. subject_possible db sid subj ay sem) (counted_subjects db sid ay sem)),
      length (counted_subjects db sid ay sem))"
  by (simp add: semester_totals_def fold_accumulate_subject counted_subjects_def)

lemma sum_list_pos:
  "xs \<noteq> [] \<Longrightarrow> \<forall>x\<in>set xs. (0::real) < f x \<Longrightarrow> 0 < sum_list (map f xs)"
proof (induction xs)
  case Nil
  then show ?case by simp
next
  case (Cons a xs)
  show ?case
  proof (cases "xs = []")
    case True
    then show ?thesis using Cons.prems by simp
  next
    case False
    then have "0 < sum_list (map f xs)" using Cons by simp
    moreover have "0 < f a" using Cons.prems by simp
    ultimately show ?thesis by simp
  qed
qed

lemma counted_possible_pos:
  "counted_subjects db sid ay sem \<noteq> [] \<Longrightarrow>
   0 < sum_list (map (\<lambda>subj. subject_possible db sid subj ay sem) (counted_subjects db sid ay sem))"
  by (rule sum_list_pos) (auto simp: counted_subjects_def)

lemma student_exam_results_set:
  "x \<in> set (student_exam_results db sid ay sem) \<longleftrightarrow>
     (\<exists>er e. in_scope db sid ay sem er e \<and> x = (er_marks er, ex_name e, ex_max_marks e))"
  unfolding student_exam_results_def in_scope_def by auto

lemma set_comp3:
  "set [f x y z. x \<leftarrow> xs, y \<leftarrow> ys, P x y, z \<leftarrow> zs, Q x y z]
     = {f x y z | x y z. x \<in> set xs \<and> y \<in> set ys \<and> P x y \<and> z \<in> set zs \<and> Q x y z}"
  by auto

lemma student_subjects_in_semester_set:
  "x \<in> set (student_subjects_in_semester db sid ay sem) \<longleftrightarrow>
     (\<exists>er e s. in_scope db sid ay sem er e \<and> s \<in> set (Subjects db)
        \<and> er_subject_id er = sub_id s \<and> x = sub_id s)"
proof -
  have "student_subjects_in_semester db sid ay sem =
     remdups [sub_id s.
        s \<leftarrow> Subjects db, er \<leftarrow> ExamResults db, sub_id s = er_subject_id er,
        e \<leftarrow> Exams db, er_exam_id er = ex_id e \<and>
        er_student_id er = sid \<and> ex_academic_year_id e = ay \<and>
        ex_semester_id e = Some sem]"
    unfolding student_subjects_in_semester_def
    by (rule arg_cong[where f=remdups]) (auto intro!: arg_cong[where f=concat] map_cong)
  then show ?thesis
    unfolding in_scope_def
    by (simp only: set_remdups set_comp3 mem_Collect_eq eq_commute[of "sub_id _" "er_subject_id _"])
       blast
qed

lemma subjects_with_results_set:
  "x \<in> set (subjects_with_results db sid ay sem) \<longleftrightarrow>
     (\<exists>er e s. in_scope db sid ay sem er e \<and> s \<in> set (Subjects db)
        \<and> er_subject_id er = sub_id s \<and> x = (er_subject_id er, sub_name s))"
proof -
  have "subjects_with_results db sid ay sem =
     remdups [(er_subject_id er, sub_name s).
        er \<leftarrow> ExamResults db, s \<leftarrow> Subjects db, er_subject_id er = sub_id s,
        e \<leftarrow> Exams db, er_exam_id er = ex_id e \<and>
        er_student_id er = sid \<and> ex_academic_year_id e = ay \<and>
        ex_semester_id e = Some sem]"
    unfolding subjects_with_results_def
    by (rule arg_cong[where f=remdups]) (auto intro!: arg_cong[where f=concat] map_cong)
  then show ?thesis
    unfolding in_scope_def
    by (simp only: set_remdups set_comp3 mem_Collect_eq eq_commute[of "sub_id _" "er_subject_id _"])
       blast
qed

lemma subject_results_like_set:
  "x \<in> set (subject_results_like pat db sid subj ay sem) \<longleftrightarrow>
     (\<exists>er e. in_scope db sid ay sem er e \<and> er_subject_id er = subj \<and> like pat (ex_name e)
        \<and> x = (er_marks er, ex_max_marks e))"
proof -
  have "x \<in> set (subject_results_like pat db sid subj ay sem) \<longleftrightarrow>
      x \<in> snd ` set [(er_exam_id er, (er_marks er, ex_max_marks e)).
          er \<leftarrow> ExamResults db, e \<leftarrow> Exams db, er_exam_id er = ex_id e,
          er_student_id er = sid, er_subject_id er = subj,
          ex_academic_year_id e = ay, ex_semester_id e = Some sem,
          like pat (ex_name e)]"
    by (simp only: subject_results_like_def set_map set_sort)
  also have "\<dots> \<longleftrightarrow> (\<exists>er e. in_scope db sid ay sem er e \<and> er_subject_id er = subj
        \<and> like pat (ex_name e) \<and> x = (er_marks er, ex_max_marks e))"
    unfolding in_scope_def by (auto simp: image_iff)
  finally show ?thesis .
qed

lemma nonempty_set: "xs \<noteq> [] \<longleftrightarrow> (\<exists>x. x \<in> set xs)"
  by (cases xs) auto

lemma subjects_with_results_empty:
  "subjects_with_results db sid ay sem = [] \<longleftrightarrow> student_subjects_in_semester db sid ay sem = []"
proof -
  have "(\<exists>x. x \<in> set (subjects_with_results db sid ay sem))
      \<longleftrightarrow> (\<exists>x. x \<in> set (student_subjects_in_semester db sid ay sem))"
    unfolding subjects_with_results_set student_subjects_in_semester_set by blast
  then show ?thesis using nonempty_set by metis
qed

lemma subjects_imp_results:
  "subjects_with_results db sid ay sem \<noteq> [] \<Longrightarrow> student_exam_results db sid ay sem \<noteq> []"
  unfolding nonempty_set subjects_with_results_set student_exam_results_set by blast

lemma counted_imp_subjects:
  "counted_subjects db sid ay sem \<noteq> [] \<Longrightarrow> subjects_with_results db sid ay sem \<noteq> []"
  by (auto simp: counted_subjects_def)

lemma compute_student_None:
  "compute_student db ay sem (sid, g) = None \<longleftrightarrow> skipped db ay sem sid"
  using counted_imp_subjects[of db sid ay sem] subjects_with_results_empty[of db sid ay sem]
  by (auto simp: compute_student_def skipped_def semester_totals_eq Let_def)

lemma compute_student_Some:
  "compute_student db ay sem (sid, g) = Some data \<Longrightarrow>
     \<not> skipped db ay sem sid
     \<and> total_marks data =
         sum_list (map (\<lambda>subj. subject_achieved db sid subj ay sem) (counted_subjects db sid ay sem))
     \<and> average_score data =
         sum_list (map (\<lambda>subj. subject_achieved db sid subj ay sem) (counted_subjects db sid ay sem))
         / sum_list (map (\<lambda>subj. subject_possible db sid subj ay sem) (counted_subjects db sid ay sem))
         * 100
     \<and> grade_id data = g \<and> grade_rank data = None"
proof -
  assume a: "compute_student db ay sem (sid, g) = Some data"
  then have ns: "\<not> skipped db ay sem sid" using compute_student_None[of db ay sem sid g] by simp
  then have c: "counted_subjects db sid ay sem \<noteq> []" by (simp add: skipped_def)
  show ?thesis using a ns counted_possible_pos[OF c]
    by (auto simp: compute_student_def semester_totals_eq Let_def split: if_splits)
qed

lemma sort_key_hd_least:
  assumes "sort_key f xs = y # ys"
  shows "y \<in> set xs \<and> (\<forall>x\<in>set xs. f y \<le> f x)"
proof -
  have s: "sorted (map f (sort_key f xs))" by (rule sorted_sort_key)
  have m: "set (sort_key f xs) = set xs" by (rule set_sort)
  have y: "y \<in> set xs" using assms m by (metis list.set_intros(1))
  have "\<forall>x\<in>set (sort_key f xs). f y \<le> f x"
    using s unfolding assms by auto
  then show ?thesis using y m by simp
qed

lemma sem_exam_result_least:
  assumes "sem_exam_result db sid subj ay sem = Some row"
  shows "\<exists>er e. in_scope db sid ay sem er e \<and> er_subject_id er = subj
            \<and> like ''%Semester%Exam%'' (ex_name e)
            \<and> row = (er_marks er, ex_max_marks e)
            \<and> (\<forall>er' e'. in_scope db sid ay sem er' e' \<and> er_subject_id er' = subj
                  \<and> like ''%Semester%Exam%'' (ex_name e') \<longrightarrow> ex_id e \<le> ex_id e')"
proof -
  let ?xs = "[(er_exam_id er, (er_marks er, ex_max_marks e)).
                 er \<leftarrow> ExamResults db, e \<leftarrow> Exams db, er_exam_id er = ex_id e,
                 er_student_id er = sid, er_subject_id er = subj,
                 ex_academic_year_id e = ay, ex_semester_id e = Some sem,
                 like ''%Semester%Exam%'' (ex_name e)]"
  have mem: "x \<in> set ?xs \<longleftrightarrow>
      (\<exists>er e. in_scope db sid ay sem er e \<and> er_subject_id er = subj
         \<and> like ''%Semester%Exam%'' (ex_name e)
         \<and> x = (ex_id e, (er_marks er, ex_max_marks e)))" for x
    unfolding in_scope_def by auto
  from assms obtain y ys where ys: "sort_key fst ?xs = y # ys" and row: "row = snd y"
    unfolding sem_exam_result_def subject_results_like_def
    by (cases "sort_key fst ?xs") (auto split: list.splits)
  from sort_key_hd_least[OF ys] have y: "y \<in> set ?xs" and le: "\<forall>x\<in>set ?xs. fst y \<le> fst x"
    by blast+
  from y obtain er e where e: "in_scope db sid ay sem er e" "er_subject_id er = subj"
      "like ''%Semester%Exam%'' (ex_name e)" "y = (ex_id e, (er_marks er, ex_max_marks e))"
    unfolding mem by blast
  have "ex_id e \<le> ex_id e'"
    if h: "in_scope db sid ay sem er' e' \<and> er_subject_id er' = subj
            \<and> like ''%Semester%Exam%'' (ex_name e')" for er' e'
  proof -
    have "(ex_id e', (er_marks er', ex_max_marks e')) \<in> set ?xs"
      unfolding mem using h by blast
    from le[rule_format, OF this] show ?thesis using e(4) by simp
  qed
  then have least: "\<forall>er' e'. in_scope db sid ay sem er' e' \<and> er_subject_id er' = subj
                  \<and> like ''%Semester%Exam%'' (ex_name e') \<longrightarrow> ex_id e \<le> ex_id e'"
    by blast
  have "row = (er_marks er, ex_max_marks e)" using row e(4) by simp
  then show ?thesis using e(1,2,3) least by blast
qed

lemma student_loop_distinct:
  "distinct (map fst d) \<Longrightarrow> distinct (map fst (student_loop db ay sem s d))"
  by (simp add: student_loop_def distinct_update split: option.splits)

lemma fold_student_loop_distinct:
  "distinct (map fst acc) \<Longrightarrow> distinct (map fst (fold (student_loop db ay sem) xs acc))"
  by (induction xs arbitrary: acc) (simp_all add: student_loop_distinct)

lemma student_semester_data_distinct:
  "distinct (map fst (student_semester_data db ay sem))"
  by (simp add: student_semester_data_def fold_student_loop_distinct)

lemma fold_student_loop_lookup:
  "map_of (fold (student_loop db ay sem) xs acc) sid = Some data \<Longrightarrow>
     map_of acc sid = Some data \<or>
     (\<exists>g. (sid, g) \<in> set xs \<and> compute_student db ay sem (sid, g) = Some data)"
proof (induction xs arbitrary: acc)
  case Nil
  then show ?case by simp
next
  case (Cons x xs)
  obtain k g where x: "x = (k, g)" by (cases x)
  from Cons.IH[of "student_loop db ay sem x acc"] Cons.prems
  have "map_of (student_loop db ay sem x acc) sid = Some data
      \<or> (\<exists>g. (sid, g) \<in> set xs \<and> compute_student db ay sem (sid, g) = Some data)"
    by simp
  then show ?case
  proof
    assume a: "map_of (student_loop db ay sem x acc) sid = Some data"
    show ?thesis
    proof (cases "compute_student db ay sem x")
      case None
      then show ?thesis using a by (simp add: student_loop_def)
    next
      case (Some d)
      then have "((map_of acc)(k \<mapsto> d)) sid = Some data"
        using a x by (simp add: student_loop_def update_conv')
      then show ?thesis using Some x by (auto split: if_splits)
    qed
  next
    assume "\<exists>g. (sid, g) \<in> set xs \<and> compute_student db ay sem (sid, g) = Some data"
    then show ?thesis by auto
  qed
qed

lemma student_semester_data_mem:
  assumes "(sid, data) \<in> set (student_semester_data db ay sem)"
  shows "\<exists>g. (sid, g) \<in> set (students_in_year db ay)
            \<and> compute_student db ay sem (sid, g) = Some data"
proof -
  have "map_of (student_semester_data db ay sem) sid = Some data"
    using assms student_semester_data_distinct by simp
  then show ?thesis
    using fold_student_loop_lookup[of db ay sem "students_in_year db ay" "[]" sid data]
    by (simp add: student_semester_data_def)
qed

lemma fold_student_loop_keys:
  "fst ` set (fold (student_loop db ay sem) xs acc) =
     fst ` set acc \<union> {sid. \<exists>g. (sid, g) \<in> set xs \<and> compute_student db ay sem (sid, g) \<noteq> None}"
proof (induction xs arbitrary: acc)
  case Nil
  show ?case by simp
next
  case (Cons x xs)
  obtain k g where x: "x = (k, g)" by (cases x)
  have step: "fst ` set (student_loop db ay sem x acc) =
      fst ` set acc \<union> (if compute_student db ay sem (k, g) \<noteq> None then {k} else {})"
    using x by (auto simp: student_loop_def dom_update split: option.splits)
  have indep: "compute_student db ay sem (k, g') \<noteq> None \<longleftrightarrow> compute_student db ay sem (k, g) \<noteq> None"
    for g' by (simp add: compute_student_None)
  show ?case unfolding fold_simps Cons.IH step using x indep by auto
qed

lemma student_semester_data_keys:
  "fst ` set (student_semester_data db ay sem) =
     {sid. sid \<in> fst ` set (students_in_year db ay) \<and> \<not> skipped db ay sem sid}"
  unfolding student_semester_data_def fold_student_loop_keys
  by (auto simp: compute_student_None) force

lemma update_fresh: "k \<notin> fst ` set al \<Longrightarrow> AList.update k v al = al @ [(k, v)]"
  by (induction al) auto

lemma fold_student_loop_distinct_students:
  "distinct (map fst xs) \<Longrightarrow> fst ` set xs \<inter> fst ` set acc = {} \<Longrightarrow>
   fold (student_loop db ay sem) xs acc =
     acc @ map (\<lambda>s. (fst s, the (compute_student db ay sem s)))
             (filter (\<lambda>s. compute_student db ay sem s \<noteq> None) xs)"
proof (induction xs arbitrary: acc)
  case Nil
  show ?case by simp
next
  case (Cons x xs)
  show ?case
  proof (cases "compute_student db ay sem x")
    case None
    then show ?thesis using Cons by (simp add: student_loop_def)
  next
    case (Some d)
    have fresh: "fst x \<notin> fst ` set acc" using Cons.prems(2) by auto
    have sl: "student_loop db ay sem x acc = acc @ [(fst x, d)]"
      using Some fresh by (simp add: student_loop_def update_fresh)
    have "fst ` set xs \<inter> fst ` set (acc @ [(fst x, d)]) = {}"
      using Cons.prems by auto
    then show ?thesis using Cons.IH[of "acc @ [(fst x, d)]"] Cons.prems(1) sl Some by simp
  qed
qed

lemma student_semester_data_length:
  assumes "distinct (map fst (students_in_year db ay))"
  shows "length (student_semester_data db ay sem) =
           length (students_in_year db ay)
           - length (filter (\<lambda>s. skipped db ay sem (fst s)) (students_in_year db ay))"
proof -
  have eq: "(\<lambda>s. compute_student db ay sem s \<noteq> None) = (\<lambda>s. \<not> skipped db ay sem (fst s))"
    by (rule ext) (metis compute_student_None prod.collapse)
  have "length (student_semester_data db ay sem) =
          length (filter (\<lambda>s. compute_student db ay sem s \<noteq> None) (students_in_year db ay))"
    unfolding student_semester_data_def
    by (subst fold_student_loop_distinct_students[OF assms]) simp_all
  then have "length (student_semester_data db ay sem) =
          length (filter (\<lambda>s. \<not> skipped db ay sem (fst s)) (students_in_year db ay))"
    by (simp only: eq)
  then show ?thesis
    using sum_length_filter_compl[of "\<lambda>s. skipped db ay sem (fst s)" "students_in_year db ay"]
    by simp
qed

lemma grades_in_year_cover:
  assumes "(sid, data) \<in> set (student_semester_data db ay sem)"
  shows "grade_id data \<in> set (grades_in_year (students_in_year db ay) (student_semester_data db ay sem))"
proof -
  obtain g where g: "(sid, g) \<in> set (students_in_year db ay)"
      "compute_student db ay sem (sid, g) = Some data"
    using student_semester_data_mem[OF assms] by blast
  then have gd: "grade_id data = g" using compute_student_Some by blast
  have "sid \<in> set (map fst (student_semester_data db ay sem))" using assms by force
  then have "g \<in> set [snd s. s \<leftarrow> students_in_year db ay,
                        fst s \<in> set (map fst (student_semester_data db ay sem))]"
    using g(1) by force
  then show ?thesis using gd by (simp add: grades_in_year_def del: set_concat set_map)
qed

lemma ranked_semester_data_closed:
  "ranked_semester_data db ay sem =
     map (with_rank (student_semester_data db ay sem)) (student_semester_data db ay sem)"
proof -
  let ?D = "student_semester_data db ay sem"
  let ?gs = "grades_in_year (students_in_year db ay) ?D"
  have rg: "rank_grade = rank_grade_by grade_id average_score (\<lambda>r data. data\<lparr>grade_rank := Some r\<rparr>)"
    by (intro ext) (rule rank_grade_eq)
  have "fold rank_grade ?gs ?D =
     map (\<lambda>kv. if grade_id (snd kv) \<in> set ?gs
               then (fst kv, (snd kv)\<lparr>grade_rank :=
                      Some (competition_rank (cohort_by grade_id average_score ?D (grade_id (snd kv)))
                                        (average_score (snd kv)))\<rparr>)
               else kv) ?D"
    unfolding rg
    by (rule fold_rank_grade_by_closed) (simp_all add: student_semester_data_distinct)
  also have "\<dots> = map (with_rank ?D) ?D"
  proof (rule map_cong[OF refl])
    fix kv assume "kv \<in> set ?D"
    then have "grade_id (snd kv) \<in> set ?gs"
      using grades_in_year_cover[of "fst kv" "snd kv" db ay sem] by simp
    then show "(if grade_id (snd kv) \<in> set ?gs
               then (fst kv, (snd kv)\<lparr>grade_rank :=
                      Some (competition_rank (cohort_by grade_id average_score ?D (grade_id (snd kv)))
                                        (average_score (snd kv)))\<rparr>)
               else kv) = with_rank ?D kv"
      by (simp add: with_rank_def)
  qed
  finally show ?thesis by (simp add: ranked_semester_data_def Let_def)
qed

lemma ranked_semester_data_keys:
  "map fst (ranked_semester_data db ay sem) = map fst (student_semester_data db ay sem)"
  unfolding ranked_semester_data_closed by (rule map_keys_same) (simp add: with_rank_def)

lemma ranked_semester_data_mem:
  "(sid, data) \<in> set (ranked_semester_data db ay sem) \<longleftrightarrow>
     (\<exists>d0. (sid, d0) \<in> set (student_semester_data db ay sem)
          \<and> data = snd (with_rank (student_semester_data db ay sem) (sid, d0)))"
  unfolding ranked_semester_data_closed by (auto simp: with_rank_def image_iff) force+

lemma no_semester_exams_counted:
  assumes "semester_exams db ay sem = []"
  shows "counted_subjects db sid ay sem = []"
proof -
  have none: "\<not> like ''%Semester%'' (ex_name e) \<and> \<not> like ''%CAT%'' (ex_name e)"
    if "in_scope db sid ay sem er e" for er e
    using assms that by (auto simp: semester_exams_def filter_empty_conv in_scope_def)
  have "subject_results_like ''%Semester%Exam%'' db sid subj ay sem = []" for subj
    using none like_semester_exam subject_results_like_set[of _ "''%Semester%Exam%''" db sid subj ay sem]
    by (metis nonempty_set)
  moreover have "subject_results_like ''%CAT%'' db sid subj ay sem = []" for subj
    using none subject_results_like_set[of _ "''%CAT%''" db sid subj ay sem]
    by (metis nonempty_set)
  ultimately have "subject_possible db sid subj ay sem = 0" for subj
    by (simp add: subject_possible_def sem_exam_result_def cat_results_def mean_def)
  then show ?thesis by (simp add: counted_subjects_def)
qed

lemma students_in_year_fst:
  "map fst (students_in_year db ay) =
     concat (map (\<lambda>s. map (\<lambda>e. st_id s)
                    (filter (\<lambda>e. st_id s = en_student_id e \<and> en_academic_year_id e = ay)
                       (Enrollments db))) (Students db))"
proof -
  have inner: "concat (map (\<lambda>e. map fst (if st_id s = en_student_id e then
                        if en_academic_year_id e = ay then [(st_id s, st_current_grade_id s)] else []
                      else [])) es)
      = map (\<lambda>e. st_id s) (filter (\<lambda>e. st_id s = en_student_id e \<and> en_academic_year_id e = ay) es)"
    for s :: student and es
    by (induction es) auto
  show ?thesis
    unfolding students_in_year_def map_concat map_map o_def inner ..
qed

lemma students_in_year_distinct:
  assumes "distinct (map st_id (Students db))"
      and "distinct (map (\<lambda>e. (en_student_id e, en_academic_year_id e)) (Enrollments db))"
  shows "distinct (map fst (students_in_year db ay))"
proof -
  have one: "length (filter (\<lambda>e. k = en_student_id e \<and> en_academic_year_id e = ay) (Enrollments db)) \<le> 1"
    for k
  proof -
    let ?F = "filter (\<lambda>e. k = en_student_id e \<and> en_academic_year_id e = ay) (Enrollments db)"
    have d: "distinct (map (\<lambda>e. (en_student_id e, en_academic_year_id e)) ?F)"
      using assms(2) by (rule distinct_map_filter)
    have "set (map (\<lambda>e. (en_student_id e, en_academic_year_id e)) ?F) \<subseteq> {(k, ay)}" by auto
    then have "card (set (map (\<lambda>e. (en_student_id e, en_academic_year_id e)) ?F)) \<le> card {(k, ay)}"
      by (intro card_mono) simp_all
    then show ?thesis using distinct_card[OF d] by simp
  qed
  have gen: "distinct (map st_id ss) \<Longrightarrow>
     distinct (concat (map (\<lambda>s. map (\<lambda>e. st_id s)
                    (filter (\<lambda>e. st_id s = en_student_id e \<and> en_academic_year_id e = ay)
                       (Enrollments db))) ss))" for ss
  proof (induction ss)
    case Nil
    show ?case by simp
  next
    case (Cons s ss)
    let ?F = "filter (\<lambda>e. st_id s = en_student_id e \<and> en_academic_year_id e = ay) (Enrollments db)"
    have "distinct (map (\<lambda>e. st_id s) ?F)"
      using one[of "st_id s"] by (cases ?F) auto
    moreover have "set (map (\<lambda>e. st_id s) ?F) \<subseteq> {st_id s}" by auto
    moreover have "st_id s \<notin> set (concat (map (\<lambda>s. map (\<lambda>e. st_id s)
                    (filter (\<lambda>e. st_id s = en_student_id e \<and> en_academic_year_id e = ay)
                       (Enrollments db))) ss))"
      using Cons.prems by (auto simp: image_iff)
    ultimately show ?case using Cons by auto
  qed
  show ?thesis unfolding students_in_year_fst using assms(1) by (rule gen)
qed

lemma compute_as_store:
  "compute_and_store_semester_results db ay sem =
     store_semester_results (semester_rows_written db ay sem) ay sem db"
  by (simp add: compute_and_store_semester_results_def semester_rows_written_def)

lemma semester_rows_written_mem:
  assumes "(sid, data) \<in> set (semester_rows_written db ay sem)"
  shows "\<exists>d0. (sid, d0) \<in> set (student_semester_data db ay sem)
          \<and> data = snd (with_rank (student_semester_data db ay sem) (sid, d0))"
proof -
  have "(sid, data) \<in> set (ranked_semester_data db ay sem)"
    using assms by (auto simp: semester_rows_written_def split: if_splits)
  then show ?thesis by (simp only: ranked_semester_data_mem)
qed

lemma semester_rows_written_ranked:
  "\<forall>kv\<in>set (semester_rows_written db ay sem). grade_rank (snd kv) \<noteq> None"
proof
  fix kv assume "kv \<in> set (semester_rows_written db ay sem)"
  then have "(fst kv, snd kv) \<in> set (semester_rows_written db ay sem)" by simp
  from semester_rows_written_mem[OF this] show "grade_rank (snd kv) \<noteq> None"
    by (auto simp: with_rank_def)
qed

lemma semester_rows_written_distinct:
  "distinct (map fst (semester_rows_written db ay sem))"
  by (simp add: semester_rows_written_def ranked_semester_data_keys student_semester_data_distinct)

lemma semester_rows_written_keys:
  "fst ` set (semester_rows_written db ay sem) =
     {sid. sid \<in> fst ` set (students_in_year db ay) \<and> \<not> skipped db ay sem sid}"
proof (cases "students_in_year db ay = [] \<or> semester_exams db ay sem = []")
  case True
  then have "semester_rows_written db ay sem = []" by (auto simp: semester_rows_written_def)
  moreover have "skipped db ay sem sid" if "sid \<in> fst ` set (students_in_year db ay)" for sid
  proof -
    have "students_in_year db ay \<noteq> []" using that by auto
    then have "semester_exams db ay sem = []" using True by simp
    then show ?thesis by (simp add: skipped_def no_semester_exams_counted)
  qed
  ultimately show ?thesis by auto
next
  case False
  then have "semester_rows_written db ay sem = ranked_semester_data db ay sem"
    by (simp add: semester_rows_written_def)
  then have "fst ` set (semester_rows_written db ay sem) = fst ` set (student_semester_data db ay sem)"
    using ranked_semester_data_keys[of db ay sem] by (metis set_map)
  then show ?thesis by (simp only: student_semester_data_keys)
qed

lemma compute_returns:
  "\<exists>db'. compute_and_store_semester_results db ay sem = Inr db'"
  unfolding compute_as_store
  by (rule store_semester_results_returns) (rule semester_rows_written_ranked)

lemma semester_rows_written_values:
  assumes "(sid, data) \<in> set (semester_rows_written db ay sem)"
  shows "total_marks data =
         sum_list (map (\<lambda>subj. subject_achieved db sid subj ay sem) (counted_subjects db sid ay sem))
     \<and> average_score data =
         sum_list (map (\<lambda>subj. subject_achieved db sid subj ay sem) (counted_subjects db sid ay sem))
         / sum_list (map (\<lambda>subj. subject_possible db sid subj ay sem) (counted_subjects db sid ay sem))
         * 100
     \<and> (\<exists>st\<in>set (Students db). st_id st = sid \<and> grade_id data = st_current_grade_id st)
     \<and> grade_rank data =
         Some (competition_rank
                 (cohort_by grade_id average_score (semester_rows_written db ay sem) (grade_id data))
                 (average_score data))"
proof -
  let ?D = "student_semester_data db ay sem"
  obtain d0 where d0: "(sid, d0) \<in> set ?D" "data = snd (with_rank ?D (sid, d0))"
    using semester_rows_written_mem[OF assms] by blast
  obtain g where g: "(sid, g) \<in> set (students_in_year db ay)"
      "compute_student db ay sem (sid, g) = Some d0"
    using student_semester_data_mem[OF d0(1)] by blast
  have st: "\<exists>st\<in>set (Students db). st_id st = sid \<and> g = st_current_grade_id st"
    using g(1) by (auto simp: students_in_year_def split: if_splits)
  have rw: "semester_rows_written db ay sem = map (with_rank ?D) ?D"
    using assms by (auto simp: semester_rows_written_def ranked_semester_data_closed split: if_splits)
  have coh: "cohort_by grade_id average_score (map (with_rank ?D) ?D) G
           = cohort_by grade_id average_score ?D G" for G
    by (rule cohort_by_map) (simp add: with_rank_def)
  show ?thesis
    using compute_student_Some[OF g(2)] d0(2) st
    by (simp add: with_rank_def rw coh)
qed

section \<open>Properties of the yearly aggregation\<close>

lemma aggregate_distinct:
  "distinct (map fst d) \<Longrightarrow> distinct (map fst (aggregate_semester_result res d))"
  by (simp add: aggregate_semester_result_def Let_def distinct_map_entry distinct_update)

lemma fold_aggregate_distinct:
  "distinct (map fst acc) \<Longrightarrow> distinct (map fst (fold aggregate_semester_result rows acc))"
  by (induction rows arbitrary: acc) (simp_all add: aggregate_distinct)

lemma aggregate_lookup:
  "map_of (aggregate_semester_result res d) k =
     (if k = fst res
      then Some (add_sums (case map_of d k of None \<Rightarrow> init_sums (snd (snd (snd res))) | Some x \<Rightarrow> x) [res])
      else map_of d k)"
proof -
  have n: "fst res \<notin> set (map fst d) \<longleftrightarrow> map_of d (fst res) = None"
    by (simp add: map_of_eq_None_iff)
  show ?thesis
    unfolding aggregate_semester_result_def Let_def n
    by (cases "map_of d (fst res)")
       (auto simp: map_of_map_entry update_conv' add_sums_def init_sums_def)
qed

lemma add_sums_Cons: "add_sums (add_sums d [r]) rs = add_sums d (r # rs)"
  by (simp add: add_sums_def add.assoc)

lemma fold_aggregate_lookup:
  "map_of (fold aggregate_semester_result rows acc) k =
     (case map_of acc k of
        Some d \<Rightarrow> Some (add_sums d (filter (\<lambda>r. fst r = k) rows))
      | None \<Rightarrow> (case filter (\<lambda>r. fst r = k) rows of
                   [] \<Rightarrow> None
                 | r # _ \<Rightarrow> Some (add_sums (init_sums (snd (snd (snd r))))
                                     (filter (\<lambda>r. fst r = k) rows))))"
proof (induction rows arbitrary: acc)
  case Nil
  show ?case by (cases "map_of acc k") (simp_all add: add_sums_def)
next
  case (Cons res rows)
  show ?case
  proof (cases "fst res = k")
    case True
    then show ?thesis
      unfolding fold_simps Cons.IH aggregate_lookup
      by (cases "map_of acc k") (simp_all add: add_sums_Cons)
  next
    case False
    then have "k \<noteq> fst res" by auto
    then show ?thesis
      unfolding fold_simps Cons.IH aggregate_lookup using False
      by (cases "map_of acc k") (simp_all cong: list.case_cong)
  qed
qed

lemma map_of_map_snd:
  "map_of (map (\<lambda>kv. (fst kv, f (snd kv))) xs) k = map_option f (map_of xs k)"
  by (induction xs) auto

lemma student_yearly_data_distinct: "distinct (map fst (student_yearly_data db ay))"
proof -
  have "map fst (student_yearly_data db ay)
      = map fst (fold aggregate_semester_result (semester_results_data db ay) [])"
    unfolding student_yearly_data_def by (rule map_keys_same) simp
  then show ?thesis by (simp add: fold_aggregate_distinct)
qed

lemma student_yearly_data_lookup:
  "map_of (student_yearly_data db ay) k =
     (case filter (\<lambda>r. fst r = k) (semester_results_data db ay) of
        [] \<Rightarrow> None
      | r # _ \<Rightarrow> Some (finalize_yearly (add_sums (init_sums (snd (snd (snd r))))
                         (filter (\<lambda>r. fst r = k) (semester_results_data db ay)))))"
proof -
  have "map_of (student_yearly_data db ay) k =
      map_option finalize_yearly
        (map_of (fold aggregate_semester_result (semester_results_data db ay) []) k)"
    unfolding student_yearly_data_def by (rule map_of_map_snd)
  then show ?thesis
    by (simp add: fold_aggregate_lookup split: list.splits)
qed

lemma yearly_grades_cover:
  "kv \<in> set dict \<Longrightarrow> y_grade_id (snd kv) \<in> set (yearly_grades_in_year dict)"
  by (auto simp: yearly_grades_in_year_def)

lemma ranked_yearly_data_closed:
  "ranked_yearly_data db ay =
     map (y_with_rank (student_yearly_data db ay)) (student_yearly_data db ay)"
proof -
  let ?D = "student_yearly_data db ay"
  let ?gs = "yearly_grades_in_year ?D"
  have rg: "yearly_rank_grade
          = rank_grade_by y_grade_id y_average_score (\<lambda>r data. data\<lparr>y_grade_rank := Some r\<rparr>)"
    by (intro ext) (rule yearly_rank_grade_eq)
  have "fold yearly_rank_grade ?gs ?D =
     map (\<lambda>kv. if y_grade_id (snd kv) \<in> set ?gs
               then (fst kv, (snd kv)\<lparr>y_grade_rank :=
                      Some (competition_rank (cohort_by y_grade_id y_average_score ?D (y_grade_id (snd kv)))
                                        (y_average_score (snd kv)))\<rparr>)
               else kv) ?D"
    unfolding rg
    by (rule fold_rank_grade_by_closed) (simp_all add: student_yearly_data_distinct)
  also have "\<dots> = map (y_with_rank ?D) ?D"
    by (rule map_cong[OF refl]) (simp add: y_with_rank_def yearly_grades_cover)
  finally show ?thesis by (simp add: ranked_yearly_data_def Let_def)
qed

lemma yearly_compute_as_store:
  "compute_and_store_yearly_results db ay =
     store_yearly_results (yearly_rows_written db ay) ay db"
  by (simp add: compute_and_store_yearly_results_def yearly_rows_written_def)

lemma student_yearly_data_empty:
  "semester_results_data db ay = [] \<Longrightarrow> student_yearly_data db ay = []"
  by (simp add: student_yearly_data_def)

lemma yearly_rows_written_closed:
  "yearly_rows_written db ay =
     map (y_with_rank (student_yearly_data db ay)) (student_yearly_data db ay)"
  by (simp add: yearly_rows_written_def ranked_yearly_data_closed student_yearly_data_empty)

lemma yearly_rows_written_distinct: "distinct (map fst (yearly_rows_written db ay))"
proof -
  have "map fst (yearly_rows_written db ay) = map fst (student_yearly_data db ay)"
    unfolding yearly_rows_written_closed by (rule map_keys_same) (simp add: y_with_rank_def)
  then show ?thesis by (simp add: student_yearly_data_distinct)
qed

lemma yearly_rows_written_ranked:
  "\<forall>kv\<in>set (yearly_rows_written db ay). y_grade_rank (snd kv) \<noteq> None"
  unfolding yearly_rows_written_closed by (auto simp: y_with_rank_def)

lemma yearly_compute_returns:
  "\<exists>db'. compute_and_store_yearly_results db ay = Inr db'"
  unfolding yearly_compute_as_store
  by (rule store_yearly_results_returns) (rule yearly_rows_written_ranked)

lemma yearly_rows_written_cohort:
  "cohort_by y_grade_id y_average_score (yearly_rows_written db ay) G
     = cohort_by y_grade_id y_average_score (student_yearly_data db ay) G"
  unfolding yearly_rows_written_closed
  by (rule cohort_by_map) (simp add: y_with_rank_def)

section \<open>Ranks by position and by pair\<close>

lemma rank_loop_hd:
  "xs \<noteq> [] \<Longrightarrow> snd (rank_loop i c p xs ! 0) = (if snd (xs ! 0) \<noteq> p then i + 1 else c)"
  by (cases xs) (auto simp: Let_def)

lemma rank_loop_step:
  "Suc j < length xs \<Longrightarrow>
   snd (rank_loop i c p xs ! Suc j) =
     (if snd (xs ! Suc j) \<noteq> snd (xs ! j) then i + Suc j + 1 else snd (rank_loop i c p xs ! j))"
proof (induction xs arbitrary: i c p j)
  case Nil
  then show ?case by simp
next
  case (Cons x xs)
  obtain s a where x: "x = (s, a)" by (cases x)
  let ?c' = "if a \<noteq> p then i + 1 else c"
  have unf: "rank_loop i c p (x # xs) = (s, ?c') # rank_loop (i + 1) ?c' a xs"
    using x by (simp add: Let_def)
  show ?case
  proof (cases j)
    case 0
    have "xs \<noteq> []" using Cons.prems 0 by auto
    then show ?thesis
      unfolding unf using 0 x rank_loop_hd[of xs "i + 1" ?c' a] by simp
  next
    case (Suc j')
    then have "Suc j' < length xs" using Cons.prems by simp
    from Cons.IH[OF this, of "i + 1" ?c' a] show ?thesis
      unfolding unf using Suc by simp
  qed
qed

lemma rank_loop_bound:
  "c \<le> i + 1 \<Longrightarrow> j < length xs \<Longrightarrow> snd (rank_loop i c p xs ! j) \<le> i + j + 1"
proof (induction xs arbitrary: i c p j)
  case Nil
  then show ?case by simp
next
  case (Cons x xs)
  obtain s a where x: "x = (s, a)" by (cases x)
  let ?c' = "if a \<noteq> p then i + 1 else c"
  have unf: "rank_loop i c p (x # xs) = (s, ?c') # rank_loop (i + 1) ?c' a xs"
    using x by (simp add: Let_def)
  have c': "?c' \<le> i + 1" using Cons.prems(1) by simp
  show ?case
  proof (cases j)
    case 0
    then show ?thesis unfolding unf using c' by simp
  next
    case (Suc j')
    then have "j' < length xs" using Cons.prems by simp
    moreover have "?c' \<le> (i + 1) + 1" using c' by simp
    ultimately have "snd (rank_loop (i + 1) ?c' a xs ! j') \<le> (i + 1) + j' + 1"
      by (rule Cons.IH[rotated])
    then show ?thesis unfolding unf using Suc by simp
  qed
qed

lemma sort_by_score_desc_length: "length (sort_by_score_desc xs) = length xs"
  by (simp add: sort_by_score_desc_def)

lemma rank_students_positions:
  assumes "j < length cohort"
  shows "(j = 0 \<longrightarrow> snd (rank_students cohort ! j) = 1)
       \<and> (0 < j \<longrightarrow>
            (snd (rank_students cohort ! j) = snd (rank_students cohort ! (j - 1))
               \<longleftrightarrow> snd (sort_by_score_desc cohort ! j) = snd (sort_by_score_desc cohort ! (j - 1)))
          \<and> (snd (sort_by_score_desc cohort ! j) \<noteq> snd (sort_by_score_desc cohort ! (j - 1))
               \<longrightarrow> snd (rank_students cohort ! j) = j + 1))"
proof (cases j)
  case 0
  have "sort_by_score_desc cohort \<noteq> []"
    using assms sort_by_score_desc_length[of cohort] by auto
  then show ?thesis
    using 0 rank_loop_hd[of "sort_by_score_desc cohort" 0 1 "- 1"]
    by (simp add: rank_students_def)
next
  case (Suc k)
  let ?S = "sort_by_score_desc cohort"
  have len: "Suc k < length ?S" using assms Suc by (simp add: sort_by_score_desc_length)
  have step: "snd (rank_loop 0 1 (- 1) ?S ! Suc k) =
     (if snd (?S ! Suc k) \<noteq> snd (?S ! k) then Suc k + 1 else snd (rank_loop 0 1 (- 1) ?S ! k))"
    using rank_loop_step[OF len, of 0 1 "- 1"] by simp
  have bound: "snd (rank_loop 0 1 (- 1) ?S ! k) \<le> k + 1"
    using rank_loop_bound[of 1 0 k ?S "- 1"] len by simp
  show ?thesis
    using Suc step bound by (auto simp: rank_students_def)
qed

lemma length_filter_mono:
  "(\<And>x. P x \<Longrightarrow> Q x) \<Longrightarrow> length (filter P xs) \<le> length (filter Q xs)"
  by (induction xs) auto

lemma competition_rank_mono: "b < a \<Longrightarrow> competition_rank cohort a \<le> competition_rank cohort b"
  unfolding competition_rank_def
  using length_filter_mono[of "\<lambda>y. a < snd y" "\<lambda>y. b < snd y" cohort] by simp

lemma rank_students_mem:
  "(k, a) \<in> set cohort \<Longrightarrow> (k, competition_rank cohort a) \<in> set (rank_students cohort)"
proof -
  assume "(k, a) \<in> set cohort"
  then have "(k, a) \<in> set (sort_by_score_desc cohort)" by (simp add: sort_by_score_desc_set)
  then show ?thesis unfolding rank_students_closed by force
qed

lemma yearly_rows_written_rank:
  assumes "(sid, data) \<in> set (yearly_rows_written db ay)"
  shows "y_grade_rank data =
         Some (competition_rank
                 (cohort_by y_grade_id y_average_score (yearly_rows_written db ay) (y_grade_id data))
                 (y_average_score data))"
  using assms unfolding yearly_rows_written_cohort
  by (auto simp: yearly_rows_written_closed y_with_rank_def)

lemma semester_rows_written_rank:
  assumes "(sid, data) \<in> set (semester_rows_written db ay sem)"
  shows "grade_rank data =
         Some (competition_rank
                 (cohort_by grade_id average_score (semester_rows_written db ay sem) (grade_id data))
                 (average_score data))"
  using semester_rows_written_values[OF assms] by simp

lemma semester_rank_pair:
  assumes "(A, dA) \<in> set (semester_rows_written db ay sem)"
      and "(B, dB) \<in> set (semester_rows_written db ay sem)"
      and "grade_id dA = grade_id dB"
  shows "(average_score dB < average_score dA \<longrightarrow> the (grade_rank dA) \<le> the (grade_rank dB))
       \<and> (average_score dA = average_score dB \<longrightarrow> the (grade_rank dA) = the (grade_rank dB))"
  using semester_rows_written_rank[OF assms(1)] semester_rows_written_rank[OF assms(2)] assms(3)
  by (auto simp: competition_rank_mono)

lemma yearly_rank_pair:
  assumes "(A, dA) \<in> set (yearly_rows_written db ay)"
      and "(B, dB) \<in> set (yearly_rows_written db ay)"
      and "y_grade_id dA = y_grade_id dB"
  shows "(y_average_score dB < y_average_score dA \<longrightarrow> the (y_grade_rank dA) \<le> the (y_grade_rank dB))
       \<and> (y_average_score dA = y_average_score dB \<longrightarrow> the (y_grade_rank dA) = the (y_grade_rank dB))"
  using yearly_rows_written_rank[OF assms(1)] yearly_rows_written_rank[OF assms(2)] assms(3)
  by (auto simp: competition_rank_mono)


section \<open>Exclusion, skipping and the frame of a semester run\<close>

lemma accumulate_subject_excluded:
  "snd (subject_totals db sid subj ay sem) \<le> 0 \<Longrightarrow>
   accumulate_subject db sid ay sem (subj, nm) acc = acc"
  by (simp add: accumulate_subject_def Let_def)

lemma fold_accumulate_skip:
  "snd (subject_totals db sid subj ay sem) \<le> 0 \<Longrightarrow>
   fold (accumulate_subject db sid ay sem) subs acc =
   fold (accumulate_subject db sid ay sem) (filter (\<lambda>s. fst s \<noteq> subj) subs) acc"
proof (induction subs arbitrary: acc)
  case Nil
  show ?case by simp
next
  case (Cons s subs)
  show ?case
  proof (cases "fst s = subj")
    case True
    then have "accumulate_subject db sid ay sem s acc = acc"
      using accumulate_subject_excluded[OF Cons.prems, of "snd s" acc] by (cases s) simp
    then show ?thesis using True Cons by simp
  next
    case False
    then show ?thesis using Cons by simp
  qed
qed

lemma filter_key_outside:
  "k \<notin> K \<Longrightarrow> filter (\<lambda>r. f r = k) xs = filter (\<lambda>r. f r = k) (filter (\<lambda>r. f r \<notin> K) xs)"
  by (induction xs) auto

lemma filter_pred_outside:
  "(\<And>r. P r \<Longrightarrow> f r \<notin> K) \<Longrightarrow> filter P xs = filter P (filter (\<lambda>r. f r \<notin> K) xs)"
  by (induction xs) auto

lemma semester_written_keys_image:
  "(\<lambda>kv. (fst kv, sem, ay)) ` set (semester_rows_written db ay sem) =
     {(sid, sem, ay) | sid. sid \<in> fst ` set (students_in_year db ay) \<and> \<not> skipped db ay sem sid}"
proof -
  have "(\<lambda>kv. (fst kv, sem, ay)) ` set (semester_rows_written db ay sem)
      = (\<lambda>sid. (sid, sem, ay)) ` fst ` set (semester_rows_written db ay sem)"
    by (simp add: image_image)
  then show ?thesis unfolding semester_rows_written_keys by auto
qed

lemma compute_frame:
  assumes "distinct (map sr_id (SemesterResults db))"
      and "compute_and_store_semester_results db ay sem = Inr db'"
      and "\<And>r. P r \<Longrightarrow> sr_semester_id r \<noteq> sem \<or> sr_academic_year_id r \<noteq> ay
              \<or> skipped db ay sem (sr_student_id r)
              \<or> sr_student_id r \<notin> fst ` set (students_in_year db ay)"
  shows "filter P (SemesterResults db') = filter P (SemesterResults db)"
proof -
  let ?K = "(\<lambda>kv. (fst kv, sem, ay)) ` set (semester_rows_written db ay sem)"
  have st: "store_semester_results (semester_rows_written db ay sem) ay sem db = Inr db'"
    using assms(2) by (simp add: compute_as_store)
  have out: "sr_key r \<notin> ?K" if "P r" for r
    using assms(3)[OF that] unfolding semester_written_keys_image by (auto simp: sr_key_def)
  have "filter P (SemesterResults db') = filter P (filter (\<lambda>r. sr_key r \<notin> ?K) (SemesterResults db'))"
    using out by (rule filter_pred_outside)
  also have "\<dots> = filter P (filter (\<lambda>r. sr_key r \<notin> ?K) (SemesterResults db))"
    using store_semester_results_frame[OF st assms(1)] by simp
  also have "\<dots> = filter P (SemesterResults db)"
    using out by (rule filter_pred_outside[symmetric])
  finally show ?thesis .
qed


lemma written_rows_count:
  assumes ids: "distinct (map sr_id (SemesterResults db))"
      and keys: "distinct (map sr_key (SemesterResults db))"
      and run: "compute_and_store_semester_results db ay sem = Inr db'"
  shows "length (filter (\<lambda>r. sr_semester_id r = sem \<and> sr_academic_year_id r = ay
                        \<and> sr_student_id r \<in> fst ` set (students_in_year db ay)
                        \<and> \<not> skipped db ay sem (sr_student_id r)) (SemesterResults db'))
         = length (semester_rows_written db ay sem)"
proof -
  let ?W = "semester_rows_written db ay sem"
  let ?K = "(\<lambda>kv. (fst kv, sem, ay)) ` set ?W"
  let ?P = "\<lambda>r. sr_semester_id r = sem \<and> sr_academic_year_id r = ay
                        \<and> sr_student_id r \<in> fst ` set (students_in_year db ay)
                        \<and> \<not> skipped db ay sem (sr_student_id r)"
  let ?F = "filter (\<lambda>r. sr_key r \<in> ?K) (SemesterResults db')"
  have st: "store_semester_results ?W ay sem db = Inr db'"
    using run by (simp add: compute_as_store)
  have P: "?P r \<longleftrightarrow> sr_key r \<in> ?K" for r
    unfolding semester_written_keys_image by (auto simp: sr_key_def)
  have F: "filter ?P (SemesterResults db') = ?F"
    by (rule filter_cong[OF refl]) (simp only: P)
  have dk: "distinct (map sr_key (SemesterResults db'))"
    using st ids keys by (rule store_semester_results_keys)
  then have dF: "distinct (map sr_key ?F)" by (rule distinct_map_filter)
  have sub: "set (map sr_key ?F) \<subseteq> ?K"
  proof
    fix k assume "k \<in> set (map sr_key ?F)"
    then obtain r where r: "r \<in> set ?F" "k = sr_key r" by auto
    from r(1) have "sr_key r \<in> ?K" by (simp only: set_filter mem_Collect_eq)
    then show "k \<in> ?K" using r(2) by (simp only:)
  qed
  have sup: "?K \<subseteq> set (map sr_key ?F)"
  proof
    fix k assume "k \<in> ?K"
    then obtain kv where kv: "kv \<in> set ?W" "k = (fst kv, sem, ay)" by blast
    then have "(fst kv, snd kv) \<in> set ?W" by simp
    from store_semester_results_get[OF st ids semester_rows_written_distinct this]
    obtain r where r: "get_semester_result_by_composite_keys db' (fst kv) sem ay = Some r" by blast
    then have "r \<in> set (SemesterResults db') \<and> sr_key r = (fst kv, sem, ay)"
      using find_Some_key[of sr_key "(fst kv, sem, ay)" "SemesterResults db'" r]
      by (simp add: get_semester_result_key)
    then have "r \<in> set ?F \<and> sr_key r = k" using kv by auto
    then show "k \<in> set (map sr_key ?F)" by force
  qed
  have "length ?F = length (map sr_key ?F)" by simp
  also have "\<dots> = card (set (map sr_key ?F))" using distinct_card[OF dF] by simp
  also have "\<dots> = card ?K" using subset_antisym[OF sub sup] by (simp only:)
  also have "\<dots> = card ((\<lambda>sid. (sid, sem, ay)) ` set (map fst ?W))"
    by (simp add: image_image)
  also have "\<dots> = card (set (map fst ?W))"
    by (rule card_image) (simp add: inj_on_def)
  also have "\<dots> = length (map fst ?W)"
    using semester_rows_written_distinct by (rule distinct_card)
  finally show ?thesis by (simp add: F)
qed

lemma scope_rows_are_written:
  assumes ids: "distinct (map sr_id (SemesterResults db))"
      and run: "compute_and_store_semester_results db ay sem = Inr db'"
      and fresh: "\<forall>r\<in>set (SemesterResults db). sr_semester_id r \<noteq> sem \<or> sr_academic_year_id r \<noteq> ay"
  shows "filter (\<lambda>r. sr_semester_id r = sem \<and> sr_academic_year_id r = ay) (SemesterResults db')
       = filter (\<lambda>r. sr_semester_id r = sem \<and> sr_academic_year_id r = ay
                        \<and> sr_student_id r \<in> fst ` set (students_in_year db ay)
                        \<and> \<not> skipped db ay sem (sr_student_id r)) (SemesterResults db')"
proof (rule filter_cong[OF refl])
  fix r assume rin: "r \<in> set (SemesterResults db')"
  let ?Q = "\<lambda>r. sr_semester_id r \<noteq> sem \<or> sr_academic_year_id r \<noteq> ay
                        \<or> skipped db ay sem (sr_student_id r)
                        \<or> sr_student_id r \<notin> fst ` set (students_in_year db ay)"
  have fr: "filter ?Q (SemesterResults db') = filter ?Q (SemesterResults db)"
    using ids run by (rule compute_frame)
  have "\<not> (sr_semester_id r = sem \<and> sr_academic_year_id r = ay \<and> ?Q r)"
  proof
    assume a: "sr_semester_id r = sem \<and> sr_academic_year_id r = ay \<and> ?Q r"
    then have "r \<in> set (filter ?Q (SemesterResults db'))" using rin by simp
    then have "r \<in> set (SemesterResults db)" unfolding fr by simp
    then show False using fresh a by blast
  qed
  then show "(sr_semester_id r = sem \<and> sr_academic_year_id r = ay) =
         (sr_semester_id r = sem \<and> sr_academic_year_id r = ay
                        \<and> sr_student_id r \<in> fst ` set (students_in_year db ay)
                        \<and> \<not> skipped db ay sem (sr_student_id r))"
    by blast
qed

lemma rows_written_length:
  assumes "distinct (map fst (students_in_year db ay))"
  shows "length (semester_rows_written db ay sem) =
              length (students_in_year db ay)
              - length (filter (\<lambda>s. skipped db ay sem (fst s)) (students_in_year db ay))"
proof (cases "students_in_year db ay = [] \<or> semester_exams db ay sem = []")
  case True
  then have w: "semester_rows_written db ay sem = []" by (auto simp: semester_rows_written_def)
  have "\<forall>s\<in>set (students_in_year db ay). skipped db ay sem (fst s)"
  proof
    fix s assume "s \<in> set (students_in_year db ay)"
    then have "students_in_year db ay \<noteq> []" by auto
    then have "semester_exams db ay sem = []" using True by simp
    then show "skipped db ay sem (fst s)" by (simp add: skipped_def no_semester_exams_counted)
  qed
  then have "filter (\<lambda>s. skipped db ay sem (fst s)) (students_in_year db ay) = students_in_year db ay"
    by simp
  then show ?thesis using w by simp
next
  case False
  then have "semester_rows_written db ay sem = ranked_semester_data db ay sem"
    by (simp add: semester_rows_written_def)
  then have "length (semester_rows_written db ay sem) = length (student_semester_data db ay sem)"
    using ranked_semester_data_keys[of db ay sem] by (metis length_map)
  then show ?thesis using student_semester_data_length[OF assms] by simp
qed

section \<open>A semester run reads the input tables only\<close>

lemma same_inputs_queries:
  assumes "same_inputs db' db"
  shows "students_in_year db' = students_in_year db"
    and "semester_exams db' = semester_exams db"
    and "student_exam_results db' = student_exam_results db"
    and "student_subjects_in_semester db' = student_subjects_in_semester db"
    and "subjects_with_results db' = subjects_with_results db"
    and "subject_results_like pat db' = subject_results_like pat db"
  using assms
  by (simp_all add: same_inputs_def fun_eq_iff students_in_year_def semester_exams_def
        student_exam_results_def student_subjects_in_semester_def subjects_with_results_def
        subject_results_like_def cong: if_cong)

lemma same_inputs_subject_totals:
  assumes "same_inputs db' db"
  shows "subject_totals db' = subject_totals db"
  by (auto simp: fun_eq_iff subject_totals_def sem_exam_result_def cat_results_def
        same_inputs_queries(6)[OF assms])

lemma same_inputs_semester_totals:
  assumes "same_inputs db' db"
  shows "semester_totals db' = semester_totals db"
proof -
  have acc: "accumulate_subject db' = accumulate_subject db"
    by (auto simp: fun_eq_iff accumulate_subject_def same_inputs_subject_totals[OF assms])
  show ?thesis
    by (simp only: fun_eq_iff semester_totals_def acc same_inputs_queries(5)[OF assms]) simp
qed

lemma same_inputs_compute_student:
  assumes "same_inputs db' db"
  shows "compute_student db' = compute_student db"
  by (auto simp: fun_eq_iff compute_student_def same_inputs_queries(3,4)[OF assms]
        same_inputs_semester_totals[OF assms])

lemma same_inputs_rows_written:
  assumes "same_inputs db' db"
  shows "semester_rows_written db' = semester_rows_written db"
proof -
  have sl: "student_loop db' = student_loop db"
    by (auto simp: fun_eq_iff student_loop_def same_inputs_compute_student[OF assms])
  have sd: "student_semester_data db' = student_semester_data db"
    by (simp only: fun_eq_iff student_semester_data_def sl same_inputs_queries(1)[OF assms]) simp
  have rd: "ranked_semester_data db' = ranked_semester_data db"
    by (simp only: fun_eq_iff ranked_semester_data_def sd same_inputs_queries(1)[OF assms]) simp
  show ?thesis
    by (simp only: fun_eq_iff semester_rows_written_def rd same_inputs_queries(1,2)[OF assms])
       simp
qed


section \<open>The yearly entry of a student\<close>

lemma filter_unique:
  "distinct (map f xs) \<Longrightarrow> x \<in> set xs \<Longrightarrow> filter (\<lambda>y. f x = f y) xs = [x]"
proof (induction xs)
  case Nil
  then show ?case by simp
next
  case (Cons a xs)
  show ?case
  proof (cases "x = a")
    case True
    have "f a \<notin> f ` set xs" using Cons.prems(1) by simp
    then have "filter (\<lambda>y. f a = f y) xs = []" by (auto simp: filter_empty_conv)
    then show ?thesis using True by simp
  next
    case False
    then have xin: "x \<in> set xs" using Cons.prems(2) by simp
    have "f a \<notin> f ` set xs" using Cons.prems(1) by simp
    then have "f x \<noteq> f a" using xin by (metis imageI)
    then show ?thesis using Cons xin by simp
  qed
qed

lemma join_row:
  "concat (map (\<lambda>s. if k = st_id s
                    then if c then [(k, t, v, st_current_grade_id s)] else []
                    else []) (ss :: student list))
     = (if c then map (\<lambda>s. (k, t, v, st_current_grade_id s)) (filter (\<lambda>s. k = st_id s) ss)
        else [])"
  by (induction ss) auto

lemma filter_fst_map: "filter (\<lambda>r. fst r = sid) (map (\<lambda>s. (k, g s)) xs) = (if k = sid then map (\<lambda>s. (k, g s)) xs else [])"
  by (induction xs) auto

lemma semester_results_data_rows:
  "filter (\<lambda>r. fst r = sid) (semester_results_data db ay) =
     concat (map (\<lambda>sr. map (\<lambda>s. (sid, sr_total_marks sr, sr_average_score sr,
                                   st_current_grade_id s))
                          (filter (\<lambda>s. sid = st_id s) (Students db)))
              (semester_results_of db sid ay))"
proof -
  have "filter (\<lambda>r. fst r = sid)
        (concat (map (\<lambda>sr. concat (map (\<lambda>s. if sr_student_id sr = st_id s
                          then if sr_academic_year_id sr = ay
                               then [(sr_student_id sr, sr_total_marks sr, sr_average_score sr,
                                      st_current_grade_id s)]
                               else []
                          else []) (Students db))) rows))
      = concat (map (\<lambda>sr. map (\<lambda>s. (sid, sr_total_marks sr, sr_average_score sr,
                                   st_current_grade_id s))
                          (filter (\<lambda>s. sid = st_id s) (Students db)))
              [sr \<leftarrow> rows. sr_student_id sr = sid \<and> sr_academic_year_id sr = ay])" for rows
  proof (induction rows)
    case Nil
    show ?case by simp
  next
    case (Cons a rows)
    have row: "filter (\<lambda>r. fst r = sid)
        (concat (map (\<lambda>s. if sr_student_id a = st_id s
                          then if sr_academic_year_id a = ay
                               then [(sr_student_id a, sr_total_marks a, sr_average_score a,
                                      st_current_grade_id s)]
                               else []
                          else []) (Students db)))
      = (if sr_student_id a = sid \<and> sr_academic_year_id a = ay
         then map (\<lambda>s. (sid, sr_total_marks a, sr_average_score a, st_current_grade_id s))
                (filter (\<lambda>s. sid = st_id s) (Students db))
         else [])"
      unfolding join_row by (simp add: filter_fst_map)
    show ?case
      unfolding list.map concat.simps filter_append row Cons.IH by simp
  qed
  then show ?thesis by (simp add: semester_results_data_def semester_results_of_def)
qed

lemma semester_results_data_rows_unique:
  assumes "distinct (map st_id (Students db))" and "s0 \<in> set (Students db)"
  shows "filter (\<lambda>r. fst r = st_id s0) (semester_results_data db ay) =
     map (\<lambda>sr. (st_id s0, sr_total_marks sr, sr_average_score sr, st_current_grade_id s0))
       (semester_results_of db (st_id s0) ay)"
proof -
  have "filter (\<lambda>s. st_id s0 = st_id s) (Students db) = [s0]"
    using assms by (rule filter_unique)
  then show ?thesis
    unfolding semester_results_data_rows
    by (induction "semester_results_of db (st_id s0) ay") simp_all
qed

lemma yearly_entry:
  assumes "distinct (map st_id (Students db))" and "s0 \<in> set (Students db)"
      and "semester_results_of db (st_id s0) ay \<noteq> []"
  shows "\<exists>d. (st_id s0, d) \<in> set (yearly_rows_written db ay)
           \<and> y_total_marks d = sum_list (map sr_total_marks (semester_results_of db (st_id s0) ay))
           \<and> y_average_score d =
               sum_list (map sr_average_score (semester_results_of db (st_id s0) ay))
               / real (length (semester_results_of db (st_id s0) ay))
           \<and> y_grade_id d = st_current_grade_id s0"
proof -
  let ?rows = "semester_results_of db (st_id s0) ay"
  let ?M = "map (\<lambda>sr. (st_id s0, sr_total_marks sr, sr_average_score sr, st_current_grade_id s0)) ?rows"
  let ?d0 = "finalize_yearly (add_sums (init_sums (st_current_grade_id s0)) ?M)"
  let ?D = "student_yearly_data db ay"
  have F: "filter (\<lambda>r. fst r = st_id s0) (semester_results_data db ay) = ?M"
    using assms(1,2) by (rule semester_results_data_rows_unique)
  obtain sr rest where rows: "?rows = sr # rest" using assms(3) by (cases ?rows) auto
  have "map_of ?D (st_id s0) = Some ?d0"
    unfolding student_yearly_data_lookup F by (simp add: rows)
  then have mem: "(st_id s0, ?d0) \<in> set ?D" by (rule map_of_SomeD)
  have "y_with_rank ?D (st_id s0, ?d0) \<in> set (yearly_rows_written db ay)"
    unfolding yearly_rows_written_closed using mem by simp
  then have w: "(st_id s0, snd (y_with_rank ?D (st_id s0, ?d0))) \<in> set (yearly_rows_written db ay)"
    by (simp add: y_with_rank_def)
  have len: "0 < length ?rows" using assms(3) by simp
  have t: "y_total_marks ?d0 = sum_list (map sr_total_marks ?rows)"
    by (simp add: finalize_yearly_def add_sums_def init_sums_def o_def)
  have a: "y_average_score ?d0 = sum_list (map sr_average_score ?rows) / real (length ?rows)"
    using len by (simp add: finalize_yearly_def add_sums_def init_sums_def o_def)
  have g: "y_grade_id ?d0 = st_current_grade_id s0"
    by (simp add: finalize_yearly_def add_sums_def init_sums_def)
  show ?thesis
    using w t a g by (intro exI[of _ "snd (y_with_rank ?D (st_id s0, ?d0))"]) (simp add: y_with_rank_def)
qed

lemma yearly_no_entry:
  assumes "semester_results_of db sid ay = []"
  shows "sid \<notin> fst ` set (yearly_rows_written db ay)"
proof -
  have "filter (\<lambda>r. fst r = sid) (semester_results_data db ay) = []"
    unfolding semester_results_data_rows assms by simp
  then have "map_of (student_yearly_data db ay) sid = None"
    unfolding student_yearly_data_lookup by simp
  then have "sid \<notin> fst ` set (student_yearly_data db ay)" by (simp add: map_of_eq_None_iff)
  moreover have "map fst (yearly_rows_written db ay) = map fst (student_yearly_data db ay)"
    unfolding yearly_rows_written_closed by (rule map_keys_same) (simp add: y_with_rank_def)
  ultimately show ?thesis by (metis set_map)
qed


section \<open>The names that the per-subject queries select\<close>



























section \<open>Sequences of store calls\<close>

lemma run_call_ok:
  assumes "store_ok db" and "run_call c db = Inr db'"
  shows "store_ok db'"
proof (cases c)
  case (AddSemesterResult s m a t v g)
  then have "db' = add_semester_result db s m a t v g" using assms(2) by simp
  then show ?thesis using assms(1)
    by (simp add: store_ok_def add_semester_result_ids add_semester_result_keys
          add_semester_result_other_tables)
next
  case (AddYearlyResult s a t v g)
  then have "db' = add_yearly_result db s a t v g" using assms(2) by simp
  then show ?thesis using assms(1)
    by (simp add: store_ok_def add_yearly_result_ids add_yearly_result_keys
          add_yearly_result_other_tables)
next
  case (ComputeSemesterResults a m)
  then have st: "store_semester_results (semester_rows_written db a m) a m db = Inr db'"
    using assms(2) by (simp add: compute_as_store)
  show ?thesis
    using assms(1) store_semester_results_ids[OF st] store_semester_results_keys[OF st]
      store_semester_results_other_tables[OF st]
    by (simp add: store_ok_def)
next
  case (ComputeYearlyResults a)
  then have st: "store_yearly_results (yearly_rows_written db a) a db = Inr db'"
    using assms(2) by (simp add: yearly_compute_as_store)
  show ?thesis
    using assms(1) store_yearly_results_ids[OF st] store_yearly_results_keys[OF st]
      store_yearly_results_other_tables[OF st]
    by (simp add: store_ok_def)
qed

lemma run_call_returns: "\<exists>db'. run_call c db = Inr db'"
  by (cases c) (simp_all add: compute_returns yearly_compute_returns)

lemma run_calls_ok: "store_ok db \<Longrightarrow> \<exists>db'. run_calls cs db = Inr db' \<and> store_ok db'"
proof (induction cs arbitrary: db)
  case Nil
  then show ?case by simp
next
  case (Cons c cs)
  obtain db1 where db1: "run_call c db = Inr db1" using run_call_returns by blast
  then have "store_ok db1" using Cons.prems run_call_ok by blast
  then show ?case using Cons.IH[of db1] db1 by simp
qed


section \<open>Evaluation of the example databases\<close>

lemma class_db_semester_rows:
  "semester_rows_written class_db 1 1 =
     [(1, \<lparr>total_marks = 90, average_score = 90, grade_id = 1, grade_rank = Some 1\<rparr>),
      (2, \<lparr>total_marks = 80, average_score = 80, grade_id = 1, grade_rank = Some 3\<rparr>),
      (3, \<lparr>total_marks = 90, average_score = 90, grade_id = 1, grade_rank = Some 1\<rparr>)]"
  by code_simp

lemma class_db_yearly_rows:
  "yearly_rows_written class_db 1 =
     [(4, \<lparr>total_marks_sum = 55, average_score_sum = 55, num_semesters = 1,
           y_grade_id = 1, y_total_marks = 55, y_average_score = 55, y_grade_rank = Some 2\<rparr>),
      (1, \<lparr>total_marks_sum = 70, average_score_sum = 70, num_semesters = 1,
           y_grade_id = 1, y_total_marks = 70, y_average_score = 70, y_grade_rank = Some 1\<rparr>)]"
  by code_simp

lemma class_db_ids:
  "distinct (map sr_id (SemesterResults class_db))" "distinct (map yr_id (YearlyResults class_db))"
  by code_simp+


lemma math_db_counted: "counted_subjects math_db 1 1 1 = [1]"
  by code_simp

lemma math_db_achieved: "subject_achieved math_db 1 1 1 1 = 193 / 2"
  by code_simp

lemma math_db_possible: "subject_possible math_db 1 1 1 1 = 130"
  by code_simp


lemma quiz_db_science: "snd (subject_totals quiz_db 1 2 1 1) = 0"
  by code_simp

lemma quiz_db_totals: "semester_totals quiz_db 1 1 1 = (193 / 2, 130, 1)"
  by code_simp

lemma class_db_skipped: "skipped class_db 1 1 4"
  by code_simp

lemma class_db_constraints:
  "distinct (map st_id (Students class_db))"
  "distinct (map (\<lambda>e. (en_student_id e, en_academic_year_id e)) (Enrollments class_db))"
  by code_simp+


lemma year_db_constraints:
  "distinct (map st_id (Students year_db))" "distinct (map yr_id (YearlyResults year_db))"
  by code_simp+

lemma year_db_rows:
  "map sr_id (semester_results_of year_db 1 1) = [1, 3]"
  "sum_list (map sr_total_marks (semester_results_of year_db 1 1)) = 176.5"
  "sum_list (map sr_average_score (semester_results_of year_db 1 1)) = 154"
  "length (semester_results_of year_db 1 1) = 2"
  "semester_results_of year_db 3 1 = []"
  "\<lparr>st_id = 1, st_current_grade_id = 1\<rparr> \<in> set (Students year_db)"
  by code_simp+


lemma class_db_keys: "distinct (map sr_key (SemesterResults class_db))"
  by code_simp

lemma class_db_counts:
  "length (students_in_year class_db 1) = 4"
  "length (filter (\<lambda>s. skipped class_db 1 1 (fst s)) (students_in_year class_db 1)) = 1"
  by code_simp+

lemma math_db_constraints:
  "distinct (map st_id (Students math_db))"
  "distinct (map (\<lambda>e. (en_student_id e, en_academic_year_id e)) (Enrollments math_db))"
  "distinct (map sr_id (SemesterResults math_db))"
  "distinct (map sr_key (SemesterResults math_db))"
  by code_simp+

lemma math_db_counts:
  "length (students_in_year math_db 1) = 1"
  "length (filter (\<lambda>s. skipped math_db 1 1 (fst s)) (students_in_year math_db 1)) = 0"
  by code_simp+

lemma retake_db_counted: "counted_subjects retake_db 1 1 1 = [1]"
  by code_simp

lemma retake_db_achieved: "subject_achieved retake_db 1 1 1 1 = 70"
  by code_simp

lemma retake_db_possible: "subject_possible retake_db 1 1 1 1 = 100"
  by code_simp

lemma retake_db_sem_exam: "sem_exam_result retake_db 1 1 1 1 = Some (70, 100)"
  by code_simp

lemma retake_db_constraints:
  "distinct (map sr_id (SemesterResults retake_db))"
  "(1, 1) \<in> set (students_in_year retake_db 1)"
  by code_simp+

lemma math_db_enrolled: "(1, 1) \<in> set (students_in_year math_db 1)"
  by code_simp






section \<open>The claims\<close>

text \<open>
  C9. After any sequence of \<^verbatim>\<open>add_semester_result\<close> and \<^verbatim>\<open>add_yearly_result\<close>
  calls, the two compute-and-store entry points included, a store that started
  within its constraints holds at most one SemesterResult row per (student,
  semester, academic year) and at most one YearlyResult row per (student, academic
  year). A single call inserts one row when no row has the key, and otherwise
  leaves the ids and keys of the table as they are; either way the row found
  under the key afterwards carries the values passed in.
\<close>

theorem at_most_one_row_per_key:
  assumes "store_ok db"
  shows "(\<exists>db'. run_calls calls db = Inr db' \<and> store_ok db')
       \<and> (if (s, m, a) \<in> set (map sr_key (SemesterResults db))
          then map sr_id (SemesterResults (add_semester_result db s m a t v g))
                 = map sr_id (SemesterResults db)
             \<and> map sr_key (SemesterResults (add_semester_result db s m a t v g))
                 = map sr_key (SemesterResults db)
          else SemesterResults (add_semester_result db s m a t v g)
                 = SemesterResults db @
                    [\<lparr>sr_id = next_id (map sr_id (SemesterResults db)) (SemesterResults_seq db),
                      sr_student_id = s, sr_semester_id = m, sr_academic_year_id = a,
                      sr_total_marks = t, sr_average_score = v, sr_grade_rank = g\<rparr>])
       \<and> (\<exists>r. get_semester_result_by_composite_keys (add_semester_result db s m a t v g) s m a
                 = Some r \<and> sr_vals r = (t, v, g))
       \<and> (if (s, a) \<in> set (map yr_key (YearlyResults db))
          then map yr_id (YearlyResults (add_yearly_result db s a t v g))
                 = map yr_id (YearlyResults db)
             \<and> map yr_key (YearlyResults (add_yearly_result db s a t v g))
                 = map yr_key (YearlyResults db)
          else YearlyResults (add_yearly_result db s a t v g)
                 = YearlyResults db @
                    [\<lparr>yr_id = next_id (map yr_id (YearlyResults db)) (YearlyResults_seq db),
                      yr_student_id = s, yr_academic_year_id = a,
                      yr_total_marks = t, yr_average_score = v, yr_grade_rank = g\<rparr>])
       \<and> (\<exists>r. get_yearly_result_by_composite_keys (add_yearly_result db s a t v g) s a
                 = Some r \<and> yr_vals r = (t, v, g))"
proof -
  have ids: "distinct (map sr_id (SemesterResults db))" "distinct (map yr_id (YearlyResults db))"
    using assms by (simp_all add: store_ok_def)
  have 1: "\<exists>db'. run_calls calls db = Inr db' \<and> store_ok db'"
    using assms by (rule run_calls_ok)
  have 2: "(if (s, m, a) \<in> set (map sr_key (SemesterResults db))
          then map sr_id (SemesterResults (add_semester_result db s m a t v g))
                 = map sr_id (SemesterResults db)
             \<and> map sr_key (SemesterResults (add_semester_result db s m a t v g))
                 = map sr_key (SemesterResults db)
          else SemesterResults (add_semester_result db s m a t v g)
                 = SemesterResults db @
                    [\<lparr>sr_id = next_id (map sr_id (SemesterResults db)) (SemesterResults_seq db),
                      sr_student_id = s, sr_semester_id = m, sr_academic_year_id = a,
                      sr_total_marks = t, sr_average_score = v, sr_grade_rank = g\<rparr>])"
    using add_semester_result_update_maps(1,2)[OF ids(1)] add_semester_result_insert[of s m a db t v g]
    by (simp del: set_map)
  have 3: "(if (s, a) \<in> set (map yr_key (YearlyResults db))
          then map yr_id (YearlyResults (add_yearly_result db s a t v g))
                 = map yr_id (YearlyResults db)
             \<and> map yr_key (YearlyResults (add_yearly_result db s a t v g))
                 = map yr_key (YearlyResults db)
          else YearlyResults (add_yearly_result db s a t v g)
                 = YearlyResults db @
                    [\<lparr>yr_id = next_id (map yr_id (YearlyResults db)) (YearlyResults_seq db),
                      yr_student_id = s, yr_academic_year_id = a,
                      yr_total_marks = t, yr_average_score = v, yr_grade_rank = g\<rparr>])"
    using add_yearly_result_update_maps(1,2)[OF ids(2)] add_yearly_result_insert[of s a db t v g]
    by (simp del: set_map)
  show ?thesis
    using 1 2 3 add_semester_result_get_same[of db s m a t v g]
      add_yearly_result_get_same[of db s a t v g]
    by (intro conjI)
qed

theorem at_most_one_row_per_key_witness:
  "store_ok class_db
   \<and> (\<exists>db'. run_calls [ComputeSemesterResults 1 1, ComputeYearlyResults 1,
                        AddSemesterResult 4 1 1 60 60 2, AddYearlyResult 4 1 60 60 2] class_db
               = Inr db' \<and> store_ok db')
   \<and> map sr_key (SemesterResults (add_semester_result class_db 4 1 1 60 60 2))
        = [(4, 1, 1), (1, 2, 1)]
   \<and> map yr_key (YearlyResults (add_yearly_result class_db 4 1 60 60 2)) = [(4, 1)]"
proof -
  have h: "store_ok class_db" by code_simp
  have k: "(4, 1, 1) \<in> set (map sr_key (SemesterResults class_db))"
          "(4, 1) \<notin> set (map yr_key (YearlyResults class_db))"
          "map sr_key (SemesterResults class_db) = [(4, 1, 1), (1, 2, 1)]"
          "YearlyResults class_db = []"
    by code_simp+
  show ?thesis
    using h k at_most_one_row_per_key[OF h,
        of "[ComputeSemesterResults 1 1, ComputeYearlyResults 1,
             AddSemesterResult 4 1 1 60 60 2, AddYearlyResult 4 1 60 60 2]" 4 1 1 60 60 2]
    by (simp add: yr_key_def)
qed

text \<open>
  C2. The ranking of a cohort by either compute-and-store entry point is
  competition ranking. The cohort is sorted by descending average score; the
  student at position 0 of the sorted list receives rank 1; a student at a later
  position receives the rank of the student before exactly when the two scores
  are equal, and otherwise the 1-based position. Every entry that a semester or a
  yearly run stores carries the rank that this procedure gives its student within
  the cohort of the entry's grade. For the scores 90, 90, 80 the ranks are 1, 1, 3.
\<close>

theorem competition_ranking:
  "(\<forall>j<length cohort.
      (j = 0 \<longrightarrow> snd (rank_students cohort ! j) = 1)
      \<and> (0 < j \<longrightarrow>
            (snd (rank_students cohort ! j) = snd (rank_students cohort ! (j - 1))
               \<longleftrightarrow> snd (sort_by_score_desc cohort ! j) = snd (sort_by_score_desc cohort ! (j - 1)))
          \<and> (snd (sort_by_score_desc cohort ! j) \<noteq> snd (sort_by_score_desc cohort ! (j - 1))
               \<longrightarrow> snd (rank_students cohort ! j) = j + 1)))
   \<and> sorted_wrt (\<lambda>x y. snd x \<ge> snd y) (sort_by_score_desc cohort)
   \<and> set (sort_by_score_desc cohort) = set cohort
   \<and> map fst (rank_students cohort) = map fst (sort_by_score_desc cohort)
   \<and> ((sid, data) \<in> set (semester_rows_written db ay sem) \<longrightarrow>
        (\<exists>r. grade_rank data = Some r
           \<and> (sid, r) \<in> set (rank_students
                 (cohort_by grade_id average_score (semester_rows_written db ay sem)
                    (grade_id data)))))
   \<and> ((sid, ydata) \<in> set (yearly_rows_written db ay) \<longrightarrow>
        (\<exists>r. y_grade_rank ydata = Some r
           \<and> (sid, r) \<in> set (rank_students
                 (cohort_by y_grade_id y_average_score (yearly_rows_written db ay)
                    (y_grade_id ydata)))))
   \<and> rank_students [(1, 90), (2, 90), (3, 80)] = [(1, 1), (2, 1), (3, 3)]"
proof (intro conjI)
  show "\<forall>j<length cohort.
      (j = 0 \<longrightarrow> snd (rank_students cohort ! j) = 1)
      \<and> (0 < j \<longrightarrow>
            (snd (rank_students cohort ! j) = snd (rank_students cohort ! (j - 1))
               \<longleftrightarrow> snd (sort_by_score_desc cohort ! j) = snd (sort_by_score_desc cohort ! (j - 1)))
          \<and> (snd (sort_by_score_desc cohort ! j) \<noteq> snd (sort_by_score_desc cohort ! (j - 1))
               \<longrightarrow> snd (rank_students cohort ! j) = j + 1))"
    using rank_students_positions by blast
  show "sorted_wrt (\<lambda>x y. snd x \<ge> snd y) (sort_by_score_desc cohort)"
    by (rule sort_by_score_desc_sorted)
  show "set (sort_by_score_desc cohort) = set cohort" by (rule sort_by_score_desc_set)
  show "map fst (rank_students cohort) = map fst (sort_by_score_desc cohort)"
    by (simp add: rank_students_def rank_loop_fst)
  show "(sid, data) \<in> set (semester_rows_written db ay sem) \<longrightarrow>
        (\<exists>r. grade_rank data = Some r
           \<and> (sid, r) \<in> set (rank_students
                 (cohort_by grade_id average_score (semester_rows_written db ay sem)
                    (grade_id data))))"
  proof
    assume a: "(sid, data) \<in> set (semester_rows_written db ay sem)"
    then have "(sid, average_score data)
        \<in> set (cohort_by grade_id average_score (semester_rows_written db ay sem) (grade_id data))"
      unfolding cohort_by_set by blast
    then show "\<exists>r. grade_rank data = Some r
           \<and> (sid, r) \<in> set (rank_students
                 (cohort_by grade_id average_score (semester_rows_written db ay sem)
                    (grade_id data)))"
      using semester_rows_written_rank[OF a] rank_students_mem by blast
  qed
  show "(sid, ydata) \<in> set (yearly_rows_written db ay) \<longrightarrow>
        (\<exists>r. y_grade_rank ydata = Some r
           \<and> (sid, r) \<in> set (rank_students
                 (cohort_by y_grade_id y_average_score (yearly_rows_written db ay)
                    (y_grade_id ydata))))"
  proof
    assume a: "(sid, ydata) \<in> set (yearly_rows_written db ay)"
    then have "(sid, y_average_score ydata)
        \<in> set (cohort_by y_grade_id y_average_score (yearly_rows_written db ay) (y_grade_id ydata))"
      unfolding cohort_by_set by blast
    then show "\<exists>r. y_grade_rank ydata = Some r
           \<and> (sid, r) \<in> set (rank_students
                 (cohort_by y_grade_id y_average_score (yearly_rows_written db ay)
                    (y_grade_id ydata)))"
      using yearly_rows_written_rank[OF a] rank_students_mem by blast
  qed
  show "rank_students [(1, 90), (2, 90), (3, 80)] = [(1, 1), (2, 1), (3, 3)]"
    by code_simp
qed

theorem competition_ranking_witness:
  "map (\<lambda>kv. (fst kv, average_score (snd kv), grade_rank (snd kv)))
       (semester_rows_written class_db 1 1)
     = [(1, 90, Some 1), (2, 80, Some 3), (3, 90, Some 1)]
   \<and> sort_by_score_desc [(1, 90), (2, 80), (3, 90)] = [(1, 90), (3, 90), (2, 80)]
   \<and> snd (rank_students [(1, 90), (2, 80), (3, 90)] ! 0) = 1
   \<and> snd (rank_students [(1, 90), (2, 80), (3, 90)] ! 1) = snd (rank_students [(1, 90), (2, 80), (3, 90)] ! 0)
   \<and> snd (rank_students [(1, 90), (2, 80), (3, 90)] ! 2) = 3
   \<and> (2, 3) \<in> set (rank_students [(1, 90), (2, 80), (3, 90)])"
proof -
  let ?c = "[(1, 90), (2, 80), (3, 90)] :: (nat \<times> real) list"
  let ?d = "\<lparr>total_marks = 80, average_score = 80, grade_id = 1, grade_rank = Some 3\<rparr>"
  have rows: "semester_rows_written class_db 1 1 =
     [(1, \<lparr>total_marks = 90, average_score = 90, grade_id = 1, grade_rank = Some 1\<rparr>),
      (2, ?d),
      (3, \<lparr>total_marks = 90, average_score = 90, grade_id = 1, grade_rank = Some 1\<rparr>)]"
    by (rule class_db_semester_rows)
  have srt: "sort_by_score_desc ?c = [(1, 90), (3, 90), (2, 80)]" by code_simp
  have coh: "cohort_by grade_id average_score (semester_rows_written class_db 1 1) 1 = ?c"
    unfolding rows by (simp add: cohort_by_def)
  have mem: "(2, ?d) \<in> set (semester_rows_written class_db 1 1)" unfolding rows by simp
  note inst = competition_ranking[of ?c 2 ?d class_db 1 1
      "\<lparr>total_marks_sum = 0, average_score_sum = 0, num_semesters = 0, y_grade_id = 0,
        y_total_marks = 0, y_average_score = 0, y_grade_rank = None\<rparr>"]
  note pos = inst[THEN conjunct1, rule_format]
  note sem = inst[THEN conjunct2, THEN conjunct2, THEN conjunct2, THEN conjunct2,
                  THEN conjunct1, rule_format]
  have p0: "snd (rank_students ?c ! 0) = 1" using pos[of 0] by simp
  have p1: "snd (rank_students ?c ! 1) = snd (rank_students ?c ! 0)"
    using pos[of 1] srt by simp
  have p2: "snd (rank_students ?c ! 2) = 3"
    using pos[of 2] srt by simp
  have m: "(2, 3) \<in> set (rank_students ?c)"
    using sem[OF mem] coh by simp
  show ?thesis using rows srt p0 p1 p2 m by simp
qed

text \<open>
  C8. For two students A and B that one run ranks in the same grade, semester or
  yearly: in the rows stored for them, a strictly greater average score of A gives
  A a rank less than or equal to that of B, and equal average scores give equal
  ranks.
\<close>

theorem rank_monotone:
  assumes "distinct (map sr_id (SemesterResults db))"
      and "distinct (map yr_id (YearlyResults db))"
  shows "(compute_and_store_semester_results db ay sem = Inr db1
          \<and> (A, dA) \<in> set (semester_rows_written db ay sem)
          \<and> (B, dB) \<in> set (semester_rows_written db ay sem)
          \<and> grade_id dA = grade_id dB \<longrightarrow>
          (\<exists>rA rB. get_semester_result_by_composite_keys db1 A sem ay = Some rA
             \<and> get_semester_result_by_composite_keys db1 B sem ay = Some rB
             \<and> sr_average_score rA = average_score dA \<and> sr_average_score rB = average_score dB
             \<and> (sr_average_score rB < sr_average_score rA \<longrightarrow> sr_grade_rank rA \<le> sr_grade_rank rB)
             \<and> (sr_average_score rA = sr_average_score rB \<longrightarrow> sr_grade_rank rA = sr_grade_rank rB)))
       \<and> (compute_and_store_yearly_results db ay = Inr db2
          \<and> (A, yA) \<in> set (yearly_rows_written db ay)
          \<and> (B, yB) \<in> set (yearly_rows_written db ay)
          \<and> y_grade_id yA = y_grade_id yB \<longrightarrow>
          (\<exists>rA rB. get_yearly_result_by_composite_keys db2 A ay = Some rA
             \<and> get_yearly_result_by_composite_keys db2 B ay = Some rB
             \<and> yr_average_score rA = y_average_score yA \<and> yr_average_score rB = y_average_score yB
             \<and> (yr_average_score rB < yr_average_score rA \<longrightarrow> yr_grade_rank rA \<le> yr_grade_rank rB)
             \<and> (yr_average_score rA = yr_average_score rB \<longrightarrow> yr_grade_rank rA = yr_grade_rank rB)))"
proof (intro conjI impI)
  assume a: "compute_and_store_semester_results db ay sem = Inr db1
          \<and> (A, dA) \<in> set (semester_rows_written db ay sem)
          \<and> (B, dB) \<in> set (semester_rows_written db ay sem)
          \<and> grade_id dA = grade_id dB"
  then have st: "store_semester_results (semester_rows_written db ay sem) ay sem db = Inr db1"
    by (simp add: compute_as_store)
  obtain rA where rA: "get_semester_result_by_composite_keys db1 A sem ay = Some rA"
      "sr_vals rA = data_vals dA"
    using store_semester_results_get[OF st assms(1) semester_rows_written_distinct] a by blast
  obtain rB where rB: "get_semester_result_by_composite_keys db1 B sem ay = Some rB"
      "sr_vals rB = data_vals dB"
    using store_semester_results_get[OF st assms(1) semester_rows_written_distinct] a by blast
  have "(average_score dB < average_score dA \<longrightarrow> the (grade_rank dA) \<le> the (grade_rank dB))
       \<and> (average_score dA = average_score dB \<longrightarrow> the (grade_rank dA) = the (grade_rank dB))"
    using semester_rank_pair a by blast
  then show "\<exists>rA rB. get_semester_result_by_composite_keys db1 A sem ay = Some rA
             \<and> get_semester_result_by_composite_keys db1 B sem ay = Some rB
             \<and> sr_average_score rA = average_score dA \<and> sr_average_score rB = average_score dB
             \<and> (sr_average_score rB < sr_average_score rA \<longrightarrow> sr_grade_rank rA \<le> sr_grade_rank rB)
             \<and> (sr_average_score rA = sr_average_score rB \<longrightarrow> sr_grade_rank rA = sr_grade_rank rB)"
    using rA rB by (simp add: sr_vals_def data_vals_def)
next
  assume a: "compute_and_store_yearly_results db ay = Inr db2
          \<and> (A, yA) \<in> set (yearly_rows_written db ay)
          \<and> (B, yB) \<in> set (yearly_rows_written db ay)
          \<and> y_grade_id yA = y_grade_id yB"
  then have st: "store_yearly_results (yearly_rows_written db ay) ay db = Inr db2"
    by (simp add: yearly_compute_as_store)
  obtain rA where rA: "get_yearly_result_by_composite_keys db2 A ay = Some rA"
      "yr_vals rA = y_data_vals yA"
    using store_yearly_results_get[OF st assms(2) yearly_rows_written_distinct] a by blast
  obtain rB where rB: "get_yearly_result_by_composite_keys db2 B ay = Some rB"
      "yr_vals rB = y_data_vals yB"
    using store_yearly_results_get[OF st assms(2) yearly_rows_written_distinct] a by blast
  have "(y_average_score yB < y_average_score yA \<longrightarrow> the (y_grade_rank yA) \<le> the (y_grade_rank yB))
       \<and> (y_average_score yA = y_average_score yB \<longrightarrow> the (y_grade_rank yA) = the (y_grade_rank yB))"
    using yearly_rank_pair a by blast
  then show "\<exists>rA rB. get_yearly_result_by_composite_keys db2 A ay = Some rA
             \<and> get_yearly_result_by_composite_keys db2 B ay = Some rB
             \<and> yr_average_score rA = y_average_score yA \<and> yr_average_score rB = y_average_score yB
             \<and> (yr_average_score rB < yr_average_score rA \<longrightarrow> yr_grade_rank rA \<le> yr_grade_rank rB)
             \<and> (yr_average_score rA = yr_average_score rB \<longrightarrow> yr_grade_rank rA = yr_grade_rank rB)"
    using rA rB by (simp add: yr_vals_def y_data_vals_def)
qed

theorem rank_monotone_witness:
  "(\<exists>db1 rA rB. compute_and_store_semester_results class_db 1 1 = Inr db1
      \<and> get_semester_result_by_composite_keys db1 1 1 1 = Some rA
      \<and> get_semester_result_by_composite_keys db1 2 1 1 = Some rB
      \<and> sr_average_score rA = 90 \<and> sr_average_score rB = 80
      \<and> sr_grade_rank rA \<le> sr_grade_rank rB)
   \<and> (\<exists>db2 rA rB. compute_and_store_yearly_results class_db 1 = Inr db2
      \<and> get_yearly_result_by_composite_keys db2 1 1 = Some rA
      \<and> get_yearly_result_by_composite_keys db2 4 1 = Some rB
      \<and> yr_average_score rA = 70 \<and> yr_average_score rB = 55
      \<and> yr_grade_rank rA \<le> yr_grade_rank rB)"
proof
  let ?dA = "\<lparr>total_marks = 90, average_score = 90, grade_id = 1, grade_rank = Some 1\<rparr>"
  let ?dB = "\<lparr>total_marks = 80, average_score = 80, grade_id = 1, grade_rank = Some 3\<rparr>"
  obtain db1 where db1: "compute_and_store_semester_results class_db 1 1 = Inr db1"
    using compute_returns by blast
  have "compute_and_store_semester_results class_db 1 1 = Inr db1
          \<and> (1, ?dA) \<in> set (semester_rows_written class_db 1 1)
          \<and> (2, ?dB) \<in> set (semester_rows_written class_db 1 1)
          \<and> grade_id ?dA = grade_id ?dB"
    using db1 unfolding class_db_semester_rows by simp
  from rank_monotone[OF class_db_ids, THEN conjunct1, rule_format, OF this]
  show "\<exists>db1 rA rB. compute_and_store_semester_results class_db 1 1 = Inr db1
      \<and> get_semester_result_by_composite_keys db1 1 1 1 = Some rA
      \<and> get_semester_result_by_composite_keys db1 2 1 1 = Some rB
      \<and> sr_average_score rA = 90 \<and> sr_average_score rB = 80
      \<and> sr_grade_rank rA \<le> sr_grade_rank rB"
    using db1 by auto
next
  let ?yA = "\<lparr>total_marks_sum = 70, average_score_sum = 70, num_semesters = 1,
           y_grade_id = 1, y_total_marks = 70, y_average_score = 70, y_grade_rank = Some 1\<rparr>"
  let ?yB = "\<lparr>total_marks_sum = 55, average_score_sum = 55, num_semesters = 1,
           y_grade_id = 1, y_total_marks = 55, y_average_score = 55, y_grade_rank = Some 2\<rparr>"
  obtain db2 where db2: "compute_and_store_yearly_results class_db 1 = Inr db2"
    using yearly_compute_returns by blast
  have "compute_and_store_yearly_results class_db 1 = Inr db2
          \<and> (1, ?yA) \<in> set (yearly_rows_written class_db 1)
          \<and> (4, ?yB) \<in> set (yearly_rows_written class_db 1)
          \<and> y_grade_id ?yA = y_grade_id ?yB"
    using db2 unfolding class_db_yearly_rows by simp
  from rank_monotone[OF class_db_ids, THEN conjunct2, rule_format, OF this]
  show "\<exists>db2 rA rB. compute_and_store_yearly_results class_db 1 = Inr db2
      \<and> get_yearly_result_by_composite_keys db2 1 1 = Some rA
      \<and> get_yearly_result_by_composite_keys db2 4 1 = Some rB
      \<and> yr_average_score rA = 70 \<and> yr_average_score rB = 55
      \<and> yr_grade_rank rA \<le> yr_grade_rank rB"
    using db2 by auto
qed

text \<open>
  C1. For every student enrolled in the academic year who has at least one counted
  subject, the run stores a row whose total marks are the sum, over the counted
  subjects, of the semester-exam marks (0 if absent) plus the mean of the CAT
  marks (0 if none); the summed possible marks (semester-exam maximum, 0 if
  absent, plus the mean of the CAT maxima, 0 if none) are positive, and the stored
  average score is the summed achieved over the summed possible marks, times 100.
  The semester-exam score of a subject is the student's score in an exam of the
  scope whose name matches \<^verbatim>\<open>%Semester%Exam%\<close>; when there are several, it is the
  one of the exam with the least id, whatever the order in which the scores were
  entered. For the student with only Mathematics scores 70/100, 25/30 and 28/30
  the stored total is 96.5 and the average is 96.5 / 130 * 100, about 74.23; for
  the student with 40/50 in the exam with id 2 and 70/100 in the exam with id 1
  the stored total is 70 and the average is 70.
\<close>

theorem semester_totals_and_average:
  assumes "distinct (map sr_id (SemesterResults db))"
      and "(sid, g) \<in> set (students_in_year db ay)"
      and "counted_subjects db sid ay sem \<noteq> []"
  shows "\<exists>db' r. compute_and_store_semester_results db ay sem = Inr db'
           \<and> get_semester_result_by_composite_keys db' sid sem ay = Some r
           \<and> sr_total_marks r =
               sum_list (map (\<lambda>subj. subject_achieved db sid subj ay sem)
                          (counted_subjects db sid ay sem))
           \<and> 0 < sum_list (map (\<lambda>subj. subject_possible db sid subj ay sem)
                          (counted_subjects db sid ay sem))
           \<and> sr_average_score r =
               sum_list (map (\<lambda>subj. subject_achieved db sid subj ay sem)
                          (counted_subjects db sid ay sem))
               / sum_list (map (\<lambda>subj. subject_possible db sid subj ay sem)
                          (counted_subjects db sid ay sem)) * 100
           \<and> (\<forall>subj row. sem_exam_result db sid subj ay sem = Some row \<longrightarrow>
                (\<exists>er e. in_scope db sid ay sem er e \<and> er_subject_id er = subj
                   \<and> like ''%Semester%Exam%'' (ex_name e)
                   \<and> row = (er_marks er, ex_max_marks e)
                   \<and> (\<forall>er' e'. in_scope db sid ay sem er' e' \<and> er_subject_id er' = subj
                         \<and> like ''%Semester%Exam%'' (ex_name e') \<longrightarrow> ex_id e \<le> ex_id e')))"
proof -
  obtain db' where db': "compute_and_store_semester_results db ay sem = Inr db'"
    using compute_returns by blast
  then have st: "store_semester_results (semester_rows_written db ay sem) ay sem db = Inr db'"
    by (simp add: compute_as_store)
  have "\<not> skipped db ay sem sid"
    using assms(3) counted_imp_subjects subjects_imp_results by (auto simp: skipped_def)
  moreover have "sid \<in> fst ` set (students_in_year db ay)" using assms(2) by force
  ultimately have "sid \<in> fst ` set (semester_rows_written db ay sem)"
    by (simp add: semester_rows_written_keys)
  then obtain data where data: "(sid, data) \<in> set (semester_rows_written db ay sem)" by auto
  obtain r where r: "get_semester_result_by_composite_keys db' sid sem ay = Some r"
      "sr_vals r = data_vals data"
    using store_semester_results_get[OF st assms(1) semester_rows_written_distinct data] by blast
  have vals: "sr_total_marks r =
               sum_list (map (\<lambda>subj. subject_achieved db sid subj ay sem)
                          (counted_subjects db sid ay sem))"
      "sr_average_score r =
               sum_list (map (\<lambda>subj. subject_achieved db sid subj ay sem)
                          (counted_subjects db sid ay sem))
               / sum_list (map (\<lambda>subj. subject_possible db sid subj ay sem)
                          (counted_subjects db sid ay sem)) * 100"
    using r(2) semester_rows_written_values[OF data]
    by (auto simp: sr_vals_def data_vals_def)
  have least: "\<forall>subj row. sem_exam_result db sid subj ay sem = Some row \<longrightarrow>
                (\<exists>er e. in_scope db sid ay sem er e \<and> er_subject_id er = subj
                   \<and> like ''%Semester%Exam%'' (ex_name e)
                   \<and> row = (er_marks er, ex_max_marks e)
                   \<and> (\<forall>er' e'. in_scope db sid ay sem er' e' \<and> er_subject_id er' = subj
                         \<and> like ''%Semester%Exam%'' (ex_name e') \<longrightarrow> ex_id e \<le> ex_id e'))"
    using sem_exam_result_least by blast
  show ?thesis
    using db' r(1) vals counted_possible_pos[OF assms(3)] least
    by (intro exI[of _ db'] exI[of _ r] conjI)
qed

theorem semester_totals_and_average_witness:
  "(\<exists>db' r. compute_and_store_semester_results math_db 1 1 = Inr db'
      \<and> get_semester_result_by_composite_keys db' 1 1 1 = Some r
      \<and> sr_total_marks r = 70 + (25 + 28) / 2
      \<and> sr_total_marks r = 96.5
      \<and> sr_average_score r = 96.5 / 130 * 100
      \<and> \<bar>sr_average_score r - 74.23\<bar> < 0.001)
   \<and> map er_exam_id (ExamResults retake_db) = [2, 1]
   \<and> sem_exam_result retake_db 1 1 1 1 = Some (70, 100)
   \<and> (\<exists>db' r. compute_and_store_semester_results retake_db 1 1 = Inr db'
      \<and> get_semester_result_by_composite_keys db' 1 1 1 = Some r
      \<and> sr_total_marks r = 70 \<and> sr_average_score r = 70)
   \<and> (\<exists>er e. in_scope retake_db 1 1 1 er e \<and> er_subject_id er = 1
         \<and> (70, 100) = (er_marks er, ex_max_marks e)
         \<and> (\<forall>er' e'. in_scope retake_db 1 1 1 er' e' \<and> er_subject_id er' = 1
               \<and> like ''%Semester%Exam%'' (ex_name e') \<longrightarrow> ex_id e \<le> ex_id e'))"
proof -
  have h3: "counted_subjects math_db 1 1 1 \<noteq> []" unfolding math_db_counted by simp
  have a: "sum_list (map (\<lambda>subj. subject_achieved math_db 1 subj 1 1)
                      (counted_subjects math_db 1 1 1)) = 193 / 2"
    unfolding math_db_counted list.map sum_list.Cons sum_list.Nil math_db_achieved by simp
  have p: "sum_list (map (\<lambda>subj. subject_possible math_db 1 subj 1 1)
                      (counted_subjects math_db 1 1 1)) = 130"
    unfolding math_db_counted list.map sum_list.Cons sum_list.Nil math_db_possible by simp
  from semester_totals_and_average[OF math_db_constraints(3) math_db_enrolled h3]
  obtain db' r where m: "compute_and_store_semester_results math_db 1 1 = Inr db'"
      "get_semester_result_by_composite_keys db' 1 1 1 = Some r"
      "sr_total_marks r = 193 / 2" "sr_average_score r = 193 / 2 / 130 * 100"
    unfolding a p by blast
  have A: "\<exists>db' r. compute_and_store_semester_results math_db 1 1 = Inr db'
      \<and> get_semester_result_by_composite_keys db' 1 1 1 = Some r
      \<and> sr_total_marks r = 70 + (25 + 28) / 2
      \<and> sr_total_marks r = 96.5
      \<and> sr_average_score r = 96.5 / 130 * 100
      \<and> \<bar>sr_average_score r - 74.23\<bar> < 0.001"
    using m by (intro exI[of _ db'] exI[of _ r]) simp
  have k3: "counted_subjects retake_db 1 1 1 \<noteq> []" unfolding retake_db_counted by simp
  have a2: "sum_list (map (\<lambda>subj. subject_achieved retake_db 1 subj 1 1)
                      (counted_subjects retake_db 1 1 1)) = 70"
    unfolding retake_db_counted list.map sum_list.Cons sum_list.Nil retake_db_achieved by simp
  have p2: "sum_list (map (\<lambda>subj. subject_possible retake_db 1 subj 1 1)
                      (counted_subjects retake_db 1 1 1)) = 100"
    unfolding retake_db_counted list.map sum_list.Cons sum_list.Nil retake_db_possible by simp
  from semester_totals_and_average[OF retake_db_constraints k3]
  obtain db2 r2 where t: "compute_and_store_semester_results retake_db 1 1 = Inr db2"
      "get_semester_result_by_composite_keys db2 1 1 1 = Some r2"
      "sr_total_marks r2 = 70" "sr_average_score r2 = 70 / 100 * 100"
    and least: "\<forall>subj row. sem_exam_result retake_db 1 subj 1 1 = Some row \<longrightarrow>
                (\<exists>er e. in_scope retake_db 1 1 1 er e \<and> er_subject_id er = subj
                   \<and> like ''%Semester%Exam%'' (ex_name e)
                   \<and> row = (er_marks er, ex_max_marks e)
                   \<and> (\<forall>er' e'. in_scope retake_db 1 1 1 er' e' \<and> er_subject_id er' = subj
                         \<and> like ''%Semester%Exam%'' (ex_name e') \<longrightarrow> ex_id e \<le> ex_id e'))"
    unfolding a2 p2 by blast
  have B: "\<exists>db' r. compute_and_store_semester_results retake_db 1 1 = Inr db'
      \<and> get_semester_result_by_composite_keys db' 1 1 1 = Some r
      \<and> sr_total_marks r = 70 \<and> sr_average_score r = 70"
    using t by (intro exI[of _ db2] exI[of _ r2]) simp
  have C: "\<exists>er e. in_scope retake_db 1 1 1 er e \<and> er_subject_id er = 1
         \<and> (70, 100) = (er_marks er, ex_max_marks e)
         \<and> (\<forall>er' e'. in_scope retake_db 1 1 1 er' e' \<and> er_subject_id er' = 1
               \<and> like ''%Semester%Exam%'' (ex_name e') \<longrightarrow> ex_id e \<le> ex_id e')"
    using least[rule_format, OF retake_db_sem_exam] by blast
  have D: "map er_exam_id (ExamResults retake_db) = [2, 1]" by (simp add: retake_db_def)
  show ?thesis using A B C D retake_db_sem_exam by (intro conjI)
qed




text \<open>
  C7. A subject whose possible total is 0 for a student leaves the three
  accumulators of the semester loop as they are: it adds nothing to the achieved
  total, nothing to the possible total and nothing to the number of subjects
  counted, so the semester totals are those of the loop without that subject. A
  subject with neither a semester-exam score nor a CAT score has the totals (0, 0).
\<close>

theorem subject_without_scores_excluded:
  assumes "snd (subject_totals db sid subj ay sem) = 0"
  shows "accumulate_subject db sid ay sem (subj, nm) (tot, poss, cnt)
           = (tot, poss, cnt)
       \<and> subj \<notin> set (counted_subjects db sid ay sem)
       \<and> semester_totals db sid ay sem =
           fold (accumulate_subject db sid ay sem)
             (filter (\<lambda>s. fst s \<noteq> subj) (subjects_with_results db sid ay sem)) (0, 0, 0)
       \<and> snd (snd (semester_totals db sid ay sem)) = length (counted_subjects db sid ay sem)
       \<and> (sem_exam_result db sid subj' ay sem = None \<and> cat_results db sid subj' ay sem = []
            \<longrightarrow> subject_totals db sid subj' ay sem = (0, 0))"
proof -
  have none: "sem_exam_result db sid subj' ay sem = None \<and> cat_results db sid subj' ay sem = []
            \<longrightarrow> subject_totals db sid subj' ay sem = (0, 0)"
    by (simp add: subject_totals_def)
  have le: "snd (subject_totals db sid subj ay sem) \<le> 0" using assms by simp
  have "subject_possible db sid subj ay sem = 0" using assms by (simp add: subject_totals_eq)
  then have "subj \<notin> set (counted_subjects db sid ay sem)" by (simp add: counted_subjects_def)
  then show ?thesis
    using accumulate_subject_excluded[OF le] fold_accumulate_skip[OF le] none
    by (simp add: semester_totals_def[symmetric] semester_totals_eq)
qed

theorem subject_without_scores_excluded_witness:
  "snd (subject_totals quiz_db 1 2 1 1) = 0
   \<and> map fst (subjects_with_results quiz_db 1 1 1) = [1, 2]
   \<and> accumulate_subject quiz_db 1 1 1 (2, ''Science'') (193 / 2, 130, 1) = (193 / 2, 130, 1)
   \<and> 2 \<notin> set (counted_subjects quiz_db 1 1 1)
   \<and> semester_totals quiz_db 1 1 1 = (193 / 2, 130, 1)"
proof -
  have s: "map fst (subjects_with_results quiz_db 1 1 1) = [1, 2]" by code_simp
  show ?thesis
    using subject_without_scores_excluded[OF quiz_db_science, of "''Science''" "193 / 2" 130 1 2]
      quiz_db_science quiz_db_totals s
    by simp
qed

text \<open>
  C6. With the constraints of the schema on Students, Enrollments and
  SemesterResults, a student who has no score entry in the scope, or no counted
  subject, is not among the entries the run writes, and the rows under that
  student's key are in the table after the run what they were before. The number
  of entries written is the number of enrolled students minus the number of
  skipped ones, and so is, in the table after the run, the number of rows of the
  semester and year that belong to an enrolled student who is not skipped; when
  the table had no row of the semester and year before the run, this is the
  number of all its rows of the semester and year afterwards. Every entry written
  is a row of the table after the run, with the entry's total, average and rank.
\<close>

theorem skipped_students_not_written:
  assumes "distinct (map st_id (Students db))"
      and "distinct (map (\<lambda>e. (en_student_id e, en_academic_year_id e)) (Enrollments db))"
      and "distinct (map sr_id (SemesterResults db))"
      and "distinct (map sr_key (SemesterResults db))"
  shows "\<exists>db'. compute_and_store_semester_results db ay sem = Inr db'
          \<and> (\<forall>sid. skipped db ay sem sid \<longrightarrow>
                sid \<notin> fst ` set (semester_rows_written db ay sem)
                \<and> filter (\<lambda>r. sr_key r = (sid, sem, ay)) (SemesterResults db')
                    = filter (\<lambda>r. sr_key r = (sid, sem, ay)) (SemesterResults db))
          \<and> length (semester_rows_written db ay sem) =
              length (students_in_year db ay)
              - length (filter (\<lambda>s. skipped db ay sem (fst s)) (students_in_year db ay))
          \<and> length (filter (\<lambda>r. sr_semester_id r = sem \<and> sr_academic_year_id r = ay
                        \<and> sr_student_id r \<in> fst ` set (students_in_year db ay)
                        \<and> \<not> skipped db ay sem (sr_student_id r)) (SemesterResults db')) =
              length (students_in_year db ay)
              - length (filter (\<lambda>s. skipped db ay sem (fst s)) (students_in_year db ay))
          \<and> ((\<forall>r\<in>set (SemesterResults db).
                 sr_semester_id r \<noteq> sem \<or> sr_academic_year_id r \<noteq> ay) \<longrightarrow>
              length (filter (\<lambda>r. sr_semester_id r = sem \<and> sr_academic_year_id r = ay)
                        (SemesterResults db')) =
              length (students_in_year db ay)
              - length (filter (\<lambda>s. skipped db ay sem (fst s)) (students_in_year db ay)))
          \<and> (\<forall>kv\<in>set (semester_rows_written db ay sem).
                \<exists>r\<in>set (SemesterResults db').
                   sr_key r = (fst kv, sem, ay) \<and> sr_vals r = data_vals (snd kv))"
proof -
  let ?n = "length (students_in_year db ay)
              - length (filter (\<lambda>s. skipped db ay sem (fst s)) (students_in_year db ay))"
  obtain db' where db': "compute_and_store_semester_results db ay sem = Inr db'"
    using compute_returns by blast
  then have st: "store_semester_results (semester_rows_written db ay sem) ay sem db = Inr db'"
    by (simp add: compute_as_store)
  have dst: "distinct (map fst (students_in_year db ay))"
    using assms(1,2) by (rule students_in_year_distinct)
  have fr: "filter (\<lambda>r. sr_key r = (sid, sem, ay)) (SemesterResults db')
          = filter (\<lambda>r. sr_key r = (sid, sem, ay)) (SemesterResults db)"
    if sk: "skipped db ay sem sid" for sid
    using assms(3) db' by (rule compute_frame) (use sk in \<open>auto simp: sr_key_def\<close>)
  have nw: "sid \<notin> fst ` set (semester_rows_written db ay sem)" if sk: "skipped db ay sem sid" for sid
    using sk by (simp add: semester_rows_written_keys)
  have len: "length (semester_rows_written db ay sem) = ?n"
    using dst by (rule rows_written_length)
  have cnt: "length (filter (\<lambda>r. sr_semester_id r = sem \<and> sr_academic_year_id r = ay
                        \<and> sr_student_id r \<in> fst ` set (students_in_year db ay)
                        \<and> \<not> skipped db ay sem (sr_student_id r)) (SemesterResults db')) = ?n"
    using written_rows_count[OF assms(3,4) db'] len by simp
  have cnt2: "length (filter (\<lambda>r. sr_semester_id r = sem \<and> sr_academic_year_id r = ay)
                        (SemesterResults db')) = ?n"
    if fresh: "\<forall>r\<in>set (SemesterResults db). sr_semester_id r \<noteq> sem \<or> sr_academic_year_id r \<noteq> ay"
    using scope_rows_are_written[OF assms(3) db' fresh] cnt by simp
  have vals: "\<exists>r\<in>set (SemesterResults db').
                   sr_key r = (fst kv, sem, ay) \<and> sr_vals r = data_vals (snd kv)"
    if kv: "kv \<in> set (semester_rows_written db ay sem)" for kv
  proof -
    have "(fst kv, snd kv) \<in> set (semester_rows_written db ay sem)" using kv by simp
    from store_semester_results_get[OF st assms(3) semester_rows_written_distinct this]
    obtain r where r: "get_semester_result_by_composite_keys db' (fst kv) sem ay = Some r"
        "sr_vals r = data_vals (snd kv)" by blast
    then have "r \<in> set (SemesterResults db') \<and> sr_key r = (fst kv, sem, ay)"
      using find_Some_key[of sr_key "(fst kv, sem, ay)" "SemesterResults db'" r]
      by (simp add: get_semester_result_key)
    then show ?thesis using r(2) by blast
  qed
  show ?thesis
    using db' fr nw len cnt cnt2 vals by blast
qed

theorem skipped_students_not_written_witness:
  "skipped class_db 1 1 4
   \<and> length (students_in_year class_db 1) = 4
   \<and> length (filter (\<lambda>s. skipped class_db 1 1 (fst s)) (students_in_year class_db 1)) = 1
   \<and> (\<exists>db'. compute_and_store_semester_results class_db 1 1 = Inr db'
         \<and> filter (\<lambda>r. sr_key r = (4, 1, 1)) (SemesterResults db')
             = [\<lparr>sr_id = 5, sr_student_id = 4, sr_semester_id = 1, sr_academic_year_id = 1,
                 sr_total_marks = 55, sr_average_score = 55, sr_grade_rank = 2\<rparr>]
         \<and> length (filter (\<lambda>r. sr_semester_id r = 1 \<and> sr_academic_year_id r = 1
                        \<and> sr_student_id r \<in> fst ` set (students_in_year class_db 1)
                        \<and> \<not> skipped class_db 1 1 (sr_student_id r)) (SemesterResults db')) = 3
         \<and> (\<exists>r\<in>set (SemesterResults db'). sr_key r = (2, 1, 1) \<and> sr_vals r = (80, 80, 3)))
   \<and> (\<exists>db'. compute_and_store_semester_results math_db 1 1 = Inr db'
         \<and> length (filter (\<lambda>r. sr_semester_id r = 1 \<and> sr_academic_year_id r = 1)
                      (SemesterResults db')) = 1)"
proof -
  let ?P = "\<lambda>r. sr_semester_id r = 1 \<and> sr_academic_year_id r = 1
                        \<and> sr_student_id r \<in> fst ` set (students_in_year class_db 1)
                        \<and> \<not> skipped class_db 1 1 (sr_student_id r)"
  let ?d = "\<lparr>total_marks = 80, average_score = 80, grade_id = 1, grade_rank = Some 3\<rparr>"
  have f: "filter (\<lambda>r. sr_key r = (4, 1, 1)) (SemesterResults class_db)
             = [\<lparr>sr_id = 5, sr_student_id = 4, sr_semester_id = 1, sr_academic_year_id = 1,
                 sr_total_marks = 55, sr_average_score = 55, sr_grade_rank = 2\<rparr>]"
    by code_simp
  from skipped_students_not_written[OF class_db_constraints class_db_ids(1) class_db_keys, of 1 1]
  obtain db' where db': "compute_and_store_semester_results class_db 1 1 = Inr db'"
    and fr: "\<forall>sid. skipped class_db 1 1 sid \<longrightarrow>
                sid \<notin> fst ` set (semester_rows_written class_db 1 1)
                \<and> filter (\<lambda>r. sr_key r = (sid, 1, 1)) (SemesterResults db')
                    = filter (\<lambda>r. sr_key r = (sid, 1, 1)) (SemesterResults class_db)"
    and cnt: "length (filter ?P (SemesterResults db')) =
              length (students_in_year class_db 1)
              - length (filter (\<lambda>s. skipped class_db 1 1 (fst s)) (students_in_year class_db 1))"
    and vals: "\<forall>kv\<in>set (semester_rows_written class_db 1 1).
                \<exists>r\<in>set (SemesterResults db').
                   sr_key r = (fst kv, 1, 1) \<and> sr_vals r = data_vals (snd kv)"
    by blast
  have c1: "filter (\<lambda>r. sr_key r = (4, 1, 1)) (SemesterResults db')
      = [\<lparr>sr_id = 5, sr_student_id = 4, sr_semester_id = 1, sr_academic_year_id = 1,
          sr_total_marks = 55, sr_average_score = 55, sr_grade_rank = 2\<rparr>]"
    using fr class_db_skipped unfolding f[symmetric] by blast
  have c2: "length (filter ?P (SemesterResults db')) = 3"
    using cnt unfolding class_db_counts by simp
  have "(2, ?d) \<in> set (semester_rows_written class_db 1 1)"
    unfolding class_db_semester_rows by simp
  from vals[rule_format, OF this]
  have c3: "\<exists>r\<in>set (SemesterResults db'). sr_key r = (2, 1, 1) \<and> sr_vals r = (80, 80, 3)"
    by (simp add: data_vals_def)
  have A: "\<exists>db'. compute_and_store_semester_results class_db 1 1 = Inr db'
         \<and> filter (\<lambda>r. sr_key r = (4, 1, 1)) (SemesterResults db')
             = [\<lparr>sr_id = 5, sr_student_id = 4, sr_semester_id = 1, sr_academic_year_id = 1,
                 sr_total_marks = 55, sr_average_score = 55, sr_grade_rank = 2\<rparr>]
         \<and> length (filter ?P (SemesterResults db')) = 3
         \<and> (\<exists>r\<in>set (SemesterResults db'). sr_key r = (2, 1, 1) \<and> sr_vals r = (80, 80, 3))"
    using db' c1 c2 c3 by (intro exI[of _ db'] conjI)
  from skipped_students_not_written[OF math_db_constraints, of 1 1]
  obtain db2 where db2: "compute_and_store_semester_results math_db 1 1 = Inr db2"
    and cnt2: "(\<forall>r\<in>set (SemesterResults math_db).
                 sr_semester_id r \<noteq> 1 \<or> sr_academic_year_id r \<noteq> 1) \<longrightarrow>
              length (filter (\<lambda>r. sr_semester_id r = 1 \<and> sr_academic_year_id r = 1)
                        (SemesterResults db2)) =
              length (students_in_year math_db 1)
              - length (filter (\<lambda>s. skipped math_db 1 1 (fst s)) (students_in_year math_db 1))"
    by blast
  have "SemesterResults math_db = []" by (simp add: math_db_def)
  then have "length (filter (\<lambda>r. sr_semester_id r = 1 \<and> sr_academic_year_id r = 1)
                        (SemesterResults db2)) = 1"
    using cnt2 unfolding math_db_counts by simp
  then have B: "\<exists>db'. compute_and_store_semester_results math_db 1 1 = Inr db'
         \<and> length (filter (\<lambda>r. sr_semester_id r = 1 \<and> sr_academic_year_id r = 1)
                      (SemesterResults db')) = 1"
    using db2 by (intro exI[of _ db2] conjI)
  show ?thesis using class_db_skipped class_db_counts A B by (intro conjI)
qed

text \<open>
  C10. A semester run changes the SemesterResults table only: every row of
  another semester or academic year, and every row of a student that the run
  skips (or that is not enrolled in the year), is after the run exactly what it
  was before, in the same order; in particular the stale row of a skipped student
  stays in the table with its old total, average and rank.
\<close>

theorem frame_of_semester_run:
  assumes "distinct (map sr_id (SemesterResults db))"
  shows "\<exists>db'. compute_and_store_semester_results db ay sem = Inr db'
          \<and> filter (\<lambda>r. sr_semester_id r \<noteq> sem \<or> sr_academic_year_id r \<noteq> ay
                        \<or> skipped db ay sem (sr_student_id r)
                        \<or> sr_student_id r \<notin> fst ` set (students_in_year db ay))
               (SemesterResults db')
            = filter (\<lambda>r. sr_semester_id r \<noteq> sem \<or> sr_academic_year_id r \<noteq> ay
                        \<or> skipped db ay sem (sr_student_id r)
                        \<or> sr_student_id r \<notin> fst ` set (students_in_year db ay))
               (SemesterResults db)
          \<and> (\<forall>r\<in>set (SemesterResults db).
                sr_semester_id r \<noteq> sem \<or> sr_academic_year_id r \<noteq> ay
                  \<or> skipped db ay sem (sr_student_id r)
                \<longrightarrow> r \<in> set (SemesterResults db'))
          \<and> Students db' = Students db \<and> Enrollments db' = Enrollments db
          \<and> Subjects db' = Subjects db \<and> Exams db' = Exams db
          \<and> ExamResults db' = ExamResults db
          \<and> YearlyResults db' = YearlyResults db \<and> YearlyResults_seq db' = YearlyResults_seq db"
proof -
  let ?P = "\<lambda>r. sr_semester_id r \<noteq> sem \<or> sr_academic_year_id r \<noteq> ay
                        \<or> skipped db ay sem (sr_student_id r)
                        \<or> sr_student_id r \<notin> fst ` set (students_in_year db ay)"
  obtain db' where db': "compute_and_store_semester_results db ay sem = Inr db'"
    using compute_returns by blast
  then have st: "store_semester_results (semester_rows_written db ay sem) ay sem db = Inr db'"
    by (simp add: compute_as_store)
  have fr: "filter ?P (SemesterResults db') = filter ?P (SemesterResults db)"
    using assms db' by (rule compute_frame)
  have mem: "r \<in> set (SemesterResults db')"
    if "r \<in> set (SemesterResults db)"
       "sr_semester_id r \<noteq> sem \<or> sr_academic_year_id r \<noteq> ay \<or> skipped db ay sem (sr_student_id r)"
    for r
  proof -
    have "r \<in> set (filter ?P (SemesterResults db))" using that by auto
    then have "r \<in> set (filter ?P (SemesterResults db'))" by (simp only: fr)
    then show ?thesis by simp
  qed
  show ?thesis
    using db' fr mem store_semester_results_other_tables[OF st] by blast
qed

theorem frame_of_semester_run_witness:
  "\<exists>db'. compute_and_store_semester_results class_db 1 1 = Inr db'
     \<and> \<lparr>sr_id = 5, sr_student_id = 4, sr_semester_id = 1, sr_academic_year_id = 1,
         sr_total_marks = 55, sr_average_score = 55, sr_grade_rank = 2\<rparr>
        \<in> set (SemesterResults db')
     \<and> \<lparr>sr_id = 6, sr_student_id = 1, sr_semester_id = 2, sr_academic_year_id = 1,
         sr_total_marks = 70, sr_average_score = 70, sr_grade_rank = 1\<rparr>
        \<in> set (SemesterResults db')
     \<and> ExamResults db' = ExamResults class_db"
proof -
  let ?stale = "\<lparr>sr_id = 5, sr_student_id = 4, sr_semester_id = 1, sr_academic_year_id = 1,
         sr_total_marks = 55, sr_average_score = 55, sr_grade_rank = 2\<rparr>"
  let ?other = "\<lparr>sr_id = 6, sr_student_id = 1, sr_semester_id = 2, sr_academic_year_id = 1,
         sr_total_marks = 70, sr_average_score = 70, sr_grade_rank = 1\<rparr>"
  have rows: "SemesterResults class_db = [?stale, ?other]" by (simp add: class_db_def)
  from frame_of_semester_run[OF class_db_ids(1), of 1 1]
  obtain db' where db': "compute_and_store_semester_results class_db 1 1 = Inr db'"
    and keep: "\<forall>r\<in>set (SemesterResults class_db).
                sr_semester_id r \<noteq> 1 \<or> sr_academic_year_id r \<noteq> 1
                  \<or> skipped class_db 1 1 (sr_student_id r)
                \<longrightarrow> r \<in> set (SemesterResults db')"
    and er: "ExamResults db' = ExamResults class_db"
    by blast
  have "?stale \<in> set (SemesterResults db')"
    using keep[rule_format, of ?stale] class_db_skipped unfolding rows by simp
  moreover have "?other \<in> set (SemesterResults db')"
    using keep[rule_format, of ?other] unfolding rows by simp
  ultimately show ?thesis using db' er by blast
qed

text \<open>
  C5. Running the semester computation a second time for the same academic year
  and semester, with the input tables unchanged, leaves the database that the
  first run produced exactly as it is: the same SemesterResult rows with the same
  total marks, average score and rank under the same keys, and no further row.
  After the first run each entry written is found under its key in the store.
\<close>

theorem semester_run_idempotent:
  assumes "distinct (map sr_id (SemesterResults db))"
  shows "\<exists>db1. compute_and_store_semester_results db ay sem = Inr db1
           \<and> compute_and_store_semester_results db1 ay sem = Inr db1
           \<and> (\<forall>kv\<in>set (semester_rows_written db ay sem).
                 \<exists>r. get_semester_result_by_composite_keys db1 (fst kv) sem ay = Some r
                    \<and> sr_vals r = data_vals (snd kv))"
proof -
  let ?D = "semester_rows_written db ay sem"
  obtain db1 where db1: "compute_and_store_semester_results db ay sem = Inr db1"
    using compute_returns by blast
  then have st: "store_semester_results ?D ay sem db = Inr db1"
    by (simp add: compute_as_store)
  have ids1: "distinct (map sr_id (SemesterResults db1))"
    using st assms by (rule store_semester_results_ids)
  have "same_inputs db1 db"
    using store_semester_results_other_tables[OF st] by (simp add: same_inputs_def)
  then have D1: "semester_rows_written db1 ay sem = ?D"
    by (simp add: same_inputs_rows_written)
  have got: "\<exists>r. get_semester_result_by_composite_keys db1 (fst kv) sem ay = Some r
                    \<and> sr_vals r = data_vals (snd kv)" if "kv \<in> set ?D" for kv
    using store_semester_results_get[OF st assms semester_rows_written_distinct, of "fst kv" "snd kv"]
      that by simp
  have "store_semester_results ?D ay sem db1 = Inr db1"
    using ids1
  proof (rule store_semester_results_idem)
    show "\<forall>kv\<in>set ?D. grade_rank (snd kv) \<noteq> None \<and>
      (\<exists>r. get_semester_result_by_composite_keys db1 (fst kv) sem ay = Some r
           \<and> sr_vals r = data_vals (snd kv))"
      using got semester_rows_written_ranked by blast
  qed
  then have "compute_and_store_semester_results db1 ay sem = Inr db1"
    by (simp add: compute_as_store D1)
  then show ?thesis using db1 got by blast
qed

theorem semester_run_idempotent_witness:
  "\<exists>db1. compute_and_store_semester_results class_db 1 1 = Inr db1
     \<and> compute_and_store_semester_results db1 1 1 = Inr db1
     \<and> (\<exists>r. get_semester_result_by_composite_keys db1 2 1 1 = Some r
            \<and> sr_vals r = (80, 80, 3))"
proof -
  let ?d = "\<lparr>total_marks = 80, average_score = 80, grade_id = 1, grade_rank = Some 3\<rparr>"
  from semester_run_idempotent[OF class_db_ids(1), of 1 1]
  obtain db1 where a: "compute_and_store_semester_results class_db 1 1 = Inr db1"
    and b: "compute_and_store_semester_results db1 1 1 = Inr db1"
    and c: "\<forall>kv\<in>set (semester_rows_written class_db 1 1).
                 \<exists>r. get_semester_result_by_composite_keys db1 (fst kv) 1 1 = Some r
                    \<and> sr_vals r = data_vals (snd kv)"
    by blast
  have "(2, ?d) \<in> set (semester_rows_written class_db 1 1)"
    unfolding class_db_semester_rows by simp
  from c[rule_format, OF this]
  have "\<exists>r. get_semester_result_by_composite_keys db1 2 1 1 = Some r \<and> sr_vals r = (80, 80, 3)"
    by (simp add: data_vals_def)
  then show ?thesis using a b by (intro exI[of _ db1] conjI)
qed

text \<open>
  C3. With the primary keys of Students and YearlyResults, a yearly run stores,
  for every student with at least one SemesterResult in the academic year, a
  YearlyResult whose total marks are the sum of the total marks of those semester
  results and whose average score is the arithmetic mean of their average scores;
  a student with no semester result in the year is not among the entries written,
  and the rows under that student's key stay as they were.
\<close>

theorem yearly_totals_and_average:
  assumes "distinct (map st_id (Students db))" and "distinct (map yr_id (YearlyResults db))"
  shows "\<exists>db'. compute_and_store_yearly_results db ay = Inr db'
     \<and> (\<forall>s\<in>set (Students db). semester_results_of db (st_id s) ay \<noteq> [] \<longrightarrow>
          (\<exists>r. get_yearly_result_by_composite_keys db' (st_id s) ay = Some r
             \<and> yr_total_marks r =
                 sum_list (map sr_total_marks (semester_results_of db (st_id s) ay))
             \<and> yr_average_score r =
                 sum_list (map sr_average_score (semester_results_of db (st_id s) ay))
                 / real (length (semester_results_of db (st_id s) ay))))
     \<and> (\<forall>sid. semester_results_of db sid ay = [] \<longrightarrow>
          sid \<notin> fst ` set (yearly_rows_written db ay)
          \<and> filter (\<lambda>r. yr_key r = (sid, ay)) (YearlyResults db')
              = filter (\<lambda>r. yr_key r = (sid, ay)) (YearlyResults db))"
proof -
  let ?W = "yearly_rows_written db ay"
  let ?K = "(\<lambda>kv. (fst kv, ay)) ` set ?W"
  obtain db' where db': "compute_and_store_yearly_results db ay = Inr db'"
    using yearly_compute_returns by blast
  then have st: "store_yearly_results ?W ay db = Inr db'"
    by (simp add: yearly_compute_as_store)
  have p1: "\<exists>r. get_yearly_result_by_composite_keys db' (st_id s) ay = Some r
             \<and> yr_total_marks r =
                 sum_list (map sr_total_marks (semester_results_of db (st_id s) ay))
             \<and> yr_average_score r =
                 sum_list (map sr_average_score (semester_results_of db (st_id s) ay))
                 / real (length (semester_results_of db (st_id s) ay))"
    if s_in: "s \<in> set (Students db)" and s_ne: "semester_results_of db (st_id s) ay \<noteq> []" for s
  proof -
    obtain d where d: "(st_id s, d) \<in> set ?W"
        "y_total_marks d = sum_list (map sr_total_marks (semester_results_of db (st_id s) ay))"
        "y_average_score d =
               sum_list (map sr_average_score (semester_results_of db (st_id s) ay))
               / real (length (semester_results_of db (st_id s) ay))"
      using yearly_entry[OF assms(1) s_in s_ne] by blast
    obtain r where "get_yearly_result_by_composite_keys db' (st_id s) ay = Some r"
        "yr_vals r = y_data_vals d"
      using store_yearly_results_get[OF st assms(2) yearly_rows_written_distinct d(1)] by blast
    then show ?thesis using d(2,3) by (auto simp: yr_vals_def y_data_vals_def)
  qed
  have p2: "sid \<notin> fst ` set ?W
          \<and> filter (\<lambda>r. yr_key r = (sid, ay)) (YearlyResults db')
              = filter (\<lambda>r. yr_key r = (sid, ay)) (YearlyResults db)"
    if none: "semester_results_of db sid ay = []" for sid
  proof -
    have nw: "sid \<notin> fst ` set ?W" using none by (rule yearly_no_entry)
    then have out: "(sid, ay) \<notin> ?K" by force
    have "filter (\<lambda>r. yr_key r = (sid, ay)) (YearlyResults db')
        = filter (\<lambda>r. yr_key r = (sid, ay)) (filter (\<lambda>r. yr_key r \<notin> ?K) (YearlyResults db'))"
      using out by (rule filter_key_outside)
    also have "\<dots> = filter (\<lambda>r. yr_key r = (sid, ay)) (filter (\<lambda>r. yr_key r \<notin> ?K) (YearlyResults db))"
      using store_yearly_results_frame[OF st assms(2)] by simp
    also have "\<dots> = filter (\<lambda>r. yr_key r = (sid, ay)) (YearlyResults db)"
      using out by (rule filter_key_outside[symmetric])
    finally show ?thesis using nw by simp
  qed
  show ?thesis using db' p1 p2 by blast
qed

theorem yearly_totals_and_average_witness:
  "\<exists>db'. compute_and_store_yearly_results year_db 1 = Inr db'
     \<and> (\<exists>r. get_yearly_result_by_composite_keys db' 1 1 = Some r
           \<and> yr_total_marks r = 96.5 + 80 \<and> yr_average_score r = (74 + 80) / 2)
     \<and> 3 \<notin> fst ` set (yearly_rows_written year_db 1)
     \<and> filter (\<lambda>r. yr_key r = (3, 1)) (YearlyResults db') = []"
proof -
  from yearly_totals_and_average[OF year_db_constraints, of 1]
  obtain db' where db': "compute_and_store_yearly_results year_db 1 = Inr db'"
    and p1: "\<forall>s\<in>set (Students year_db). semester_results_of year_db (st_id s) 1 \<noteq> [] \<longrightarrow>
          (\<exists>r. get_yearly_result_by_composite_keys db' (st_id s) 1 = Some r
             \<and> yr_total_marks r =
                 sum_list (map sr_total_marks (semester_results_of year_db (st_id s) 1))
             \<and> yr_average_score r =
                 sum_list (map sr_average_score (semester_results_of year_db (st_id s) 1))
                 / real (length (semester_results_of year_db (st_id s) 1)))"
    and p2: "\<forall>sid. semester_results_of year_db sid 1 = [] \<longrightarrow>
          sid \<notin> fst ` set (yearly_rows_written year_db 1)
          \<and> filter (\<lambda>r. yr_key r = (sid, 1)) (YearlyResults db')
              = filter (\<lambda>r. yr_key r = (sid, 1)) (YearlyResults year_db)"
    by blast
  have ne: "semester_results_of year_db 1 1 \<noteq> []" using year_db_rows(4) by auto
  have "\<exists>r. get_yearly_result_by_composite_keys db' 1 1 = Some r
           \<and> yr_total_marks r = 96.5 + 80 \<and> yr_average_score r = (74 + 80) / 2"
    using p1[rule_format, OF year_db_rows(6)] ne
    unfolding student.simps year_db_rows(2,3,4) by simp
  moreover have "3 \<notin> fst ` set (yearly_rows_written year_db 1)
      \<and> filter (\<lambda>r. yr_key r = (3, 1)) (YearlyResults db') = []"
  proof -
    have "YearlyResults year_db = []" by (simp add: year_db_def class_db_def)
    then show ?thesis using p2[rule_format, OF year_db_rows(5)] by simp
  qed
  ultimately show ?thesis using db' by blast
qed


end
